(* ===== verification/Vfio_Prelude.thy ===== *)
theory Vfio_Prelude
  imports Main "HOL-Library.Word"
begin

text \<open>
  Shared vocabulary of the development: the machine integers of the Rust sources at their
  widths, the little-endian byte view of memory through which the crate and the kernel
  exchange structures, and the list and word lemmas the components use.

  The target is the one the crate documents (x86-64): little-endian, 64-bit \<open>usize\<close>.
\<close>

unbundle bit_operations_syntax

named_theorems layout_simps \<open>evaluation of structure layouts\<close>
named_theorems const_defs \<open>constants of the kernel interface\<close>
named_theorems byte_eval \<open>evaluation of byte sequences\<close>
named_theorems codec_defs \<open>byte encoders and decoders of the kernel structures\<close>

section \<open>Machine integers\<close>

type_synonym u8 = "8 word"
type_synonym u16 = "16 word"
type_synonym u32 = "32 word"
type_synonym u64 = "64 word"
type_synonym usize = "64 word"
type_synonym i32 = "32 word"

text \<open>A file descriptor is the \<open>RawFd\<close> of the sources: an \<open>i32\<close>, read with \<^term>\<open>sint\<close>.\<close>

type_synonym fd = i32

lemma unat_lt_u32: "unat (x :: u32) < 4294967296"
  using unsigned_less [of x, where ?'a = nat] by simp

lemma unat_lt_u64: "unat (x :: u64) < 18446744073709551616"
  using unsigned_less [of x, where ?'a = nat] by simp

lemma unat_lt_u16: "unat (x :: u16) < 65536"
  using unsigned_less [of x, where ?'a = nat] by simp

lemma unat_lt_u8: "unat (x :: u8) < 256"
  using unsigned_less [of x, where ?'a = nat] by simp

lemma unat_u32_of_nat: "n < 4294967296 \<Longrightarrow> unat (word_of_nat n :: u32) = n"
  by (simp add: unat_of_nat)

lemma unat_u64_of_nat: "n < 18446744073709551616 \<Longrightarrow> unat (word_of_nat n :: u64) = n"
  by (simp add: unat_of_nat)

lemma unat_ucast_u32_u64 [simp]: "unat (ucast (x :: u32) :: u64) = unat x"
  using unat_lt_u32 [of x] by (simp add: unsigned_ucast_eq take_bit_nat_eq_self)

lemma ucast_u64_u32_of_nat: "(ucast (word_of_nat n :: u64) :: u32) = word_of_nat n"
  by transfer (simp add: take_bit_take_bit)

lemma concat_replicate_replicate: "concat (replicate a (replicate b x)) = replicate (a * b) x"
  by (induction a) (simp_all add: replicate_add)

lemma unat_ucast_u16_u32 [simp]: "unat (ucast (x :: u16) :: u32) = unat x"
  using unat_lt_u16 [of x] by (simp add: unsigned_ucast_eq take_bit_nat_eq_self)

section \<open>Little-endian byte sequences\<close>

primrec le_bytes :: "nat \<Rightarrow> nat \<Rightarrow> u8 list" where
  "le_bytes 0 v = []"
| "le_bytes (Suc n) v = word_of_nat v # le_bytes n (v div 256)"

primrec le_nat :: "u8 list \<Rightarrow> nat" where
  "le_nat [] = 0"
| "le_nat (b # bs) = unat b + 256 * le_nat bs"

lemma le_bytes_numeral [byte_eval]:
  "le_bytes (numeral k) v = word_of_nat v # le_bytes (pred_numeral k) (v div 256)"
  using le_bytes.simps(2) [of "pred_numeral k" v] by (simp only: numeral_eq_Suc [symmetric])

lemma length_le_bytes [simp]: "length (le_bytes n v) = n"
  by (induction n arbitrary: v) auto

lemma le_nat_le_bytes: "le_nat (le_bytes n v) = v mod 256 ^ n"
proof (induction n arbitrary: v)
  case (Suc n)
  have "unat (word_of_nat v :: u8) = v mod 256"
    by (simp add: unat_of_nat)
  then show ?case
    using Suc.IH [of "v div 256"] by (simp add: mod_mult2_eq)
qed simp

lemma le_nat_le_bytes_u16 [simp]: "word_of_nat (le_nat (le_bytes 2 (unat (w :: u16)))) = w"
  using unat_lt_u16 [of w] by (simp add: le_nat_le_bytes)

lemma le_nat_le_bytes_u32 [simp]: "word_of_nat (le_nat (le_bytes 4 (unat (w :: u32)))) = w"
  using unat_lt_u32 [of w] by (simp add: le_nat_le_bytes)

lemma le_nat_le_bytes_u64 [simp]: "word_of_nat (le_nat (le_bytes 8 (unat (w :: u64)))) = w"
  using unat_lt_u64 [of w] by (simp add: le_nat_le_bytes)

lemma le_nat_bound: "le_nat bs < 256 ^ length bs"
proof (induction bs)
  case (Cons b bs)
  have "unat b < 256" by (rule unat_lt_u8)
  with Cons.IH show ?case by simp
qed simp

lemma le_bytes_le_nat: "le_bytes (length bs) (le_nat bs) = bs"
proof (induction bs)
  case (Cons b bs)
  have b: "unat b < 256" by (rule unat_lt_u8)
  then have "(unat b + 256 * le_nat bs) div 256 = le_nat bs" by simp
  moreover have "(word_of_nat (unat b + 256 * le_nat bs) :: u8) = b"
  proof -
    have "(word_of_nat 256 :: u8) = 0" by simp
    then show ?thesis by (simp only: of_nat_add of_nat_mult mult_zero_left add_0_right of_nat_unat ucast_id)
  qed
  ultimately show ?case using Cons.IH by simp
qed simp

section \<open>Reading and writing at an offset\<close>

text \<open>
  A memory object is a byte list. A read that leaves the object is \<^term>\<open>None\<close>: in the
  sources it would be an out-of-bounds access through a raw pointer.
\<close>

definition read_bytes :: "nat \<Rightarrow> nat \<Rightarrow> u8 list \<Rightarrow> u8 list option" where
  "read_bytes off n bs = (if off + n \<le> length bs then Some (take n (drop off bs)) else None)"

definition read_u16 :: "nat \<Rightarrow> u8 list \<Rightarrow> u16 option" where
  "read_u16 off bs = map_option (\<lambda>b. word_of_nat (le_nat b)) (read_bytes off 2 bs)"

definition read_u32 :: "nat \<Rightarrow> u8 list \<Rightarrow> u32 option" where
  "read_u32 off bs = map_option (\<lambda>b. word_of_nat (le_nat b)) (read_bytes off 4 bs)"

definition read_u64 :: "nat \<Rightarrow> u8 list \<Rightarrow> u64 option" where
  "read_u64 off bs = map_option (\<lambda>b. word_of_nat (le_nat b)) (read_bytes off 8 bs)"

definition write_bytes :: "nat \<Rightarrow> u8 list \<Rightarrow> u8 list \<Rightarrow> u8 list" where
  "write_bytes off xs bs = take off bs @ xs @ drop (off + length xs) bs"

abbreviation write_u16 :: "nat \<Rightarrow> u16 \<Rightarrow> u8 list \<Rightarrow> u8 list" where
  "write_u16 off w \<equiv> write_bytes off (le_bytes 2 (unat w))"

abbreviation write_u32 :: "nat \<Rightarrow> u32 \<Rightarrow> u8 list \<Rightarrow> u8 list" where
  "write_u32 off w \<equiv> write_bytes off (le_bytes 4 (unat w))"

abbreviation write_u64 :: "nat \<Rightarrow> u64 \<Rightarrow> u8 list \<Rightarrow> u8 list" where
  "write_u64 off w \<equiv> write_bytes off (le_bytes 8 (unat w))"

lemma length_write_bytes [simp]:
  "off + length xs \<le> length bs \<Longrightarrow> length (write_bytes off xs bs) = length bs"
  by (simp add: write_bytes_def)

lemma read_write_same:
  "off + length xs \<le> length bs \<Longrightarrow> n = length xs \<Longrightarrow>
   read_bytes off n (write_bytes off xs bs) = Some xs"
  by (simp add: read_bytes_def write_bytes_def)

lemma read_write_before:
  assumes "off' + n \<le> off" "off + length xs \<le> length bs"
  shows "read_bytes off' n (write_bytes off xs bs) = read_bytes off' n bs"
proof -
  have "take n (drop off' (take off bs @ xs @ drop (off + length xs) bs)) = take n (drop off' (take off bs))"
    using assms by simp
  also have "\<dots> = take n (drop off' bs)"
    using assms by (simp add: drop_take min_def)
  finally show ?thesis
    using assms by (simp add: read_bytes_def write_bytes_def)
qed

lemma read_write_after:
  assumes "off + length xs \<le> off'" "off + length xs \<le> length bs"
  shows "read_bytes off' n (write_bytes off xs bs) = read_bytes off' n bs"
proof -
  have "drop off' (take off bs @ xs @ drop (off + length xs) bs) = drop off' bs"
    using assms by simp
  then show ?thesis
    using assms by (simp add: read_bytes_def write_bytes_def)
qed

lemma read_bytes_append_left:
  "off + n \<le> length xs \<Longrightarrow> read_bytes off n (xs @ ys) = read_bytes off n xs"
  by (simp add: read_bytes_def)

lemma read_bytes_append_right:
  "length xs \<le> off \<Longrightarrow> read_bytes off n (xs @ ys) = read_bytes (off - length xs) n ys"
  by (auto simp add: read_bytes_def)

lemma read_bytes_exact:
  "n = length bs \<Longrightarrow> read_bytes 0 n bs = Some bs"
  by (simp add: read_bytes_def)

lemma read_bytes_prefix:
  "n = length xs \<Longrightarrow> read_bytes 0 n (xs @ ys) = Some xs"
  by (simp add: read_bytes_def)

lemma read_bytes_at:
  "off = length xs \<Longrightarrow> n = length ys \<Longrightarrow> read_bytes off n (xs @ ys @ zs) = Some ys"
  by (simp add: read_bytes_def)

lemma read_bytes_None_iff: "read_bytes off n bs = None \<longleftrightarrow> length bs < off + n"
  by (auto simp: read_bytes_def)

lemma read_u32_Some_bound: "read_u32 off bs = Some w \<Longrightarrow> off + 4 \<le> length bs"
  by (auto simp: read_u32_def read_bytes_def split: if_splits)

text \<open>Reading fields of a concatenation, front to back.\<close>

lemma read_bytes_skip:
  "n \<le> off \<Longrightarrow> read_bytes off k (le_bytes n v @ rest) = read_bytes (off - n) k rest"
  by (simp add: read_bytes_append_right)

lemma read_u16_skip [simp]:
  "n \<le> off \<Longrightarrow> read_u16 off (le_bytes n v @ rest) = read_u16 (off - n) rest"
  by (simp add: read_u16_def read_bytes_skip)

lemma read_u32_skip [simp]:
  "n \<le> off \<Longrightarrow> read_u32 off (le_bytes n v @ rest) = read_u32 (off - n) rest"
  by (simp add: read_u32_def read_bytes_skip)

lemma read_u64_skip [simp]:
  "n \<le> off \<Longrightarrow> read_u64 off (le_bytes n v @ rest) = read_u64 (off - n) rest"
  by (simp add: read_u64_def read_bytes_skip)

lemma read_u16_front [simp]: "read_u16 0 (le_bytes 2 (unat w) @ rest) = Some w"
  by (simp add: read_u16_def read_bytes_prefix)

lemma read_u32_front [simp]: "read_u32 0 (le_bytes 4 (unat w) @ rest) = Some w"
  by (simp add: read_u32_def read_bytes_prefix)

lemma read_u64_front [simp]: "read_u64 0 (le_bytes 8 (unat w) @ rest) = Some w"
  by (simp add: read_u64_def read_bytes_prefix)

lemma read_short [simp]:
  "length bs < off + 2 \<Longrightarrow> read_u16 off bs = None"
  "length bs < off + 4 \<Longrightarrow> read_u32 off bs = None"
  "length bs < off + 8 \<Longrightarrow> read_u64 off bs = None"
  by (simp_all add: read_u16_def read_u32_def read_u64_def read_bytes_def)

lemma read_None_iff:
  "read_u16 off bs = None \<longleftrightarrow> length bs < off + 2"
  "read_u32 off bs = None \<longleftrightarrow> length bs < off + 4"
  "read_u64 off bs = None \<longleftrightarrow> length bs < off + 8"
  by (simp_all add: read_u16_def read_u32_def read_u64_def read_bytes_None_iff)

lemma read_long:
  "off + 2 \<le> length bs \<Longrightarrow> \<exists>w. read_u16 off bs = Some w"
  "off + 4 \<le> length bs \<Longrightarrow> \<exists>w. read_u32 off bs = Some w"
  "off + 8 \<le> length bs \<Longrightarrow> \<exists>w. read_u64 off bs = Some w"
  by (simp_all add: read_u16_def read_u32_def read_u64_def read_bytes_def)

lemma read_drop:
  "read_u16 off (drop n bs) = read_u16 (n + off) bs"
  "read_u32 off (drop n bs) = read_u32 (n + off) bs"
  "read_u64 off (drop n bs) = read_u64 (n + off) bs"
  if "n \<le> length bs"
  using that
  by (auto simp add: read_u16_def read_u32_def read_u64_def read_bytes_def add.commute)

section \<open>Generic list lemmas\<close>

text \<open>Rust's \<open>slice::get\<close>: \<open>None\<close> past the end.\<close>

definition slice_get :: "'a list \<Rightarrow> nat \<Rightarrow> 'a option" where
  "slice_get xs i = (if i < length xs then Some (xs ! i) else None)"

lemma slice_get_map: "slice_get (map f xs) i = map_option f (slice_get xs i)"
  by (simp add: slice_get_def)

lemma slice_get_None: "slice_get xs i = None \<longleftrightarrow> length xs \<le> i"
  by (auto simp: slice_get_def)

lemma slice_get_Some: "slice_get xs i = Some x \<longleftrightarrow> i < length xs \<and> xs ! i = x"
  by (auto simp: slice_get_def)

end
