(* ===== verification/C_Layout.thy ===== *)
theory C_Layout
  imports Vfio_Prelude
begin

text \<open>
  The \<open>#[repr(C)]\<close> layout algorithm on which every structure of \<open>vfio-bindings\<close> rests: sizes,
  alignments and field offsets of structures, unions and arrays. The bindings theory applies it
  to the declarations of \<open>vfio.rs\<close>; here are the general guarantees (fields are aligned, do not
  overlap, lie inside the structure, and padding is as small as alignment allows).
\<close>

section \<open>Types and their layout\<close>

text \<open>
  \<open>Prim n\<close> is an integer or pointer of \<open>n\<close> bytes, aligned to \<open>n\<close>; an incomplete array field is
  an array of length 0.
\<close>

datatype ctype =
    Prim nat
  | Arr ctype nat
  | Struct "(string \<times> ctype) list"
  | Union "(string \<times> ctype) list"

definition round_up :: "nat \<Rightarrow> nat \<Rightarrow> nat" where
  "round_up n a = (n + a - 1) div a * a"

fun align_of :: "ctype \<Rightarrow> nat" where
  "align_of (Prim n) = n"
| "align_of (Arr t n) = align_of t"
| "align_of (Struct fs) = foldl max 1 (map align_of (map snd fs))"
| "align_of (Union fs) = foldl max 1 (map align_of (map snd fs))"

text \<open>
  \<open>place\<close> puts fields of the given sizes and alignments one after the other, each at the first
  offset its alignment allows; it returns the offsets and the end of the last field.
\<close>

fun place :: "nat \<Rightarrow> (nat \<times> nat) list \<Rightarrow> nat list \<times> nat" where
  "place off [] = ([], off)"
| "place off ((sz, al) # fs) =
     (let o' = round_up off al; r = place (o' + sz) fs in (o' # fst r, snd r))"

fun size_of :: "ctype \<Rightarrow> nat" where
  "size_of (Prim n) = n"
| "size_of (Arr t n) = size_of t * n"
| "size_of (Struct fs) =
     round_up (snd (place 0 (map (\<lambda>t. (size_of t, align_of t)) (map snd fs))))
       (align_of (Struct fs))"
| "size_of (Union fs) =
     round_up (foldl max 0 (map size_of (map snd fs))) (align_of (Union fs))"

definition shapes :: "(string \<times> ctype) list \<Rightarrow> (nat \<times> nat) list" where
  "shapes fs = map (\<lambda>t. (size_of t, align_of t)) (map snd fs)"

fun field_offsets :: "ctype \<Rightarrow> (string \<times> nat) list" where
  "field_offsets (Struct fs) = zip (map fst fs) (fst (place 0 (shapes fs)))"
| "field_offsets (Union fs) = map (\<lambda>f. (fst f, 0)) fs"
| "field_offsets _ = []"

definition offset_of :: "ctype \<Rightarrow> string \<Rightarrow> nat option" where
  "offset_of t name = map_of (field_offsets t) name"

section \<open>Guarantees\<close>

lemma round_up_ge: "0 < a \<Longrightarrow> n \<le> round_up n a"
proof -
  assume a: "0 < a"
  have "n + a - 1 = (n + a - 1) div a * a + (n + a - 1) mod a" by simp
  moreover have "(n + a - 1) mod a < a" using a by simp
  ultimately show ?thesis unfolding round_up_def by linarith
qed

lemma round_up_less: "0 < a \<Longrightarrow> round_up n a < n + a"
proof -
  assume a: "0 < a"
  have "(n + a - 1) div a * a \<le> n + a - 1" by simp
  with a show ?thesis unfolding round_up_def by linarith
qed

lemma round_up_dvd: "a dvd round_up n a"
  by (simp add: round_up_def)

lemma round_up_least:
  assumes "0 < a" "a dvd m" "n \<le> m"
  shows "round_up n a \<le> m"
proof -
  obtain k where m: "m = a * k" using assms(2) by blast
  have "n + a - 1 < (k + 1) * a" using assms m by (simp add: algebra_simps)
  then have "(n + a - 1) div a < k + 1" by (simp add: less_mult_imp_div_less)
  then have "(n + a - 1) div a \<le> k" by simp
  then have "(n + a - 1) div a * a \<le> k * a" by (rule mult_le_mono1)
  with m show ?thesis by (simp add: round_up_def mult.commute)
qed

lemma length_place [simp]: "length (fst (place off fs)) = length fs"
  by (induction off fs rule: place.induct) (auto simp: Let_def)

lemma place_end_ge: "\<forall>f \<in> set fs. 0 < snd f \<Longrightarrow> off \<le> snd (place off fs)"
proof (induction off fs rule: place.induct)
  case (2 off sz al fs)
  have "off \<le> round_up off al" using 2 by (simp add: round_up_ge)
  moreover have "round_up off al + sz \<le> snd (place (round_up off al + sz) fs)" using 2 by simp
  ultimately show ?case by (simp add: Let_def)
qed simp

lemma place_aligned:
  "i < length fs \<Longrightarrow> snd (fs ! i) dvd fst (place off fs) ! i"
proof (induction off fs arbitrary: i rule: place.induct)
  case (2 off sz al fs)
  then show ?case by (cases i) (auto simp: Let_def round_up_dvd)
qed simp

lemma place_start:
  "\<forall>f \<in> set fs. 0 < snd f \<Longrightarrow> i < length fs \<Longrightarrow> off \<le> fst (place off fs) ! i"
proof (induction off fs arbitrary: i rule: place.induct)
  case (2 off sz al fs)
  have le: "off \<le> round_up off al" using 2 by (simp add: round_up_ge)
  show ?case
  proof (cases i)
    case (Suc j)
    then have "round_up off al + sz \<le> fst (place (round_up off al + sz) fs) ! j" using 2 by simp
    with le Suc show ?thesis by (simp add: Let_def)
  qed (use le in \<open>simp add: Let_def\<close>)
qed simp

lemma place_disjoint:
  "\<forall>f \<in> set fs. 0 < snd f \<Longrightarrow> i < j \<Longrightarrow> j < length fs \<Longrightarrow>
   fst (place off fs) ! i + fst (fs ! i) \<le> fst (place off fs) ! j"
proof (induction off fs arbitrary: i j rule: place.induct)
  case (2 off sz al fs)
  obtain j' where j: "j = Suc j'" using \<open>i < j\<close> by (cases j) auto
  show ?case
  proof (cases i)
    case 0
    have "round_up off al + sz \<le> fst (place (round_up off al + sz) fs) ! j'"
      using 2 j by (simp add: place_start)
    with 0 j show ?thesis by (simp add: Let_def)
  next
    case (Suc i')
    with 2 j show ?thesis by (simp add: Let_def)
  qed
qed simp

lemma place_within:
  "\<forall>f \<in> set fs. 0 < snd f \<Longrightarrow> i < length fs \<Longrightarrow>
   fst (place off fs) ! i + fst (fs ! i) \<le> snd (place off fs)"
proof (induction off fs arbitrary: i rule: place.induct)
  case (2 off sz al fs)
  show ?case
  proof (cases i)
    case 0
    with 2 show ?thesis by (simp add: Let_def place_end_ge)
  next
    case (Suc i')
    with 2 show ?thesis by (simp add: Let_def)
  qed
qed simp

text \<open>Alignments are positive as soon as the primitive ones are.\<close>

lemma foldl_max_ge: "x \<le> foldl max x ys \<and> (\<forall>y \<in> set ys. y \<le> foldl max x ys)" for x :: nat
proof (induction ys arbitrary: x)
  case (Cons y ys)
  from Cons.IH [of "max x y"] show ?case by auto
qed simp

fun prims_ok :: "ctype \<Rightarrow> bool" where
  "prims_ok (Prim n) = (n \<in> {1, 2, 4, 8})"
| "prims_ok (Arr t n) = prims_ok t"
| "prims_ok (Struct fs) = list_all prims_ok (map snd fs)"
| "prims_ok (Union fs) = list_all prims_ok (map snd fs)"

lemma align_of_pos: "prims_ok t \<Longrightarrow> 0 < align_of t"
proof (induction t rule: align_of.induct)
  case (3 fs)
  show ?case using foldl_max_ge [of 1 "map align_of (map snd fs)"] by auto
next
  case (4 fs)
  show ?case using foldl_max_ge [of 1 "map align_of (map snd fs)"] by auto
qed auto

lemma align_of_pow2: "prims_ok t \<Longrightarrow> align_of t \<in> {1, 2, 4, 8}"
proof -
  have fold: "foldl max x ys \<in> {1, 2, 4, 8}" if "x \<in> {1, 2, 4, 8}" "set ys \<subseteq> {1, 2, 4, 8}" for x :: nat and ys
    using that by (induction ys arbitrary: x) (auto simp: max_def)
  show "prims_ok t \<Longrightarrow> align_of t \<in> {1, 2, 4, 8}"
  proof (induction t rule: align_of.induct)
    case (3 fs)
    then have "set (map align_of (map snd fs)) \<subseteq> {1, 2, 4, 8}" by (auto simp: list_all_iff)
    then show ?case using fold [of 1] by simp
  next
    case (4 fs)
    then have "set (map align_of (map snd fs)) \<subseteq> {1, 2, 4, 8}" by (auto simp: list_all_iff)
    then show ?case using fold [of 1] by simp
  qed auto
qed

lemma pow2_dvd: "(a :: nat) \<in> {1, 2, 4, 8} \<Longrightarrow> b \<in> {1, 2, 4, 8} \<Longrightarrow> a \<le> b \<Longrightarrow> a dvd b"
  by auto

lemma field_offsets_nth:
  "i < length fs \<Longrightarrow> field_offsets (Struct fs) ! i = (fst (fs ! i), fst (place 0 (shapes fs)) ! i)"
  by (simp add: shapes_def)

lemma shapes_aligned: "prims_ok (Struct fs) \<Longrightarrow> \<forall>f \<in> set (shapes fs). 0 < snd f"
  by (auto simp: shapes_def list_all_iff intro!: align_of_pos)

lemma size_of_Struct: "size_of (Struct fs) = round_up (snd (place 0 (shapes fs))) (align_of (Struct fs))"
  by (simp add: shapes_def)

text \<open>The layout of a structure whose leaves are machine integers.\<close>

lemma struct_field_aligned:
  assumes "prims_ok (Struct fs)" "i < length fs"
  shows "align_of (snd (fs ! i)) dvd snd (field_offsets (Struct fs) ! i)"
    and "align_of (snd (fs ! i)) dvd align_of (Struct fs)"
proof -
  show "align_of (snd (fs ! i)) dvd snd (field_offsets (Struct fs) ! i)"
    using place_aligned [of i "shapes fs" 0] assms(2)
    by (simp add: field_offsets_nth shapes_def del: field_offsets.simps)
  have "align_of (snd (fs ! i)) \<le> align_of (Struct fs)"
    using foldl_max_ge [of 1 "map align_of (map snd fs)"] assms(2) by (auto simp: set_conv_nth)
  moreover have "prims_ok (snd (fs ! i))" using assms by (simp add: list_all_iff)
  ultimately show "align_of (snd (fs ! i)) dvd align_of (Struct fs)"
    using assms(1) by (meson align_of_pow2 pow2_dvd)
qed

lemma struct_fields_disjoint:
  assumes "prims_ok (Struct fs)" "i < j" "j < length fs"
  shows "snd (field_offsets (Struct fs) ! i) + size_of (snd (fs ! i)) \<le> snd (field_offsets (Struct fs) ! j)"
  using place_disjoint [OF shapes_aligned [OF assms(1)], of i j 0] assms(2,3)
  by (simp add: field_offsets_nth shapes_def del: field_offsets.simps)

lemma struct_field_inside:
  assumes "prims_ok (Struct fs)" "i < length fs"
  shows "snd (field_offsets (Struct fs) ! i) + size_of (snd (fs ! i)) \<le> size_of (Struct fs)"
proof -
  have "snd (field_offsets (Struct fs) ! i) + size_of (snd (fs ! i)) \<le> snd (place 0 (shapes fs))"
    using place_within [OF shapes_aligned [OF assms(1)], of i 0] assms(2)
    by (simp add: field_offsets_nth shapes_def del: field_offsets.simps)
  also have "\<dots> \<le> size_of (Struct fs)"
    unfolding size_of_Struct using align_of_pos [OF assms(1)] by (rule round_up_ge)
  finally show ?thesis .
qed

end
