(* ===== verification/Bindings_Layout.thy ===== *)
theory Bindings_Layout
  imports C_Layout
begin

text \<open>
  The structure declarations of \<open>vfio-bindings/src/bindings_v5_0_0/vfio.rs\<close> as layouts, and the
  assertions of the \<open>bindgen_test_layout_*\<close> tests generated beside them (size, alignment and
  field offsets, as numbers). An \<open>__IncompleteArrayField<T>\<close> is an array of \<open>T\<close> of length 0.
  The theorems show that the layout algorithm assigns every declared structure exactly the layout
  its test asserts, and that the declared structures have the guarantees of \<open>C_Layout\<close>.
\<close>

record layout_test =
  lt_type :: ctype
  lt_size :: nat
  lt_align :: nat
  lt_offsets :: "(string \<times> nat) list"

section \<open>Declarations and layout tests\<close>

definition kernel_fd_set_ty :: ctype where
  [layout_simps]: "kernel_fd_set_ty = Struct
     [(''fds_bits'', Arr (Prim 8) 16)]"

definition kernel_fsid_t_ty :: ctype where
  [layout_simps]: "kernel_fsid_t_ty = Struct
     [(''val'', Arr (Prim 4) 2)]"

definition vfio_info_cap_header_ty :: ctype where
  [layout_simps]: "vfio_info_cap_header_ty = Struct
     [(''id'', Prim 2),
      (''version'', Prim 2),
      (''next'', Prim 4)]"

definition vfio_group_status_ty :: ctype where
  [layout_simps]: "vfio_group_status_ty = Struct
     [(''argsz'', Prim 4),
      (''flags'', Prim 4)]"

definition vfio_device_info_ty :: ctype where
  [layout_simps]: "vfio_device_info_ty = Struct
     [(''argsz'', Prim 4),
      (''flags'', Prim 4),
      (''num_regions'', Prim 4),
      (''num_irqs'', Prim 4)]"

definition vfio_region_info_ty :: ctype where
  [layout_simps]: "vfio_region_info_ty = Struct
     [(''argsz'', Prim 4),
      (''flags'', Prim 4),
      (''index'', Prim 4),
      (''cap_offset'', Prim 4),
      (''size'', Prim 8),
      (''offset'', Prim 8)]"

definition vfio_region_sparse_mmap_area_ty :: ctype where
  [layout_simps]: "vfio_region_sparse_mmap_area_ty = Struct
     [(''offset'', Prim 8),
      (''size'', Prim 8)]"

definition vfio_region_info_cap_sparse_mmap_ty :: ctype where
  [layout_simps]: "vfio_region_info_cap_sparse_mmap_ty = Struct
     [(''header'', vfio_info_cap_header_ty),
      (''nr_areas'', Prim 4),
      (''reserved'', Prim 4),
      (''areas'', Arr (vfio_region_sparse_mmap_area_ty) 0)]"

definition vfio_region_info_cap_type_ty :: ctype where
  [layout_simps]: "vfio_region_info_cap_type_ty = Struct
     [(''header'', vfio_info_cap_header_ty),
      (''type_'', Prim 4),
      (''subtype'', Prim 4)]"

definition vfio_region_gfx_edid_ty :: ctype where
  [layout_simps]: "vfio_region_gfx_edid_ty = Struct
     [(''edid_offset'', Prim 4),
      (''edid_max_size'', Prim 4),
      (''edid_size'', Prim 4),
      (''max_xres'', Prim 4),
      (''max_yres'', Prim 4),
      (''link_state'', Prim 4)]"

definition vfio_region_info_cap_nvlink2_ssatgt_ty :: ctype where
  [layout_simps]: "vfio_region_info_cap_nvlink2_ssatgt_ty = Struct
     [(''header'', vfio_info_cap_header_ty),
      (''tgt'', Prim 8)]"

definition vfio_region_info_cap_nvlink2_lnkspd_ty :: ctype where
  [layout_simps]: "vfio_region_info_cap_nvlink2_lnkspd_ty = Struct
     [(''header'', vfio_info_cap_header_ty),
      (''link_speed'', Prim 4),
      (''__pad'', Prim 4)]"

definition vfio_irq_info_ty :: ctype where
  [layout_simps]: "vfio_irq_info_ty = Struct
     [(''argsz'', Prim 4),
      (''flags'', Prim 4),
      (''index'', Prim 4),
      (''count'', Prim 4)]"

definition vfio_irq_set_ty :: ctype where
  [layout_simps]: "vfio_irq_set_ty = Struct
     [(''argsz'', Prim 4),
      (''flags'', Prim 4),
      (''index'', Prim 4),
      (''start'', Prim 4),
      (''count'', Prim 4),
      (''data'', Arr (Prim 1) 0)]"

definition vfio_pci_dependent_device_ty :: ctype where
  [layout_simps]: "vfio_pci_dependent_device_ty = Struct
     [(''group_id'', Prim 4),
      (''segment'', Prim 2),
      (''bus'', Prim 1),
      (''devfn'', Prim 1)]"

definition vfio_pci_hot_reset_info_ty :: ctype where
  [layout_simps]: "vfio_pci_hot_reset_info_ty = Struct
     [(''argsz'', Prim 4),
      (''flags'', Prim 4),
      (''count'', Prim 4),
      (''devices'', Arr (vfio_pci_dependent_device_ty) 0)]"

definition vfio_pci_hot_reset_ty :: ctype where
  [layout_simps]: "vfio_pci_hot_reset_ty = Struct
     [(''argsz'', Prim 4),
      (''flags'', Prim 4),
      (''count'', Prim 4),
      (''group_fds'', Arr (Prim 4) 0)]"

definition vfio_device_gfx_plane_info_anon_ty :: ctype where
  [layout_simps]: "vfio_device_gfx_plane_info_anon_ty = Union
     [(''region_index'', Prim 4),
      (''dmabuf_id'', Prim 4),
      (''_bindgen_union_align'', Prim 4)]"

definition vfio_device_gfx_plane_info_ty :: ctype where
  [layout_simps]: "vfio_device_gfx_plane_info_ty = Struct
     [(''argsz'', Prim 4),
      (''flags'', Prim 4),
      (''drm_plane_type'', Prim 4),
      (''drm_format'', Prim 4),
      (''drm_format_mod'', Prim 8),
      (''width'', Prim 4),
      (''height'', Prim 4),
      (''stride'', Prim 4),
      (''size'', Prim 4),
      (''x_pos'', Prim 4),
      (''y_pos'', Prim 4),
      (''x_hot'', Prim 4),
      (''y_hot'', Prim 4),
      (''__bindgen_anon_1'', vfio_device_gfx_plane_info_anon_ty)]"

definition vfio_device_ioeventfd_ty :: ctype where
  [layout_simps]: "vfio_device_ioeventfd_ty = Struct
     [(''argsz'', Prim 4),
      (''flags'', Prim 4),
      (''offset'', Prim 8),
      (''data'', Prim 8),
      (''fd'', Prim 4)]"

definition vfio_iommu_type1_info_ty :: ctype where
  [layout_simps]: "vfio_iommu_type1_info_ty = Struct
     [(''argsz'', Prim 4),
      (''flags'', Prim 4),
      (''iova_pgsizes'', Prim 8)]"

definition vfio_iommu_type1_dma_map_ty :: ctype where
  [layout_simps]: "vfio_iommu_type1_dma_map_ty = Struct
     [(''argsz'', Prim 4),
      (''flags'', Prim 4),
      (''vaddr'', Prim 8),
      (''iova'', Prim 8),
      (''size'', Prim 8)]"

definition vfio_iommu_type1_dma_unmap_ty :: ctype where
  [layout_simps]: "vfio_iommu_type1_dma_unmap_ty = Struct
     [(''argsz'', Prim 4),
      (''flags'', Prim 4),
      (''iova'', Prim 8),
      (''size'', Prim 8)]"

definition vfio_iommu_spapr_tce_ddw_info_ty :: ctype where
  [layout_simps]: "vfio_iommu_spapr_tce_ddw_info_ty = Struct
     [(''pgsizes'', Prim 8),
      (''max_dynamic_windows_supported'', Prim 4),
      (''levels'', Prim 4)]"

definition vfio_iommu_spapr_tce_info_ty :: ctype where
  [layout_simps]: "vfio_iommu_spapr_tce_info_ty = Struct
     [(''argsz'', Prim 4),
      (''flags'', Prim 4),
      (''dma32_window_start'', Prim 4),
      (''dma32_window_size'', Prim 4),
      (''ddw'', vfio_iommu_spapr_tce_ddw_info_ty)]"

definition vfio_eeh_pe_err_ty :: ctype where
  [layout_simps]: "vfio_eeh_pe_err_ty = Struct
     [(''type_'', Prim 4),
      (''func'', Prim 4),
      (''addr'', Prim 8),
      (''mask'', Prim 8)]"

definition vfio_eeh_pe_op_anon_ty :: ctype where
  [layout_simps]: "vfio_eeh_pe_op_anon_ty = Union
     [(''err'', vfio_eeh_pe_err_ty),
      (''_bindgen_union_align'', Arr (Prim 8) 3)]"

definition vfio_eeh_pe_op_ty :: ctype where
  [layout_simps]: "vfio_eeh_pe_op_ty = Struct
     [(''argsz'', Prim 4),
      (''flags'', Prim 4),
      (''op'', Prim 4),
      (''__bindgen_anon_1'', vfio_eeh_pe_op_anon_ty)]"

definition vfio_iommu_spapr_register_memory_ty :: ctype where
  [layout_simps]: "vfio_iommu_spapr_register_memory_ty = Struct
     [(''argsz'', Prim 4),
      (''flags'', Prim 4),
      (''vaddr'', Prim 8),
      (''size'', Prim 8)]"

definition vfio_iommu_spapr_tce_create_ty :: ctype where
  [layout_simps]: "vfio_iommu_spapr_tce_create_ty = Struct
     [(''argsz'', Prim 4),
      (''flags'', Prim 4),
      (''page_shift'', Prim 4),
      (''__resv1'', Prim 4),
      (''window_size'', Prim 8),
      (''levels'', Prim 4),
      (''__resv2'', Prim 4),
      (''start_addr'', Prim 8)]"

definition vfio_iommu_spapr_tce_remove_ty :: ctype where
  [layout_simps]: "vfio_iommu_spapr_tce_remove_ty = Struct
     [(''argsz'', Prim 4),
      (''flags'', Prim 4),
      (''start_addr'', Prim 8)]"

definition bindgen_test_layout_kernel_fd_set :: layout_test where
  [layout_simps]: "bindgen_test_layout_kernel_fd_set =
     \<lparr>lt_type = kernel_fd_set_ty, lt_size = 128, lt_align = 8,
       lt_offsets = [(''fds_bits'', 0)]\<rparr>"

definition bindgen_test_layout_kernel_fsid_t :: layout_test where
  [layout_simps]: "bindgen_test_layout_kernel_fsid_t =
     \<lparr>lt_type = kernel_fsid_t_ty, lt_size = 8, lt_align = 4,
       lt_offsets = [(''val'', 0)]\<rparr>"

definition bindgen_test_layout_vfio_info_cap_header :: layout_test where
  [layout_simps]: "bindgen_test_layout_vfio_info_cap_header =
     \<lparr>lt_type = vfio_info_cap_header_ty, lt_size = 8, lt_align = 4,
       lt_offsets = [(''id'', 0), (''version'', 2), (''next'', 4)]\<rparr>"

definition bindgen_test_layout_vfio_group_status :: layout_test where
  [layout_simps]: "bindgen_test_layout_vfio_group_status =
     \<lparr>lt_type = vfio_group_status_ty, lt_size = 8, lt_align = 4,
       lt_offsets = [(''argsz'', 0), (''flags'', 4)]\<rparr>"

definition bindgen_test_layout_vfio_device_info :: layout_test where
  [layout_simps]: "bindgen_test_layout_vfio_device_info =
     \<lparr>lt_type = vfio_device_info_ty, lt_size = 16, lt_align = 4,
       lt_offsets = [(''argsz'', 0), (''flags'', 4), (''num_regions'', 8), (''num_irqs'', 12)]\<rparr>"

definition bindgen_test_layout_vfio_region_info :: layout_test where
  [layout_simps]: "bindgen_test_layout_vfio_region_info =
     \<lparr>lt_type = vfio_region_info_ty, lt_size = 32, lt_align = 8,
       lt_offsets = [(''argsz'', 0), (''flags'', 4), (''index'', 8), (''cap_offset'', 12), (''size'', 16), (''offset'', 24)]\<rparr>"

definition bindgen_test_layout_vfio_region_sparse_mmap_area :: layout_test where
  [layout_simps]: "bindgen_test_layout_vfio_region_sparse_mmap_area =
     \<lparr>lt_type = vfio_region_sparse_mmap_area_ty, lt_size = 16, lt_align = 8,
       lt_offsets = [(''offset'', 0), (''size'', 8)]\<rparr>"

definition bindgen_test_layout_vfio_region_info_cap_sparse_mmap :: layout_test where
  [layout_simps]: "bindgen_test_layout_vfio_region_info_cap_sparse_mmap =
     \<lparr>lt_type = vfio_region_info_cap_sparse_mmap_ty, lt_size = 16, lt_align = 8,
       lt_offsets = []\<rparr>"

definition bindgen_test_layout_vfio_region_info_cap_type :: layout_test where
  [layout_simps]: "bindgen_test_layout_vfio_region_info_cap_type =
     \<lparr>lt_type = vfio_region_info_cap_type_ty, lt_size = 16, lt_align = 4,
       lt_offsets = [(''header'', 0), (''type_'', 8), (''subtype'', 12)]\<rparr>"

definition bindgen_test_layout_vfio_region_gfx_edid :: layout_test where
  [layout_simps]: "bindgen_test_layout_vfio_region_gfx_edid =
     \<lparr>lt_type = vfio_region_gfx_edid_ty, lt_size = 24, lt_align = 4,
       lt_offsets = [(''edid_offset'', 0), (''edid_max_size'', 4), (''edid_size'', 8), (''max_xres'', 12), (''max_yres'', 16), (''link_state'', 20)]\<rparr>"

definition bindgen_test_layout_vfio_region_info_cap_nvlink2_ssatgt :: layout_test where
  [layout_simps]: "bindgen_test_layout_vfio_region_info_cap_nvlink2_ssatgt =
     \<lparr>lt_type = vfio_region_info_cap_nvlink2_ssatgt_ty, lt_size = 16, lt_align = 8,
       lt_offsets = [(''tgt'', 8)]\<rparr>"

definition bindgen_test_layout_vfio_region_info_cap_nvlink2_lnkspd :: layout_test where
  [layout_simps]: "bindgen_test_layout_vfio_region_info_cap_nvlink2_lnkspd =
     \<lparr>lt_type = vfio_region_info_cap_nvlink2_lnkspd_ty, lt_size = 16, lt_align = 4,
       lt_offsets = []\<rparr>"

definition bindgen_test_layout_vfio_irq_info :: layout_test where
  [layout_simps]: "bindgen_test_layout_vfio_irq_info =
     \<lparr>lt_type = vfio_irq_info_ty, lt_size = 16, lt_align = 4,
       lt_offsets = [(''argsz'', 0), (''flags'', 4), (''index'', 8), (''count'', 12)]\<rparr>"

definition bindgen_test_layout_vfio_irq_set :: layout_test where
  [layout_simps]: "bindgen_test_layout_vfio_irq_set =
     \<lparr>lt_type = vfio_irq_set_ty, lt_size = 20, lt_align = 4,
       lt_offsets = []\<rparr>"

definition bindgen_test_layout_vfio_pci_dependent_device :: layout_test where
  [layout_simps]: "bindgen_test_layout_vfio_pci_dependent_device =
     \<lparr>lt_type = vfio_pci_dependent_device_ty, lt_size = 8, lt_align = 4,
       lt_offsets = [(''group_id'', 0), (''segment'', 4), (''bus'', 6), (''devfn'', 7)]\<rparr>"

definition bindgen_test_layout_vfio_pci_hot_reset_info :: layout_test where
  [layout_simps]: "bindgen_test_layout_vfio_pci_hot_reset_info =
     \<lparr>lt_type = vfio_pci_hot_reset_info_ty, lt_size = 12, lt_align = 4,
       lt_offsets = []\<rparr>"

definition bindgen_test_layout_vfio_pci_hot_reset :: layout_test where
  [layout_simps]: "bindgen_test_layout_vfio_pci_hot_reset =
     \<lparr>lt_type = vfio_pci_hot_reset_ty, lt_size = 12, lt_align = 4,
       lt_offsets = []\<rparr>"

definition bindgen_test_layout_vfio_device_gfx_plane_info_anon :: layout_test where
  [layout_simps]: "bindgen_test_layout_vfio_device_gfx_plane_info_anon =
     \<lparr>lt_type = vfio_device_gfx_plane_info_anon_ty, lt_size = 4, lt_align = 4,
       lt_offsets = []\<rparr>"

definition bindgen_test_layout_vfio_device_gfx_plane_info :: layout_test where
  [layout_simps]: "bindgen_test_layout_vfio_device_gfx_plane_info =
     \<lparr>lt_type = vfio_device_gfx_plane_info_ty, lt_size = 64, lt_align = 8,
       lt_offsets = [(''argsz'', 0), (''flags'', 4), (''drm_format'', 12), (''width'', 24), (''height'', 28), (''stride'', 32), (''size'', 36), (''x_pos'', 40), (''y_pos'', 44), (''x_hot'', 48), (''y_hot'', 52)]\<rparr>"

definition bindgen_test_layout_vfio_device_ioeventfd :: layout_test where
  [layout_simps]: "bindgen_test_layout_vfio_device_ioeventfd =
     \<lparr>lt_type = vfio_device_ioeventfd_ty, lt_size = 32, lt_align = 8,
       lt_offsets = [(''argsz'', 0), (''flags'', 4), (''offset'', 8), (''data'', 16), (''fd'', 24)]\<rparr>"

definition bindgen_test_layout_vfio_iommu_type1_info :: layout_test where
  [layout_simps]: "bindgen_test_layout_vfio_iommu_type1_info =
     \<lparr>lt_type = vfio_iommu_type1_info_ty, lt_size = 16, lt_align = 8,
       lt_offsets = [(''argsz'', 0), (''flags'', 4), (''iova_pgsizes'', 8)]\<rparr>"

definition bindgen_test_layout_vfio_iommu_type1_dma_map :: layout_test where
  [layout_simps]: "bindgen_test_layout_vfio_iommu_type1_dma_map =
     \<lparr>lt_type = vfio_iommu_type1_dma_map_ty, lt_size = 32, lt_align = 8,
       lt_offsets = [(''argsz'', 0), (''flags'', 4), (''vaddr'', 8), (''iova'', 16), (''size'', 24)]\<rparr>"

definition bindgen_test_layout_vfio_iommu_type1_dma_unmap :: layout_test where
  [layout_simps]: "bindgen_test_layout_vfio_iommu_type1_dma_unmap =
     \<lparr>lt_type = vfio_iommu_type1_dma_unmap_ty, lt_size = 24, lt_align = 8,
       lt_offsets = [(''argsz'', 0), (''flags'', 4), (''iova'', 8), (''size'', 16)]\<rparr>"

definition bindgen_test_layout_vfio_iommu_spapr_tce_ddw_info :: layout_test where
  [layout_simps]: "bindgen_test_layout_vfio_iommu_spapr_tce_ddw_info =
     \<lparr>lt_type = vfio_iommu_spapr_tce_ddw_info_ty, lt_size = 16, lt_align = 8,
       lt_offsets = [(''pgsizes'', 0), (''levels'', 12)]\<rparr>"

definition bindgen_test_layout_vfio_iommu_spapr_tce_info :: layout_test where
  [layout_simps]: "bindgen_test_layout_vfio_iommu_spapr_tce_info =
     \<lparr>lt_type = vfio_iommu_spapr_tce_info_ty, lt_size = 32, lt_align = 8,
       lt_offsets = [(''argsz'', 0), (''flags'', 4), (''ddw'', 16)]\<rparr>"

definition bindgen_test_layout_vfio_eeh_pe_err :: layout_test where
  [layout_simps]: "bindgen_test_layout_vfio_eeh_pe_err =
     \<lparr>lt_type = vfio_eeh_pe_err_ty, lt_size = 24, lt_align = 8,
       lt_offsets = [(''type_'', 0), (''func'', 4), (''addr'', 8), (''mask'', 16)]\<rparr>"

definition bindgen_test_layout_vfio_eeh_pe_op_anon :: layout_test where
  [layout_simps]: "bindgen_test_layout_vfio_eeh_pe_op_anon =
     \<lparr>lt_type = vfio_eeh_pe_op_anon_ty, lt_size = 24, lt_align = 8,
       lt_offsets = [(''err'', 0)]\<rparr>"

definition bindgen_test_layout_vfio_eeh_pe_op :: layout_test where
  [layout_simps]: "bindgen_test_layout_vfio_eeh_pe_op =
     \<lparr>lt_type = vfio_eeh_pe_op_ty, lt_size = 40, lt_align = 8,
       lt_offsets = [(''argsz'', 0), (''flags'', 4), (''op'', 8)]\<rparr>"

definition bindgen_test_layout_vfio_iommu_spapr_register_memory :: layout_test where
  [layout_simps]: "bindgen_test_layout_vfio_iommu_spapr_register_memory =
     \<lparr>lt_type = vfio_iommu_spapr_register_memory_ty, lt_size = 24, lt_align = 8,
       lt_offsets = [(''argsz'', 0), (''flags'', 4), (''vaddr'', 8), (''size'', 16)]\<rparr>"

definition bindgen_test_layout_vfio_iommu_spapr_tce_create :: layout_test where
  [layout_simps]: "bindgen_test_layout_vfio_iommu_spapr_tce_create =
     \<lparr>lt_type = vfio_iommu_spapr_tce_create_ty, lt_size = 40, lt_align = 8,
       lt_offsets = [(''argsz'', 0), (''flags'', 4), (''page_shift'', 8), (''__resv1'', 12), (''window_size'', 16), (''levels'', 24), (''__resv2'', 28), (''start_addr'', 32)]\<rparr>"

definition bindgen_test_layout_vfio_iommu_spapr_tce_remove :: layout_test where
  [layout_simps]: "bindgen_test_layout_vfio_iommu_spapr_tce_remove =
     \<lparr>lt_type = vfio_iommu_spapr_tce_remove_ty, lt_size = 16, lt_align = 8,
       lt_offsets = [(''argsz'', 0), (''flags'', 4), (''start_addr'', 8)]\<rparr>"
section \<open>All of them\<close>

definition bindings_types :: "ctype list" where
  "bindings_types =
     [kernel_fd_set_ty,
      kernel_fsid_t_ty,
      vfio_info_cap_header_ty,
      vfio_group_status_ty,
      vfio_device_info_ty,
      vfio_region_info_ty,
      vfio_region_sparse_mmap_area_ty,
      vfio_region_info_cap_sparse_mmap_ty,
      vfio_region_info_cap_type_ty,
      vfio_region_gfx_edid_ty,
      vfio_region_info_cap_nvlink2_ssatgt_ty,
      vfio_region_info_cap_nvlink2_lnkspd_ty,
      vfio_irq_info_ty,
      vfio_irq_set_ty,
      vfio_pci_dependent_device_ty,
      vfio_pci_hot_reset_info_ty,
      vfio_pci_hot_reset_ty,
      vfio_device_gfx_plane_info_anon_ty,
      vfio_device_gfx_plane_info_ty,
      vfio_device_ioeventfd_ty,
      vfio_iommu_type1_info_ty,
      vfio_iommu_type1_dma_map_ty,
      vfio_iommu_type1_dma_unmap_ty,
      vfio_iommu_spapr_tce_ddw_info_ty,
      vfio_iommu_spapr_tce_info_ty,
      vfio_eeh_pe_err_ty,
      vfio_eeh_pe_op_anon_ty,
      vfio_eeh_pe_op_ty,
      vfio_iommu_spapr_register_memory_ty,
      vfio_iommu_spapr_tce_create_ty,
      vfio_iommu_spapr_tce_remove_ty]"

definition bindgen_tests :: "layout_test list" where
  "bindgen_tests =
     [bindgen_test_layout_kernel_fd_set,
      bindgen_test_layout_kernel_fsid_t,
      bindgen_test_layout_vfio_info_cap_header,
      bindgen_test_layout_vfio_group_status,
      bindgen_test_layout_vfio_device_info,
      bindgen_test_layout_vfio_region_info,
      bindgen_test_layout_vfio_region_sparse_mmap_area,
      bindgen_test_layout_vfio_region_info_cap_sparse_mmap,
      bindgen_test_layout_vfio_region_info_cap_type,
      bindgen_test_layout_vfio_region_gfx_edid,
      bindgen_test_layout_vfio_region_info_cap_nvlink2_ssatgt,
      bindgen_test_layout_vfio_region_info_cap_nvlink2_lnkspd,
      bindgen_test_layout_vfio_irq_info,
      bindgen_test_layout_vfio_irq_set,
      bindgen_test_layout_vfio_pci_dependent_device,
      bindgen_test_layout_vfio_pci_hot_reset_info,
      bindgen_test_layout_vfio_pci_hot_reset,
      bindgen_test_layout_vfio_device_gfx_plane_info_anon,
      bindgen_test_layout_vfio_device_gfx_plane_info,
      bindgen_test_layout_vfio_device_ioeventfd,
      bindgen_test_layout_vfio_iommu_type1_info,
      bindgen_test_layout_vfio_iommu_type1_dma_map,
      bindgen_test_layout_vfio_iommu_type1_dma_unmap,
      bindgen_test_layout_vfio_iommu_spapr_tce_ddw_info,
      bindgen_test_layout_vfio_iommu_spapr_tce_info,
      bindgen_test_layout_vfio_eeh_pe_err,
      bindgen_test_layout_vfio_eeh_pe_op_anon,
      bindgen_test_layout_vfio_eeh_pe_op,
      bindgen_test_layout_vfio_iommu_spapr_register_memory,
      bindgen_test_layout_vfio_iommu_spapr_tce_create,
      bindgen_test_layout_vfio_iommu_spapr_tce_remove]"

definition layout_test_passes :: "layout_test \<Rightarrow> bool" where
  "layout_test_passes t \<longleftrightarrow>
     size_of (lt_type t) = lt_size t \<and> align_of (lt_type t) = lt_align t \<and>
     list_all (\<lambda>(n, k). offset_of (lt_type t) n = Some k) (lt_offsets t)"

text \<open>
  The layout tests of the bindings hold: every size, alignment and field offset they assert is the one the \<open>repr(C)\<close> algorithm computes from the declaration.
\<close>

lemma bindgen_tests_pass: "list_all layout_test_passes bindgen_tests"
  by code_simp

lemma bindings_types_prims_ok: "list_all prims_ok bindings_types"
  by code_simp

text \<open>
  In every structure the bindings declare, each field is aligned for its type, fields do not
  overlap and lie inside the structure, and the size is a multiple of the alignment, so elements
  of a \<open>Vec\<close> of the structure are aligned as well.
\<close>

lemma bindings_fields_well_placed:
  assumes "Struct fs \<in> set bindings_types" "i < length fs"
  shows "align_of (snd (fs ! i)) dvd snd (field_offsets (Struct fs) ! i) \<and>
    align_of (snd (fs ! i)) dvd align_of (Struct fs) \<and>
    align_of (Struct fs) dvd size_of (Struct fs) \<and>
    snd (field_offsets (Struct fs) ! i) + size_of (snd (fs ! i)) \<le> size_of (Struct fs) \<and>
    (\<forall>j. i < j \<and> j < length fs \<longrightarrow>
       snd (field_offsets (Struct fs) ! i) + size_of (snd (fs ! i)) \<le> snd (field_offsets (Struct fs) ! j))"
proof -
  have ok: "prims_ok (Struct fs)"
    using bindings_types_prims_ok assms(1) unfolding list_all_iff by blast
  show ?thesis
    using struct_field_aligned [OF ok assms(2)] struct_field_inside [OF ok assms(2)]
      struct_fields_disjoint [OF ok, of i] round_up_dvd
    by (simp only: size_of_Struct simp_thms) blast
qed

end
