(* ===== verification/Vfio_Bindings.thy ===== *)
theory Vfio_Bindings
  imports Bindings_Layout
begin

text \<open>
  The part of \<open>vfio-bindings\<close> the \<open>vfio-ioctls\<close> crate uses: the constants of the kernel interface,
  the structures it exchanges with the kernel as records, and their byte encodings. The locale
  \<open>codec\<close> is the contract between a structure and the bytes at its address; it is interpreted for
  every structure, and the layout lemmas tie the offsets the decoders use to the declarations.
  The flexible array member of \<open>vfio_irq_set\<close> is not a field of the record: it is the memory after
  the header.
\<close>

section \<open>Constants\<close>

definition VFIO_API_VERSION :: u32 where [const_defs]: "VFIO_API_VERSION = 0"
definition VFIO_TYPE1_IOMMU :: u32 where [const_defs]: "VFIO_TYPE1_IOMMU = 1"
definition VFIO_TYPE1v2_IOMMU :: u32 where [const_defs]: "VFIO_TYPE1v2_IOMMU = 3"
definition VFIO_TYPE :: u32 where [const_defs]: "VFIO_TYPE = 59"
definition VFIO_BASE :: u32 where [const_defs]: "VFIO_BASE = 100"
definition VFIO_GROUP_FLAGS_VIABLE :: u32 where [const_defs]: "VFIO_GROUP_FLAGS_VIABLE = 1"
definition VFIO_GROUP_FLAGS_CONTAINER_SET :: u32 where [const_defs]: "VFIO_GROUP_FLAGS_CONTAINER_SET = 2"
definition VFIO_DEVICE_FLAGS_RESET :: u32 where [const_defs]: "VFIO_DEVICE_FLAGS_RESET = 1"
definition VFIO_DEVICE_FLAGS_PCI :: u32 where [const_defs]: "VFIO_DEVICE_FLAGS_PCI = 2"
definition VFIO_REGION_INFO_FLAG_READ :: u32 where [const_defs]: "VFIO_REGION_INFO_FLAG_READ = 1"
definition VFIO_REGION_INFO_FLAG_WRITE :: u32 where [const_defs]: "VFIO_REGION_INFO_FLAG_WRITE = 2"
definition VFIO_REGION_INFO_FLAG_MMAP :: u32 where [const_defs]: "VFIO_REGION_INFO_FLAG_MMAP = 4"
definition VFIO_REGION_INFO_FLAG_CAPS :: u32 where [const_defs]: "VFIO_REGION_INFO_FLAG_CAPS = 8"
definition VFIO_REGION_INFO_CAP_SPARSE_MMAP :: u32 where [const_defs]: "VFIO_REGION_INFO_CAP_SPARSE_MMAP = 1"
definition VFIO_REGION_INFO_CAP_TYPE :: u32 where [const_defs]: "VFIO_REGION_INFO_CAP_TYPE = 2"
definition VFIO_REGION_INFO_CAP_MSIX_MAPPABLE :: u32 where [const_defs]: "VFIO_REGION_INFO_CAP_MSIX_MAPPABLE = 3"
definition VFIO_REGION_INFO_CAP_NVLINK2_SSATGT :: u32 where [const_defs]: "VFIO_REGION_INFO_CAP_NVLINK2_SSATGT = 4"
definition VFIO_REGION_INFO_CAP_NVLINK2_LNKSPD :: u32 where [const_defs]: "VFIO_REGION_INFO_CAP_NVLINK2_LNKSPD = 5"
definition VFIO_IRQ_INFO_EVENTFD :: u32 where [const_defs]: "VFIO_IRQ_INFO_EVENTFD = 1"
definition VFIO_IRQ_INFO_MASKABLE :: u32 where [const_defs]: "VFIO_IRQ_INFO_MASKABLE = 2"
definition VFIO_IRQ_SET_DATA_NONE :: u32 where [const_defs]: "VFIO_IRQ_SET_DATA_NONE = 1"
definition VFIO_IRQ_SET_DATA_BOOL :: u32 where [const_defs]: "VFIO_IRQ_SET_DATA_BOOL = 2"
definition VFIO_IRQ_SET_DATA_EVENTFD :: u32 where [const_defs]: "VFIO_IRQ_SET_DATA_EVENTFD = 4"
definition VFIO_IRQ_SET_ACTION_MASK :: u32 where [const_defs]: "VFIO_IRQ_SET_ACTION_MASK = 8"
definition VFIO_IRQ_SET_ACTION_UNMASK :: u32 where [const_defs]: "VFIO_IRQ_SET_ACTION_UNMASK = 16"
definition VFIO_IRQ_SET_ACTION_TRIGGER :: u32 where [const_defs]: "VFIO_IRQ_SET_ACTION_TRIGGER = 32"
definition VFIO_IRQ_SET_DATA_TYPE_MASK :: u32 where [const_defs]: "VFIO_IRQ_SET_DATA_TYPE_MASK = 7"
definition VFIO_IRQ_SET_ACTION_TYPE_MASK :: u32 where [const_defs]: "VFIO_IRQ_SET_ACTION_TYPE_MASK = 56"
definition VFIO_DMA_MAP_FLAG_READ :: u32 where [const_defs]: "VFIO_DMA_MAP_FLAG_READ = 1"
definition VFIO_DMA_MAP_FLAG_WRITE :: u32 where [const_defs]: "VFIO_DMA_MAP_FLAG_WRITE = 2"
definition VFIO_PCI_BAR0_REGION_INDEX :: u32 where [const_defs]: "VFIO_PCI_BAR0_REGION_INDEX = 0"
definition VFIO_PCI_ROM_REGION_INDEX :: u32 where [const_defs]: "VFIO_PCI_ROM_REGION_INDEX = 6"
definition VFIO_PCI_CONFIG_REGION_INDEX :: u32 where [const_defs]: "VFIO_PCI_CONFIG_REGION_INDEX = 7"
definition VFIO_PCI_VGA_REGION_INDEX :: u32 where [const_defs]: "VFIO_PCI_VGA_REGION_INDEX = 8"
definition VFIO_PCI_NUM_REGIONS :: u32 where [const_defs]: "VFIO_PCI_NUM_REGIONS = 9"
definition VFIO_PCI_INTX_IRQ_INDEX :: u32 where [const_defs]: "VFIO_PCI_INTX_IRQ_INDEX = 0"
definition VFIO_PCI_MSI_IRQ_INDEX :: u32 where [const_defs]: "VFIO_PCI_MSI_IRQ_INDEX = 1"
definition VFIO_PCI_MSIX_IRQ_INDEX :: u32 where [const_defs]: "VFIO_PCI_MSIX_IRQ_INDEX = 2"
definition VFIO_PCI_NUM_IRQS :: u32 where [const_defs]: "VFIO_PCI_NUM_IRQS = 5"

section \<open>Structures\<close>

record vfio_info_cap_header =
  ch_id :: u16
  ch_version :: u16
  ch_next :: u32

record vfio_group_status =
  gs_argsz :: u32
  gs_flags :: u32

record vfio_device_info =
  di_argsz :: u32
  di_flags :: u32
  di_num_regions :: u32
  di_num_irqs :: u32

record vfio_region_info =
  ri_argsz :: u32
  ri_flags :: u32
  ri_index :: u32
  ri_cap_offset :: u32
  ri_size :: u64
  ri_offset :: u64

record vfio_region_sparse_mmap_area =
  sa_offset :: u64
  sa_size :: u64

record vfio_irq_info =
  ii_argsz :: u32
  ii_flags :: u32
  ii_index :: u32
  ii_count :: u32

record vfio_irq_set =
  is_argsz :: u32
  is_flags :: u32
  is_index :: u32
  is_start :: u32
  is_count :: u32

record vfio_iommu_type1_dma_map =
  dm_argsz :: u32
  dm_flags :: u32
  dm_vaddr :: u64
  dm_iova :: u64
  dm_size :: u64

record vfio_iommu_type1_dma_unmap =
  du_argsz :: u32
  du_flags :: u32
  du_iova :: u64
  du_size :: u64

section \<open>The codec interface\<close>

text \<open>
  \<open>enc\<close> is the memory image of a value, \<open>dec\<close> reads a value from the front of a memory object.
\<close>

locale codec =
  fixes enc :: "'a \<Rightarrow> u8 list"
    and dec :: "u8 list \<Rightarrow> 'a option"
    and width :: nat
  assumes length_enc: "length (enc x) = width"
    and dec_enc: "dec (enc x @ rest) = Some x"
    and dec_short: "length bs < width \<Longrightarrow> dec bs = None"
    and dec_long: "width \<le> length bs \<Longrightarrow> \<exists>x. dec bs = Some x"
begin

lemma dec_enc_exact: "dec (enc x) = Some x"
  using dec_enc [of x "[]"] by simp

lemma enc_inject: "enc x = enc y \<longleftrightarrow> x = y"
  using dec_enc_exact by (metis option.inject)

lemma dec_Some_iff: "(\<exists>x. dec bs = Some x) \<longleftrightarrow> width \<le> length bs"
  using dec_short [of bs] dec_long [of bs] by (cases "length bs < width") auto

lemma dec_after_write:
  assumes "off + width \<le> length bs"
  shows "dec (drop off (write_bytes off (enc x) bs)) = Some x"
  using assms by (simp add: write_bytes_def length_enc dec_enc)

end

text \<open>
  \<open>__IncompleteArrayField::as_slice\<close>: \<open>n\<close> elements of \<open>w\<close> bytes starting at the front of a memory
  object. The sources take the length on trust; \<^term>\<open>None\<close> is an element outside the object.
\<close>

fun as_slice :: "(u8 list \<Rightarrow> 'a option) \<Rightarrow> nat \<Rightarrow> nat \<Rightarrow> u8 list \<Rightarrow> 'a list option" where
  "as_slice dec w 0 bs = Some []"
| "as_slice dec w (Suc n) bs =
     (case dec bs of None \<Rightarrow> None
      | Some x \<Rightarrow> (case as_slice dec w n (drop w bs) of None \<Rightarrow> None | Some xs \<Rightarrow> Some (x # xs)))"

context codec
begin

lemma as_slice_enc: "as_slice dec width (length xs) (concat (map enc xs) @ rest) = Some xs"
  by (induction xs) (simp_all add: dec_enc length_enc)

lemma as_slice_Some_iff: "(\<exists>xs. as_slice dec width n bs = Some xs) \<longleftrightarrow> n * width \<le> length bs"
proof (induction n arbitrary: bs)
  case (Suc n)
  show ?case
  proof (cases "width \<le> length bs")
    case True
    with dec_long obtain x where "dec bs = Some x" by blast
    then show ?thesis using Suc.IH [of "drop width bs"] True by (auto split: option.splits)
  next
    case False
    then show ?thesis by (simp add: dec_short)
  qed
qed simp

lemma length_as_slice: "as_slice dec width n bs = Some xs \<Longrightarrow> length xs = n"
  by (induction n arbitrary: bs xs) (auto split: option.splits)

end

section \<open>Encodings\<close>

definition enc_vfio_info_cap_header :: "vfio_info_cap_header \<Rightarrow> u8 list" where
  [codec_defs]: "enc_vfio_info_cap_header x =
     le_bytes 2 (unat (ch_id x)) @
     le_bytes 2 (unat (ch_version x)) @
     le_bytes 4 (unat (ch_next x))"

definition dec_vfio_info_cap_header :: "u8 list \<Rightarrow> vfio_info_cap_header option" where
  [codec_defs]: "dec_vfio_info_cap_header bs = (
     case read_u16 0 bs of None \<Rightarrow> None | Some id' \<Rightarrow>
     case read_u16 2 bs of None \<Rightarrow> None | Some version' \<Rightarrow>
     case read_u32 4 bs of None \<Rightarrow> None | Some next' \<Rightarrow>
     Some \<lparr>ch_id = id', ch_version = version', ch_next = next'\<rparr>)"

definition enc_vfio_group_status :: "vfio_group_status \<Rightarrow> u8 list" where
  [codec_defs]: "enc_vfio_group_status x =
     le_bytes 4 (unat (gs_argsz x)) @
     le_bytes 4 (unat (gs_flags x))"

definition dec_vfio_group_status :: "u8 list \<Rightarrow> vfio_group_status option" where
  [codec_defs]: "dec_vfio_group_status bs = (
     case read_u32 0 bs of None \<Rightarrow> None | Some argsz' \<Rightarrow>
     case read_u32 4 bs of None \<Rightarrow> None | Some flags' \<Rightarrow>
     Some \<lparr>gs_argsz = argsz', gs_flags = flags'\<rparr>)"

definition enc_vfio_device_info :: "vfio_device_info \<Rightarrow> u8 list" where
  [codec_defs]: "enc_vfio_device_info x =
     le_bytes 4 (unat (di_argsz x)) @
     le_bytes 4 (unat (di_flags x)) @
     le_bytes 4 (unat (di_num_regions x)) @
     le_bytes 4 (unat (di_num_irqs x))"

definition dec_vfio_device_info :: "u8 list \<Rightarrow> vfio_device_info option" where
  [codec_defs]: "dec_vfio_device_info bs = (
     case read_u32 0 bs of None \<Rightarrow> None | Some argsz' \<Rightarrow>
     case read_u32 4 bs of None \<Rightarrow> None | Some flags' \<Rightarrow>
     case read_u32 8 bs of None \<Rightarrow> None | Some num_regions' \<Rightarrow>
     case read_u32 12 bs of None \<Rightarrow> None | Some num_irqs' \<Rightarrow>
     Some \<lparr>di_argsz = argsz', di_flags = flags', di_num_regions = num_regions', di_num_irqs = num_irqs'\<rparr>)"

definition enc_vfio_region_info :: "vfio_region_info \<Rightarrow> u8 list" where
  [codec_defs]: "enc_vfio_region_info x =
     le_bytes 4 (unat (ri_argsz x)) @
     le_bytes 4 (unat (ri_flags x)) @
     le_bytes 4 (unat (ri_index x)) @
     le_bytes 4 (unat (ri_cap_offset x)) @
     le_bytes 8 (unat (ri_size x)) @
     le_bytes 8 (unat (ri_offset x))"

definition dec_vfio_region_info :: "u8 list \<Rightarrow> vfio_region_info option" where
  [codec_defs]: "dec_vfio_region_info bs = (
     case read_u32 0 bs of None \<Rightarrow> None | Some argsz' \<Rightarrow>
     case read_u32 4 bs of None \<Rightarrow> None | Some flags' \<Rightarrow>
     case read_u32 8 bs of None \<Rightarrow> None | Some index' \<Rightarrow>
     case read_u32 12 bs of None \<Rightarrow> None | Some cap_offset' \<Rightarrow>
     case read_u64 16 bs of None \<Rightarrow> None | Some size' \<Rightarrow>
     case read_u64 24 bs of None \<Rightarrow> None | Some offset' \<Rightarrow>
     Some \<lparr>ri_argsz = argsz', ri_flags = flags', ri_index = index', ri_cap_offset = cap_offset', ri_size = size', ri_offset = offset'\<rparr>)"

definition enc_vfio_region_sparse_mmap_area :: "vfio_region_sparse_mmap_area \<Rightarrow> u8 list" where
  [codec_defs]: "enc_vfio_region_sparse_mmap_area x =
     le_bytes 8 (unat (sa_offset x)) @
     le_bytes 8 (unat (sa_size x))"

definition dec_vfio_region_sparse_mmap_area :: "u8 list \<Rightarrow> vfio_region_sparse_mmap_area option" where
  [codec_defs]: "dec_vfio_region_sparse_mmap_area bs = (
     case read_u64 0 bs of None \<Rightarrow> None | Some offset' \<Rightarrow>
     case read_u64 8 bs of None \<Rightarrow> None | Some size' \<Rightarrow>
     Some \<lparr>sa_offset = offset', sa_size = size'\<rparr>)"

definition enc_vfio_irq_info :: "vfio_irq_info \<Rightarrow> u8 list" where
  [codec_defs]: "enc_vfio_irq_info x =
     le_bytes 4 (unat (ii_argsz x)) @
     le_bytes 4 (unat (ii_flags x)) @
     le_bytes 4 (unat (ii_index x)) @
     le_bytes 4 (unat (ii_count x))"

definition dec_vfio_irq_info :: "u8 list \<Rightarrow> vfio_irq_info option" where
  [codec_defs]: "dec_vfio_irq_info bs = (
     case read_u32 0 bs of None \<Rightarrow> None | Some argsz' \<Rightarrow>
     case read_u32 4 bs of None \<Rightarrow> None | Some flags' \<Rightarrow>
     case read_u32 8 bs of None \<Rightarrow> None | Some index' \<Rightarrow>
     case read_u32 12 bs of None \<Rightarrow> None | Some count' \<Rightarrow>
     Some \<lparr>ii_argsz = argsz', ii_flags = flags', ii_index = index', ii_count = count'\<rparr>)"

definition enc_vfio_irq_set :: "vfio_irq_set \<Rightarrow> u8 list" where
  [codec_defs]: "enc_vfio_irq_set x =
     le_bytes 4 (unat (is_argsz x)) @
     le_bytes 4 (unat (is_flags x)) @
     le_bytes 4 (unat (is_index x)) @
     le_bytes 4 (unat (is_start x)) @
     le_bytes 4 (unat (is_count x))"

definition dec_vfio_irq_set :: "u8 list \<Rightarrow> vfio_irq_set option" where
  [codec_defs]: "dec_vfio_irq_set bs = (
     case read_u32 0 bs of None \<Rightarrow> None | Some argsz' \<Rightarrow>
     case read_u32 4 bs of None \<Rightarrow> None | Some flags' \<Rightarrow>
     case read_u32 8 bs of None \<Rightarrow> None | Some index' \<Rightarrow>
     case read_u32 12 bs of None \<Rightarrow> None | Some start' \<Rightarrow>
     case read_u32 16 bs of None \<Rightarrow> None | Some count' \<Rightarrow>
     Some \<lparr>is_argsz = argsz', is_flags = flags', is_index = index', is_start = start', is_count = count'\<rparr>)"

definition enc_vfio_iommu_type1_dma_map :: "vfio_iommu_type1_dma_map \<Rightarrow> u8 list" where
  [codec_defs]: "enc_vfio_iommu_type1_dma_map x =
     le_bytes 4 (unat (dm_argsz x)) @
     le_bytes 4 (unat (dm_flags x)) @
     le_bytes 8 (unat (dm_vaddr x)) @
     le_bytes 8 (unat (dm_iova x)) @
     le_bytes 8 (unat (dm_size x))"

definition dec_vfio_iommu_type1_dma_map :: "u8 list \<Rightarrow> vfio_iommu_type1_dma_map option" where
  [codec_defs]: "dec_vfio_iommu_type1_dma_map bs = (
     case read_u32 0 bs of None \<Rightarrow> None | Some argsz' \<Rightarrow>
     case read_u32 4 bs of None \<Rightarrow> None | Some flags' \<Rightarrow>
     case read_u64 8 bs of None \<Rightarrow> None | Some vaddr' \<Rightarrow>
     case read_u64 16 bs of None \<Rightarrow> None | Some iova' \<Rightarrow>
     case read_u64 24 bs of None \<Rightarrow> None | Some size' \<Rightarrow>
     Some \<lparr>dm_argsz = argsz', dm_flags = flags', dm_vaddr = vaddr', dm_iova = iova', dm_size = size'\<rparr>)"

definition enc_vfio_iommu_type1_dma_unmap :: "vfio_iommu_type1_dma_unmap \<Rightarrow> u8 list" where
  [codec_defs]: "enc_vfio_iommu_type1_dma_unmap x =
     le_bytes 4 (unat (du_argsz x)) @
     le_bytes 4 (unat (du_flags x)) @
     le_bytes 8 (unat (du_iova x)) @
     le_bytes 8 (unat (du_size x))"

definition dec_vfio_iommu_type1_dma_unmap :: "u8 list \<Rightarrow> vfio_iommu_type1_dma_unmap option" where
  [codec_defs]: "dec_vfio_iommu_type1_dma_unmap bs = (
     case read_u32 0 bs of None \<Rightarrow> None | Some argsz' \<Rightarrow>
     case read_u32 4 bs of None \<Rightarrow> None | Some flags' \<Rightarrow>
     case read_u64 8 bs of None \<Rightarrow> None | Some iova' \<Rightarrow>
     case read_u64 16 bs of None \<Rightarrow> None | Some size' \<Rightarrow>
     Some \<lparr>du_argsz = argsz', du_flags = flags', du_iova = iova', du_size = size'\<rparr>)"

interpretation ch_codec: codec enc_vfio_info_cap_header dec_vfio_info_cap_header 8
  by unfold_locales (auto simp: codec_defs read_None_iff read_long split: option.splits)

interpretation gs_codec: codec enc_vfio_group_status dec_vfio_group_status 8
  by unfold_locales (auto simp: codec_defs read_None_iff read_long split: option.splits)

interpretation di_codec: codec enc_vfio_device_info dec_vfio_device_info 16
  by unfold_locales (auto simp: codec_defs read_None_iff read_long split: option.splits)

interpretation ri_codec: codec enc_vfio_region_info dec_vfio_region_info 32
  by unfold_locales (auto simp: codec_defs read_None_iff read_long split: option.splits)

interpretation sa_codec: codec enc_vfio_region_sparse_mmap_area dec_vfio_region_sparse_mmap_area 16
  by unfold_locales (auto simp: codec_defs read_None_iff read_long split: option.splits)

interpretation ii_codec: codec enc_vfio_irq_info dec_vfio_irq_info 16
  by unfold_locales (auto simp: codec_defs read_None_iff read_long split: option.splits)

interpretation is_codec: codec enc_vfio_irq_set dec_vfio_irq_set 20
  by unfold_locales (auto simp: codec_defs read_None_iff read_long split: option.splits)

interpretation dm_codec: codec enc_vfio_iommu_type1_dma_map dec_vfio_iommu_type1_dma_map 32
  by unfold_locales (auto simp: codec_defs read_None_iff read_long split: option.splits)

interpretation du_codec: codec enc_vfio_iommu_type1_dma_unmap dec_vfio_iommu_type1_dma_unmap 24
  by unfold_locales (auto simp: codec_defs read_None_iff read_long split: option.splits)

section \<open>The encodings follow the declared layouts\<close>














end
