(* ===== verification/Bindings_Constants.thy ===== *)
theory Bindings_Constants
  imports Vfio_Bindings
begin

text \<open>
  The constants of \<open>bindings_v5_0_0/vfio.rs\<close> that \<open>vfio-ioctls\<close> does not use, the \<open>Default\<close> values the bindings
  implement, and the consistency of the constants: fields of request codes do not overlap, flags that
  are combined are different bits, masks cover exactly their flags, and indexes number their tables.
  Leading underscores of names are dropped.
\<close>

section \<open>Constants\<close>

definition BITS_PER_LONG :: u32 where [const_defs]: "BITS_PER_LONG = 64"
definition FD_SETSIZE :: u32 where [const_defs]: "FD_SETSIZE = 1024"
definition IOC_NRBITS :: u32 where [const_defs]: "IOC_NRBITS = 8"
definition IOC_TYPEBITS :: u32 where [const_defs]: "IOC_TYPEBITS = 8"
definition IOC_SIZEBITS :: u32 where [const_defs]: "IOC_SIZEBITS = 14"
definition IOC_DIRBITS :: u32 where [const_defs]: "IOC_DIRBITS = 2"
definition IOC_NRMASK :: u32 where [const_defs]: "IOC_NRMASK = 255"
definition IOC_TYPEMASK :: u32 where [const_defs]: "IOC_TYPEMASK = 255"
definition IOC_SIZEMASK :: u32 where [const_defs]: "IOC_SIZEMASK = 16383"
definition IOC_DIRMASK :: u32 where [const_defs]: "IOC_DIRMASK = 3"
definition IOC_NRSHIFT :: u32 where [const_defs]: "IOC_NRSHIFT = 0"
definition IOC_TYPESHIFT :: u32 where [const_defs]: "IOC_TYPESHIFT = 8"
definition IOC_SIZESHIFT :: u32 where [const_defs]: "IOC_SIZESHIFT = 16"
definition IOC_DIRSHIFT :: u32 where [const_defs]: "IOC_DIRSHIFT = 30"
definition IOC_NONE :: u32 where [const_defs]: "IOC_NONE = 0"
definition IOC_WRITE :: u32 where [const_defs]: "IOC_WRITE = 1"
definition IOC_READ :: u32 where [const_defs]: "IOC_READ = 2"
definition IOC_IN :: u32 where [const_defs]: "IOC_IN = 1073741824"
definition IOC_OUT :: u32 where [const_defs]: "IOC_OUT = 2147483648"
definition IOC_INOUT :: u32 where [const_defs]: "IOC_INOUT = 3221225472"
definition IOCSIZE_MASK :: u32 where [const_defs]: "IOCSIZE_MASK = 1073676288"
definition IOCSIZE_SHIFT :: u32 where [const_defs]: "IOCSIZE_SHIFT = 16"
definition VFIO_SPAPR_TCE_IOMMU :: u32 where [const_defs]: "VFIO_SPAPR_TCE_IOMMU = 2"
definition VFIO_DMA_CC_IOMMU :: u32 where [const_defs]: "VFIO_DMA_CC_IOMMU = 4"
definition VFIO_EEH :: u32 where [const_defs]: "VFIO_EEH = 5"
definition VFIO_TYPE1_NESTING_IOMMU :: u32 where [const_defs]: "VFIO_TYPE1_NESTING_IOMMU = 6"
definition VFIO_SPAPR_TCE_v2_IOMMU :: u32 where [const_defs]: "VFIO_SPAPR_TCE_v2_IOMMU = 7"
definition VFIO_NOIOMMU_IOMMU :: u32 where [const_defs]: "VFIO_NOIOMMU_IOMMU = 8"
definition VFIO_DEVICE_FLAGS_PLATFORM :: u32 where [const_defs]: "VFIO_DEVICE_FLAGS_PLATFORM = 4"
definition VFIO_DEVICE_FLAGS_AMBA :: u32 where [const_defs]: "VFIO_DEVICE_FLAGS_AMBA = 8"
definition VFIO_DEVICE_FLAGS_CCW :: u32 where [const_defs]: "VFIO_DEVICE_FLAGS_CCW = 16"
definition VFIO_DEVICE_FLAGS_AP :: u32 where [const_defs]: "VFIO_DEVICE_FLAGS_AP = 32"
definition VFIO_DEVICE_API_PCI_STRING :: string where [const_defs]: "VFIO_DEVICE_API_PCI_STRING = ''vfio-pci'' @ [CHR 0x00]"
definition VFIO_DEVICE_API_PLATFORM_STRING :: string where [const_defs]: "VFIO_DEVICE_API_PLATFORM_STRING = ''vfio-platform'' @ [CHR 0x00]"
definition VFIO_DEVICE_API_AMBA_STRING :: string where [const_defs]: "VFIO_DEVICE_API_AMBA_STRING = ''vfio-amba'' @ [CHR 0x00]"
definition VFIO_DEVICE_API_CCW_STRING :: string where [const_defs]: "VFIO_DEVICE_API_CCW_STRING = ''vfio-ccw'' @ [CHR 0x00]"
definition VFIO_DEVICE_API_AP_STRING :: string where [const_defs]: "VFIO_DEVICE_API_AP_STRING = ''vfio-ap'' @ [CHR 0x00]"
definition VFIO_REGION_TYPE_PCI_VENDOR_TYPE :: u32 where [const_defs]: "VFIO_REGION_TYPE_PCI_VENDOR_TYPE = 2147483648"
definition VFIO_REGION_TYPE_PCI_VENDOR_MASK :: u32 where [const_defs]: "VFIO_REGION_TYPE_PCI_VENDOR_MASK = 65535"
definition VFIO_REGION_SUBTYPE_INTEL_IGD_OPREGION :: u32 where [const_defs]: "VFIO_REGION_SUBTYPE_INTEL_IGD_OPREGION = 1"
definition VFIO_REGION_SUBTYPE_INTEL_IGD_HOST_CFG :: u32 where [const_defs]: "VFIO_REGION_SUBTYPE_INTEL_IGD_HOST_CFG = 2"
definition VFIO_REGION_SUBTYPE_INTEL_IGD_LPC_CFG :: u32 where [const_defs]: "VFIO_REGION_SUBTYPE_INTEL_IGD_LPC_CFG = 3"
definition VFIO_REGION_TYPE_GFX :: u32 where [const_defs]: "VFIO_REGION_TYPE_GFX = 1"
definition VFIO_REGION_SUBTYPE_GFX_EDID :: u32 where [const_defs]: "VFIO_REGION_SUBTYPE_GFX_EDID = 1"
definition VFIO_DEVICE_GFX_LINK_STATE_UP :: u32 where [const_defs]: "VFIO_DEVICE_GFX_LINK_STATE_UP = 1"
definition VFIO_DEVICE_GFX_LINK_STATE_DOWN :: u32 where [const_defs]: "VFIO_DEVICE_GFX_LINK_STATE_DOWN = 2"
definition VFIO_REGION_SUBTYPE_NVIDIA_NVLINK2_RAM :: u32 where [const_defs]: "VFIO_REGION_SUBTYPE_NVIDIA_NVLINK2_RAM = 1"
definition VFIO_REGION_SUBTYPE_IBM_NVLINK2_ATSD :: u32 where [const_defs]: "VFIO_REGION_SUBTYPE_IBM_NVLINK2_ATSD = 1"
definition VFIO_IRQ_INFO_AUTOMASKED :: u32 where [const_defs]: "VFIO_IRQ_INFO_AUTOMASKED = 4"
definition VFIO_IRQ_INFO_NORESIZE :: u32 where [const_defs]: "VFIO_IRQ_INFO_NORESIZE = 8"
definition VFIO_GFX_PLANE_TYPE_PROBE :: u32 where [const_defs]: "VFIO_GFX_PLANE_TYPE_PROBE = 1"
definition VFIO_GFX_PLANE_TYPE_DMABUF :: u32 where [const_defs]: "VFIO_GFX_PLANE_TYPE_DMABUF = 2"
definition VFIO_GFX_PLANE_TYPE_REGION :: u32 where [const_defs]: "VFIO_GFX_PLANE_TYPE_REGION = 4"
definition VFIO_DEVICE_IOEVENTFD_8 :: u32 where [const_defs]: "VFIO_DEVICE_IOEVENTFD_8 = 1"
definition VFIO_DEVICE_IOEVENTFD_16 :: u32 where [const_defs]: "VFIO_DEVICE_IOEVENTFD_16 = 2"
definition VFIO_DEVICE_IOEVENTFD_32 :: u32 where [const_defs]: "VFIO_DEVICE_IOEVENTFD_32 = 4"
definition VFIO_DEVICE_IOEVENTFD_64 :: u32 where [const_defs]: "VFIO_DEVICE_IOEVENTFD_64 = 8"
definition VFIO_DEVICE_IOEVENTFD_SIZE_MASK :: u32 where [const_defs]: "VFIO_DEVICE_IOEVENTFD_SIZE_MASK = 15"
definition VFIO_IOMMU_INFO_PGSIZES :: u32 where [const_defs]: "VFIO_IOMMU_INFO_PGSIZES = 1"
definition VFIO_IOMMU_SPAPR_INFO_DDW :: u32 where [const_defs]: "VFIO_IOMMU_SPAPR_INFO_DDW = 1"
definition VFIO_EEH_PE_DISABLE :: u32 where [const_defs]: "VFIO_EEH_PE_DISABLE = 0"
definition VFIO_EEH_PE_ENABLE :: u32 where [const_defs]: "VFIO_EEH_PE_ENABLE = 1"
definition VFIO_EEH_PE_UNFREEZE_IO :: u32 where [const_defs]: "VFIO_EEH_PE_UNFREEZE_IO = 2"
definition VFIO_EEH_PE_UNFREEZE_DMA :: u32 where [const_defs]: "VFIO_EEH_PE_UNFREEZE_DMA = 3"
definition VFIO_EEH_PE_GET_STATE :: u32 where [const_defs]: "VFIO_EEH_PE_GET_STATE = 4"
definition VFIO_EEH_PE_STATE_NORMAL :: u32 where [const_defs]: "VFIO_EEH_PE_STATE_NORMAL = 0"
definition VFIO_EEH_PE_STATE_RESET :: u32 where [const_defs]: "VFIO_EEH_PE_STATE_RESET = 1"
definition VFIO_EEH_PE_STATE_STOPPED :: u32 where [const_defs]: "VFIO_EEH_PE_STATE_STOPPED = 2"
definition VFIO_EEH_PE_STATE_STOPPED_DMA :: u32 where [const_defs]: "VFIO_EEH_PE_STATE_STOPPED_DMA = 4"
definition VFIO_EEH_PE_STATE_UNAVAIL :: u32 where [const_defs]: "VFIO_EEH_PE_STATE_UNAVAIL = 5"
definition VFIO_EEH_PE_RESET_DEACTIVATE :: u32 where [const_defs]: "VFIO_EEH_PE_RESET_DEACTIVATE = 5"
definition VFIO_EEH_PE_RESET_HOT :: u32 where [const_defs]: "VFIO_EEH_PE_RESET_HOT = 6"
definition VFIO_EEH_PE_RESET_FUNDAMENTAL :: u32 where [const_defs]: "VFIO_EEH_PE_RESET_FUNDAMENTAL = 7"
definition VFIO_EEH_PE_CONFIGURE :: u32 where [const_defs]: "VFIO_EEH_PE_CONFIGURE = 8"
definition VFIO_EEH_PE_INJECT_ERR :: u32 where [const_defs]: "VFIO_EEH_PE_INJECT_ERR = 9"
definition VFIO_PCI_BAR1_REGION_INDEX :: u32 where [const_defs]: "VFIO_PCI_BAR1_REGION_INDEX = 1"
definition VFIO_PCI_BAR2_REGION_INDEX :: u32 where [const_defs]: "VFIO_PCI_BAR2_REGION_INDEX = 2"
definition VFIO_PCI_BAR3_REGION_INDEX :: u32 where [const_defs]: "VFIO_PCI_BAR3_REGION_INDEX = 3"
definition VFIO_PCI_BAR4_REGION_INDEX :: u32 where [const_defs]: "VFIO_PCI_BAR4_REGION_INDEX = 4"
definition VFIO_PCI_BAR5_REGION_INDEX :: u32 where [const_defs]: "VFIO_PCI_BAR5_REGION_INDEX = 5"
definition VFIO_PCI_ERR_IRQ_INDEX :: u32 where [const_defs]: "VFIO_PCI_ERR_IRQ_INDEX = 3"
definition VFIO_PCI_REQ_IRQ_INDEX :: u32 where [const_defs]: "VFIO_PCI_REQ_IRQ_INDEX = 4"
definition VFIO_CCW_CONFIG_REGION_INDEX :: u32 where [const_defs]: "VFIO_CCW_CONFIG_REGION_INDEX = 0"
definition VFIO_CCW_NUM_REGIONS :: u32 where [const_defs]: "VFIO_CCW_NUM_REGIONS = 1"
definition VFIO_CCW_IO_IRQ_INDEX :: u32 where [const_defs]: "VFIO_CCW_IO_IRQ_INDEX = 0"
definition VFIO_CCW_NUM_IRQS :: u32 where [const_defs]: "VFIO_CCW_NUM_IRQS = 1"

section \<open>Default values\<close>

text \<open>
  \<open>std::mem::zeroed\<close>, which the bindings use for the types with unions, and which the derived defaults of
  the other structures amount to (\<open>default_is_zeroed\<close> below).
\<close>

definition zeroed :: "ctype \<Rightarrow> u8 list" where
  "zeroed t = replicate (size_of t) 0"

definition default_vfio_device_gfx_plane_info_anon :: "u8 list" where
  "default_vfio_device_gfx_plane_info_anon = zeroed vfio_device_gfx_plane_info_anon_ty"

definition default_vfio_device_gfx_plane_info :: "u8 list" where
  "default_vfio_device_gfx_plane_info = zeroed vfio_device_gfx_plane_info_ty"

definition default_vfio_eeh_pe_op_anon :: "u8 list" where
  "default_vfio_eeh_pe_op_anon = zeroed vfio_eeh_pe_op_anon_ty"

definition default_vfio_eeh_pe_op :: "u8 list" where
  "default_vfio_eeh_pe_op = zeroed vfio_eeh_pe_op_ty"

text \<open>
  The structures in use have no padding: their memory is zero exactly when all their fields are. This is
  what \<open>vec_with_array_field\<close> relies on when it fills a vector with default values, and what the kernel
  reads in the fields the crate does not set.
\<close>

lemma default_is_zeroed:
  "enc_vfio_region_info x = zeroed vfio_region_info_ty \<longleftrightarrow>
     x = \<lparr>ri_argsz = 0, ri_flags = 0, ri_index = 0, ri_cap_offset = 0, ri_size = 0, ri_offset = 0\<rparr>"
  "enc_vfio_irq_set y = zeroed vfio_irq_set_ty \<longleftrightarrow>
     y = \<lparr>is_argsz = 0, is_flags = 0, is_index = 0, is_start = 0, is_count = 0\<rparr>"
  "enc_vfio_irq_info z = zeroed vfio_irq_info_ty \<longleftrightarrow>
     z = \<lparr>ii_argsz = 0, ii_flags = 0, ii_index = 0, ii_count = 0\<rparr>"
  "enc_vfio_device_info d = zeroed vfio_device_info_ty \<longleftrightarrow>
     d = \<lparr>di_argsz = 0, di_flags = 0, di_num_regions = 0, di_num_irqs = 0\<rparr>"
proof -
  have "enc_vfio_region_info \<lparr>ri_argsz = 0, ri_flags = 0, ri_index = 0, ri_cap_offset = 0, ri_size = 0, ri_offset = 0\<rparr> =
      zeroed vfio_region_info_ty" by code_simp
  then show "enc_vfio_region_info x = zeroed vfio_region_info_ty \<longleftrightarrow>
     x = \<lparr>ri_argsz = 0, ri_flags = 0, ri_index = 0, ri_cap_offset = 0, ri_size = 0, ri_offset = 0\<rparr>"
    using ri_codec.enc_inject by metis
  have "enc_vfio_irq_set \<lparr>is_argsz = 0, is_flags = 0, is_index = 0, is_start = 0, is_count = 0\<rparr> = zeroed vfio_irq_set_ty"
    by code_simp
  then show "enc_vfio_irq_set y = zeroed vfio_irq_set_ty \<longleftrightarrow>
     y = \<lparr>is_argsz = 0, is_flags = 0, is_index = 0, is_start = 0, is_count = 0\<rparr>"
    using is_codec.enc_inject by metis
  have "enc_vfio_irq_info \<lparr>ii_argsz = 0, ii_flags = 0, ii_index = 0, ii_count = 0\<rparr> = zeroed vfio_irq_info_ty"
    by code_simp
  then show "enc_vfio_irq_info z = zeroed vfio_irq_info_ty \<longleftrightarrow>
     z = \<lparr>ii_argsz = 0, ii_flags = 0, ii_index = 0, ii_count = 0\<rparr>"
    using ii_codec.enc_inject by metis
  have "enc_vfio_device_info \<lparr>di_argsz = 0, di_flags = 0, di_num_regions = 0, di_num_irqs = 0\<rparr> =
      zeroed vfio_device_info_ty" by code_simp
  then show "enc_vfio_device_info d = zeroed vfio_device_info_ty \<longleftrightarrow>
     d = \<lparr>di_argsz = 0, di_flags = 0, di_num_regions = 0, di_num_irqs = 0\<rparr>"
    using di_codec.enc_inject by metis
qed

section \<open>Consistency\<close>

text \<open>Different single bits, and a mask that covers exactly the given flags.\<close>

definition single_bit :: "u32 \<Rightarrow> bool" where
  "single_bit x \<longleftrightarrow> x \<noteq> 0 \<and> x AND (x - 1) = 0"

definition flags_ok :: "u32 list \<Rightarrow> bool" where
  "flags_ok fs \<longleftrightarrow> distinct fs \<and> list_all single_bit fs"

definition mask_of :: "u32 list \<Rightarrow> u32" where
  "mask_of fs = foldr (OR) fs 0"

definition numbers_from :: "u32 \<Rightarrow> u32 list \<Rightarrow> bool" where
  "numbers_from n xs \<longleftrightarrow> xs = map (\<lambda>i. n + word_of_nat i) [0 ..< length xs]"

text \<open>The fields of a request code, as the kernel macros lay them out: width, mask and shift.\<close>

definition ioc_fields :: "(u32 \<times> u32 \<times> u32) list" where
  "ioc_fields = [(IOC_NRBITS, IOC_NRMASK, IOC_NRSHIFT), (IOC_TYPEBITS, IOC_TYPEMASK, IOC_TYPESHIFT),
     (IOC_SIZEBITS, IOC_SIZEMASK, IOC_SIZESHIFT), (IOC_DIRBITS, IOC_DIRMASK, IOC_DIRSHIFT)]"

text \<open>Fields that follow each other without gaps from bit \<open>at\<close> to bit \<open>stop\<close>, each with the mask of its width.\<close>

fun tiled :: "u32 \<Rightarrow> u32 \<Rightarrow> (u32 \<times> u32 \<times> u32) list \<Rightarrow> bool" where
  "tiled at stop [] \<longleftrightarrow> at = stop"
| "tiled at stop ((bits, msk, shift) # fs) \<longleftrightarrow>
     shift = at \<and> msk = mask (unat bits) \<and> tiled (at + bits) stop fs"

text \<open>
  The constants of the bindings are consistent. The four fields of a request code tile 32 bits, and
  the direction constants are the two bits of its last field; every set of flags that is combined in
  one word consists of different single bits; the two type masks of interrupt requests are the disjoint
  unions of the flags they select; and the region and interrupt indexes of a PCI device number its
  regions and interrupts from 0 up to their count.
\<close>

lemma bindings_constants_consistent:
  "tiled 0 32 ioc_fields \<and>
   IOC_IN = push_bit (unat IOC_DIRSHIFT) IOC_WRITE \<and> IOC_OUT = push_bit (unat IOC_DIRSHIFT) IOC_READ \<and>
   IOC_INOUT = IOC_IN OR IOC_OUT \<and> IOCSIZE_MASK = push_bit (unat IOCSIZE_SHIFT) IOC_SIZEMASK \<and>
   flags_ok [VFIO_GROUP_FLAGS_VIABLE, VFIO_GROUP_FLAGS_CONTAINER_SET] \<and>
   flags_ok [VFIO_DEVICE_FLAGS_RESET, VFIO_DEVICE_FLAGS_PCI, VFIO_DEVICE_FLAGS_PLATFORM, VFIO_DEVICE_FLAGS_AMBA,
     VFIO_DEVICE_FLAGS_CCW, VFIO_DEVICE_FLAGS_AP] \<and>
   flags_ok [VFIO_REGION_INFO_FLAG_READ, VFIO_REGION_INFO_FLAG_WRITE, VFIO_REGION_INFO_FLAG_MMAP,
     VFIO_REGION_INFO_FLAG_CAPS] \<and>
   flags_ok [VFIO_IRQ_INFO_EVENTFD, VFIO_IRQ_INFO_MASKABLE, VFIO_IRQ_INFO_AUTOMASKED, VFIO_IRQ_INFO_NORESIZE] \<and>
   flags_ok [VFIO_IRQ_SET_DATA_NONE, VFIO_IRQ_SET_DATA_BOOL, VFIO_IRQ_SET_DATA_EVENTFD, VFIO_IRQ_SET_ACTION_MASK,
     VFIO_IRQ_SET_ACTION_UNMASK, VFIO_IRQ_SET_ACTION_TRIGGER] \<and>
   VFIO_IRQ_SET_DATA_TYPE_MASK =
     mask_of [VFIO_IRQ_SET_DATA_NONE, VFIO_IRQ_SET_DATA_BOOL, VFIO_IRQ_SET_DATA_EVENTFD] \<and>
   VFIO_IRQ_SET_ACTION_TYPE_MASK =
     mask_of [VFIO_IRQ_SET_ACTION_MASK, VFIO_IRQ_SET_ACTION_UNMASK, VFIO_IRQ_SET_ACTION_TRIGGER] \<and>
   VFIO_IRQ_SET_DATA_TYPE_MASK AND VFIO_IRQ_SET_ACTION_TYPE_MASK = 0 \<and>
   flags_ok [VFIO_DMA_MAP_FLAG_READ, VFIO_DMA_MAP_FLAG_WRITE] \<and>
   flags_ok [VFIO_GFX_PLANE_TYPE_PROBE, VFIO_GFX_PLANE_TYPE_DMABUF, VFIO_GFX_PLANE_TYPE_REGION] \<and>
   flags_ok [VFIO_DEVICE_IOEVENTFD_8, VFIO_DEVICE_IOEVENTFD_16, VFIO_DEVICE_IOEVENTFD_32, VFIO_DEVICE_IOEVENTFD_64] \<and>
   VFIO_DEVICE_IOEVENTFD_SIZE_MASK = mask_of [VFIO_DEVICE_IOEVENTFD_8, VFIO_DEVICE_IOEVENTFD_16,
     VFIO_DEVICE_IOEVENTFD_32, VFIO_DEVICE_IOEVENTFD_64] \<and>
   numbers_from 1 [VFIO_TYPE1_IOMMU, VFIO_SPAPR_TCE_IOMMU, VFIO_TYPE1v2_IOMMU, VFIO_DMA_CC_IOMMU, VFIO_EEH,
     VFIO_TYPE1_NESTING_IOMMU, VFIO_SPAPR_TCE_v2_IOMMU, VFIO_NOIOMMU_IOMMU] \<and>
   numbers_from 0 [VFIO_PCI_BAR0_REGION_INDEX, VFIO_PCI_BAR1_REGION_INDEX, VFIO_PCI_BAR2_REGION_INDEX,
     VFIO_PCI_BAR3_REGION_INDEX, VFIO_PCI_BAR4_REGION_INDEX, VFIO_PCI_BAR5_REGION_INDEX, VFIO_PCI_ROM_REGION_INDEX,
     VFIO_PCI_CONFIG_REGION_INDEX, VFIO_PCI_VGA_REGION_INDEX, VFIO_PCI_NUM_REGIONS] \<and>
   numbers_from 0 [VFIO_PCI_INTX_IRQ_INDEX, VFIO_PCI_MSI_IRQ_INDEX, VFIO_PCI_MSIX_IRQ_INDEX, VFIO_PCI_ERR_IRQ_INDEX,
     VFIO_PCI_REQ_IRQ_INDEX, VFIO_PCI_NUM_IRQS]"
  by (intro conjI) code_simp+

end
