(* ===== verification/Vfio_Error.thy ===== *)
theory Vfio_Error
  imports Vfio_Prelude
begin

text \<open>
  The error type of the \<open>vfio-ioctls\<close> crate (\<open>lib.rs\<close>) and the outcome of running one of its
  functions.

  \<^item> \<open>VfioError\<close> is the enum of the crate, with the payloads it carries; \<open>display\<close> and
    \<open>source\<close> are the two trait methods \<open>thiserror\<close> derives from the attributes in the source.
  \<^item> A Rust function returning \<open>Result<T>\<close> is a function into \<open>'a res\<close> that also passes the
    state on: \<open>Ok\<close> and \<open>Err\<close> are the two variants of \<open>Result\<close>; \<open>Panic\<close> is an unwinding panic
    (\<open>unwrap\<close>, \<open>expect\<close>, an index or overflow check); \<open>UB\<close> marks an access outside the memory
    object a raw pointer was made from; \<open>Diverges\<close> is a loop that never ends.
\<close>

section \<open>The error enum\<close>

text \<open>
  \<open>io::Error\<close> and the errno wrapper of \<open>vmm-sys-util\<close> enter the crate only as opaque payloads;
  both are represented by the errno value they carry.
\<close>

type_synonym io_error = i32
type_synonym SysError = i32

datatype VfioError =
    OpenContainer io_error
  | OpenGroup io_error string
  | GetGroupStatus
  | GroupViable
  | VfioApiVersion
  | VfioExtension
  | VfioInvalidType
  | VfioType1V2
  | GroupSetContainer
  | UnsetContainer
  | ContainerSetIOMMU
  | GroupGetDeviceFD
  | SetDeviceAttr SysError
  | VfioDeviceGetInfo
  | VfioDeviceGetRegionInfo SysError
  | InvalidPath
  | IommuDmaMap SysError
  | IommuDmaUnmap SysError
  | VfioDeviceGetIrqInfo
  | VfioDeviceSetIrq
  | VfioDeviceEnableIrq
  | VfioDeviceDisableIrq
  | VfioDeviceUnmaskIrq
  | VfioDeviceTriggerIrq
  | VfioDeviceDupFd
  | VfioDeviceFdWrongType
  | GetHostAddress
  | InvalidDmaUnmapSize

text \<open>The text of a payload is produced by other crates: \<open>show\<close> stands for it.\<close>

fun display :: "(i32 \<Rightarrow> string) \<Rightarrow> VfioError \<Rightarrow> string" where
  "display show (OpenContainer e) = ''failed to open /dev/vfio/vfio container: '' @ show e"
| "display show (OpenGroup e s) = ''failed to open /dev/vfio/'' @ s @ '' group: '' @ show e"
| "display show GetGroupStatus = ''failed to get Group Status''"
| "display show GroupViable = ''group is not viable''"
| "display show VfioApiVersion =
     ''vfio API version doesn't match with VFIO_API_VERSION defined in vfio-bindings''"
| "display show VfioExtension = ''failed to check VFIO extension''"
| "display show VfioInvalidType = ''invalid VFIO type''"
| "display show VfioType1V2 = ''container doesn't support VfioType1V2 IOMMU driver type''"
| "display show GroupSetContainer = ''failed to add vfio group into vfio container''"
| "display show UnsetContainer = ''failed to unset vfio container''"
| "display show ContainerSetIOMMU = ''failed to set container's IOMMU driver type as VfioType1V2''"
| "display show GroupGetDeviceFD = ''failed to get vfio device fd''"
| "display show (SetDeviceAttr e) = ''failed to set vfio device's attribute: '' @ show e"
| "display show VfioDeviceGetInfo = ''failed to get vfio device's info or info doesn't match''"
| "display show (VfioDeviceGetRegionInfo e) = ''failed to get vfio device's region info: '' @ show e"
| "display show InvalidPath = ''invalid file path''"
| "display show (IommuDmaMap e) = ''failed to add guest memory map into iommu table: '' @ show e"
| "display show (IommuDmaUnmap e) = ''failed to remove guest memory map from iommu table: '' @ show e"
| "display show VfioDeviceGetIrqInfo = ''failed to get vfio device irq info''"
| "display show VfioDeviceSetIrq = ''failed to set vfio device irq''"
| "display show VfioDeviceEnableIrq = ''failed to enable vfio device irq''"
| "display show VfioDeviceDisableIrq = ''failed to disable vfio device irq''"
| "display show VfioDeviceUnmaskIrq = ''failed to unmask vfio device irq''"
| "display show VfioDeviceTriggerIrq = ''failed to trigger vfio device irq''"
| "display show VfioDeviceDupFd = ''failed to duplicate fd''"
| "display show VfioDeviceFdWrongType = ''wrong device fd type''"
| "display show GetHostAddress = ''failed to get host address''"
| "display show InvalidDmaUnmapSize = ''invalid dma unmap size''"

text \<open>\<open>Error::source\<close>: the payload of the variants whose field carries \<open>#[source]\<close>.\<close>

fun source :: "VfioError \<Rightarrow> i32 option" where
  "source (OpenContainer e) = Some e"
| "source (OpenGroup e _) = Some e"
| "source (SetDeviceAttr e) = Some e"
| "source (VfioDeviceGetRegionInfo e) = Some e"
| "source (IommuDmaMap e) = Some e"
| "source (IommuDmaUnmap e) = Some e"
| "source _ = None"

section \<open>Outcomes and the state they are computed in\<close>

datatype 'a res = Ok 'a | Err VfioError | Panic string | UB string | Diverges

type_synonym ('s, 'a) io = "'s \<Rightarrow> 'a res \<times> 's"

definition ret :: "'a \<Rightarrow> ('s, 'a) io" where
  "ret a s = (Ok a, s)"

definition throw :: "VfioError \<Rightarrow> ('s, 'a) io" where
  "throw e s = (Err e, s)"

definition lift :: "'a res \<Rightarrow> ('s, 'a) io" where
  "lift r s = (r, s)"

text \<open>Sequencing with early return: the \<open>?\<close> operator, and unwinding for the other outcomes.\<close>

fun cont :: "'a res \<times> 's \<Rightarrow> ('a \<Rightarrow> ('s, 'b) io) \<Rightarrow> 'b res \<times> 's" where
  "cont (Ok a, s) f = f a s"
| "cont (Err e, s) f = (Err e, s)"
| "cont (Panic m, s) f = (Panic m, s)"
| "cont (UB m, s) f = (UB m, s)"
| "cont (Diverges, s) f = (Diverges, s)"

definition bind :: "('s, 'a) io \<Rightarrow> ('a \<Rightarrow> ('s, 'b) io) \<Rightarrow> ('s, 'b) io" where
  "bind m f s = cont (m s) f"

text \<open>Inspecting a \<open>Result\<close> instead of propagating it (\<open>if let Err(e)\<close>, \<open>is_err()\<close>, \<open>let _ =\<close>).\<close>

fun attempted :: "'a res \<times> 's \<Rightarrow> (VfioError + 'a) res \<times> 's" where
  "attempted (Ok a, s) = (Ok (Inr a), s)"
| "attempted (Err e, s) = (Ok (Inl e), s)"
| "attempted (Panic m, s) = (Panic m, s)"
| "attempted (UB m, s) = (UB m, s)"
| "attempted (Diverges, s) = (Diverges, s)"

definition attempt :: "('s, 'a) io \<Rightarrow> ('s, VfioError + 'a) io" where
  "attempt m s = attempted (m s)"

text \<open>\<open>Result::map_err\<close>.\<close>

fun err_mapped :: "(VfioError \<Rightarrow> VfioError) \<Rightarrow> 'a res \<times> 's \<Rightarrow> 'a res \<times> 's" where
  "err_mapped f (Err e, s) = (Err (f e), s)"
| "err_mapped f r = r"

definition map_err :: "(VfioError \<Rightarrow> VfioError) \<Rightarrow> ('s, 'a) io \<Rightarrow> ('s, 'a) io" where
  "map_err f m s = err_mapped f (m s)"

text \<open>\<open>Option::ok_or\<close>.\<close>

definition ok_or :: "VfioError \<Rightarrow> 'a option \<Rightarrow> 'a res" where
  "ok_or e x = (case x of None \<Rightarrow> Err e | Some a \<Rightarrow> Ok a)"

lemmas io_defs = ret_def throw_def lift_def bind_def attempt_def map_err_def

lemma ok_or_simps [simp]: "ok_or e None = Err e" "ok_or e (Some a) = Ok a"
  by (simp_all add: ok_or_def)

lemma bind_ret [simp]: "bind (ret a) f = f a"
  by (simp add: io_defs fun_eq_iff)

lemma bind_throw [simp]: "bind (throw e) f = throw e"
  by (simp add: io_defs fun_eq_iff)

lemma bind_lift [simp]: "bind (lift (Ok a)) f = f a" "bind (lift (Err e)) f = throw e"
  by (simp_all add: fun_eq_iff io_defs)

lemma bind_ret_right [simp]: "bind m ret = m"
proof
  fix s show "bind m ret s = m s"
    by (cases "m s"; cases "fst (m s)") (auto simp: io_defs)
qed

lemma bind_assoc: "bind (bind m f) g = bind m (\<lambda>a. bind (f a) g)"
proof
  fix s show "bind (bind m f) g s = bind m (\<lambda>a. bind (f a) g) s"
    by (cases "m s"; cases "fst (m s)") (auto simp: io_defs)
qed

lemma cont_Ok_iff:
  "cont r f = (Ok b, s') \<longleftrightarrow> (\<exists>a s. r = (Ok a, s) \<and> f a s = (Ok b, s'))"
  by (cases r; cases "fst r") auto

lemma cont_Err_iff:
  "cont r f = (Err e, s') \<longleftrightarrow>
     r = (Err e, s') \<or> (\<exists>a s. r = (Ok a, s) \<and> f a s = (Err e, s'))"
  by (cases r; cases "fst r") auto

lemma bind_Ok_iff:
  "bind m f s = (Ok b, s') \<longleftrightarrow> (\<exists>a s1. m s = (Ok a, s1) \<and> f a s1 = (Ok b, s'))"
  by (simp add: bind_def cont_Ok_iff)

lemma bind_Err_iff:
  "bind m f s = (Err e, s') \<longleftrightarrow>
     m s = (Err e, s') \<or> (\<exists>a s1. m s = (Ok a, s1) \<and> f a s1 = (Err e, s'))"
  by (simp add: bind_def cont_Err_iff)

lemma attempted_Ok_iff:
  "attempted r = (Ok x, s) \<longleftrightarrow>
     (case x of Inl e \<Rightarrow> r = (Err e, s) | Inr a \<Rightarrow> r = (Ok a, s))"
  by (cases r; cases "fst r"; cases x) auto

lemma attempted_not_Err [simp]: "attempted r \<noteq> (Err e, s)"
  by (cases r; cases "fst r") auto

lemma bind_attempt_run:
  "m s = (Ok a, s1) \<Longrightarrow> bind (attempt m) k s = k (Inr a) s1"
  "m s = (Err e, s1) \<Longrightarrow> bind (attempt m) k s = k (Inl e) s1"
  by (simp_all add: bind_def attempt_def)

text \<open>A computation that only returns or fails: no panic, no undefined behaviour, no endless loop.\<close>

fun graceful :: "'a res \<Rightarrow> bool" where
  "graceful (Ok _) = True"
| "graceful (Err _) = True"
| "graceful _ = False"

lemma graceful_cases:
  assumes "graceful r"
  obtains a where "r = Ok a" | e where "r = Err e"
  using assms by (cases r) auto

lemma graceful_bind:
  "graceful (fst (m s)) \<Longrightarrow> (\<And>a s'. m s = (Ok a, s') \<Longrightarrow> graceful (fst (f a s'))) \<Longrightarrow>
   graceful (fst (bind m f s))"
  by (cases "m s"; cases "fst (m s)") (auto simp: bind_def)

section \<open>Pre- and postconditions\<close>

text \<open>
  \<open>triple m s Q X\<close>: started in \<open>s\<close>, the computation \<open>m\<close> satisfies \<open>Q\<close> when it returns and \<open>X\<close> when it
  fails with an error.
\<close>

definition triple ::
  "('s, 'a) io \<Rightarrow> 's \<Rightarrow> ('a \<Rightarrow> 's \<Rightarrow> bool) \<Rightarrow> (VfioError \<Rightarrow> 's \<Rightarrow> bool) \<Rightarrow> bool" where
  "triple m s Q X \<longleftrightarrow>
     (\<forall>a s'. m s = (Ok a, s') \<longrightarrow> Q a s') \<and> (\<forall>e s'. m s = (Err e, s') \<longrightarrow> X e s')"

lemma tripleI:
  "(\<And>a s'. m s = (Ok a, s') \<Longrightarrow> Q a s') \<Longrightarrow> (\<And>e s'. m s = (Err e, s') \<Longrightarrow> X e s') \<Longrightarrow> triple m s Q X"
  by (simp add: triple_def)

lemma triple_OkD: "triple m s Q X \<Longrightarrow> m s = (Ok a, s') \<Longrightarrow> Q a s'"
  by (simp add: triple_def)

lemma triple_ErrD: "triple m s Q X \<Longrightarrow> m s = (Err e, s') \<Longrightarrow> X e s'"
  by (simp add: triple_def)

lemma triple_bind:
  "triple m s R X \<Longrightarrow> (\<And>a s'. R a s' \<Longrightarrow> triple (f a) s' Q X) \<Longrightarrow> triple (bind m f) s Q X"
  by (fastforce simp: triple_def bind_Ok_iff bind_Err_iff)

lemma triple_attempt:
  "triple m s (\<lambda>a. R (Inr a)) (\<lambda>e. R (Inl e)) \<Longrightarrow> triple (attempt m) s R X"
  by (auto simp: triple_def attempt_def attempted_Ok_iff split: sum.splits)

lemma triple_ret: "Q a s \<Longrightarrow> triple (ret a) s Q X"
  by (simp add: triple_def ret_def)

lemma triple_throw: "X e s \<Longrightarrow> triple (throw e) s Q X"
  by (simp add: triple_def throw_def)

lemma triple_conseq:
  "triple m s Q X \<Longrightarrow> (\<And>a s'. Q a s' \<Longrightarrow> Q' a s') \<Longrightarrow> (\<And>e s'. X e s' \<Longrightarrow> X' e s') \<Longrightarrow> triple m s Q' X'"
  by (simp add: triple_def)

lemma triple_if:
  "(b \<Longrightarrow> triple m s Q X) \<Longrightarrow> (\<not> b \<Longrightarrow> triple m' s Q X) \<Longrightarrow> triple (if b then m else m') s Q X"
  by simp

lemma triple_sum:
  "(\<And>e. r = Inl e \<Longrightarrow> triple (f e) s Q X) \<Longrightarrow> (\<And>a. r = Inr a \<Longrightarrow> triple (g a) s Q X) \<Longrightarrow>
   triple (case r of Inl e \<Rightarrow> f e | Inr a \<Rightarrow> g a) s Q X"
  by (cases r) simp_all

section \<open>Arithmetic in the two build profiles\<close>

text \<open>
  \<open>a + b\<close> on integers panics on overflow when the crate is built with overflow checks (the debug
  profile) and wraps otherwise (the release profile). Code that adds without checking takes the
  profile as the argument \<open>oc\<close>.
\<close>

definition add_usize :: "bool \<Rightarrow> 'a::len word \<Rightarrow> 'a word \<Rightarrow> 'a word res" where
  "add_usize oc a b =
     (if oc \<and> 2 ^ LENGTH('a) \<le> unat a + unat b then Panic ''attempt to add with overflow''
      else Ok (a + b))"

definition sub_usize :: "bool \<Rightarrow> 'a::len word \<Rightarrow> 'a word \<Rightarrow> 'a word res" where
  "sub_usize oc a b =
     (if oc \<and> a < b then Panic ''attempt to subtract with overflow'' else Ok (a - b))"

definition mul_usize :: "bool \<Rightarrow> 'a::len word \<Rightarrow> 'a word \<Rightarrow> 'a word res" where
  "mul_usize oc a b =
     (if oc \<and> 2 ^ LENGTH('a) \<le> unat a * unat b then Panic ''attempt to multiply with overflow''
      else Ok (a * b))"

lemma add_usize_fits:
  fixes a b :: "'a::len word"
  assumes "unat a + unat b < 2 ^ LENGTH('a)"
  shows "add_usize oc a b = Ok (a + b)" and "unat (a + b) = unat a + unat b"
  using assms by (simp_all add: add_usize_def unat_word_ariths)

text \<open>
  The messages of the payload-free errors are pairwise different: \<open>display\<close> identifies every error that
  has no \<open>source\<close>.
\<close>

lemma display_injective_without_source:
  "source e1 = None \<Longrightarrow> source e2 = None \<Longrightarrow> display show e1 = display show e2 \<Longrightarrow> e1 = e2"
  by (cases e1; simp; cases e2; simp)

end
