(* ===== verification/Vfio_Ioctls.thy ===== *)
theory Vfio_Ioctls
  imports Vfio_Error Vfio_Bindings
begin

text \<open>
  \<open>vfio_ioctls.rs\<close>: the request codes and the module \<open>vfio_syscall\<close>, which turns each VFIO ioctl
  into a typed call. The kernel is not part of the repository: \<open>'k kernel\<close> collects the entry points
  the crate uses, on an arbitrary kernel state \<open>'k\<close>. The module \<open>vfio_syscall\<close> exists twice in the
  source (the real one and the one compiled for tests), so its functions are the fields of a record
  \<open>'k vfio_syscall\<close> that the rest of the crate takes as an argument; \<open>real_syscall\<close> is the first
  instance, theory \<open>Test_Syscall\<close> holds the second. The locale \<open>vfio_syscalls\<close> states what every
  caller relies on, and is interpreted for both.
\<close>

section \<open>The kernel\<close>

text \<open>
  What is passed in the third argument of \<open>ioctl\<close>: nothing, a value, a pointer to a memory object,
  or a pointer to a C string.
\<close>

datatype ioctl_arg = NoArg | ValArg u64 | BufArg "u8 list" | StrArg string

text \<open>
  The return value, the value \<open>errno\<close> has afterwards, and the contents of the memory object
  afterwards. The kernel cannot change the size of the object (see \<open>merge_buf\<close>).
\<close>

record ioctl_result =
  io_ret :: i32
  io_errno :: i32
  io_buf :: "u8 list"

text \<open>\<open>kvm_device_attr\<close> and \<open>mshv_device_attr\<close>; \<open>attr_group_fd\<close> is the descriptor \<open>addr\<close> points to.\<close>

record device_attr =
  attr_flags :: u32
  attr_group :: u32
  attr_attr :: u64
  attr_group_fd :: fd

text \<open>
  The parameters of the model: system calls on the state \<open>'k\<close>, the \<open>ioctl_io_nr!\<close> macro of
  \<open>vmm-sys-util\<close> (request code of a type and a number), \<open>TempFile\<close> (tests only), and the constants
  and methods of the KVM and MSHV crates.
\<close>

record 'k kernel =
  k_ioctl :: "fd \<Rightarrow> u64 \<Rightarrow> ioctl_arg \<Rightarrow> 'k \<Rightarrow> ioctl_result \<times> 'k"
  k_io_nr :: "u32 \<Rightarrow> u32 \<Rightarrow> u64"
  k_open :: "string \<Rightarrow> 'k \<Rightarrow> (io_error + fd) \<times> 'k"
  k_close :: "fd \<Rightarrow> 'k \<Rightarrow> 'k"
  k_read_link :: "string \<Rightarrow> 'k \<Rightarrow> (io_error + string) \<times> 'k"
  k_pread :: "fd \<Rightarrow> nat \<Rightarrow> u64 \<Rightarrow> 'k \<Rightarrow> (io_error + u8 list) \<times> 'k"
  k_pwrite :: "fd \<Rightarrow> u8 list \<Rightarrow> u64 \<Rightarrow> 'k \<Rightarrow> (io_error + nat) \<times> 'k"
  k_dup :: "fd \<Rightarrow> 'k \<Rightarrow> i32 \<times> 'k"
  k_last_errno :: "'k \<Rightarrow> i32"
  k_tempfile :: "'k \<Rightarrow> string option \<times> 'k"
  k_set_device_attr :: "fd \<Rightarrow> device_attr \<Rightarrow> 'k \<Rightarrow> (SysError + unit) \<times> 'k"
  k_kvm_group :: u32
  k_kvm_group_add :: u32
  k_kvm_group_del :: u32
  k_mshv_group :: u32
  k_mshv_group_add :: u32
  k_mshv_group_del :: u32

section \<open>Request codes\<close>

definition VFIO_GET_API_VERSION where
  "VFIO_GET_API_VERSION K = k_io_nr K VFIO_TYPE VFIO_BASE"
definition VFIO_CHECK_EXTENSION where
  "VFIO_CHECK_EXTENSION K = k_io_nr K VFIO_TYPE (VFIO_BASE + 1)"
definition VFIO_SET_IOMMU where
  "VFIO_SET_IOMMU K = k_io_nr K VFIO_TYPE (VFIO_BASE + 2)"
definition VFIO_GROUP_GET_STATUS where
  "VFIO_GROUP_GET_STATUS K = k_io_nr K VFIO_TYPE (VFIO_BASE + 3)"
definition VFIO_GROUP_SET_CONTAINER where
  "VFIO_GROUP_SET_CONTAINER K = k_io_nr K VFIO_TYPE (VFIO_BASE + 4)"
definition VFIO_GROUP_UNSET_CONTAINER where
  "VFIO_GROUP_UNSET_CONTAINER K = k_io_nr K VFIO_TYPE (VFIO_BASE + 5)"
definition VFIO_GROUP_GET_DEVICE_FD where
  "VFIO_GROUP_GET_DEVICE_FD K = k_io_nr K VFIO_TYPE (VFIO_BASE + 6)"
definition VFIO_DEVICE_GET_INFO where
  "VFIO_DEVICE_GET_INFO K = k_io_nr K VFIO_TYPE (VFIO_BASE + 7)"
definition VFIO_DEVICE_GET_REGION_INFO where
  "VFIO_DEVICE_GET_REGION_INFO K = k_io_nr K VFIO_TYPE (VFIO_BASE + 8)"
definition VFIO_DEVICE_GET_IRQ_INFO where
  "VFIO_DEVICE_GET_IRQ_INFO K = k_io_nr K VFIO_TYPE (VFIO_BASE + 9)"
definition VFIO_DEVICE_SET_IRQS where
  "VFIO_DEVICE_SET_IRQS K = k_io_nr K VFIO_TYPE (VFIO_BASE + 10)"
definition VFIO_DEVICE_RESET where
  "VFIO_DEVICE_RESET K = k_io_nr K VFIO_TYPE (VFIO_BASE + 11)"
definition VFIO_DEVICE_GET_PCI_HOT_RESET_INFO where
  "VFIO_DEVICE_GET_PCI_HOT_RESET_INFO K = k_io_nr K VFIO_TYPE (VFIO_BASE + 12)"
definition VFIO_DEVICE_PCI_HOT_RESET where
  "VFIO_DEVICE_PCI_HOT_RESET K = k_io_nr K VFIO_TYPE (VFIO_BASE + 13)"
definition VFIO_DEVICE_QUERY_GFX_PLANE where
  "VFIO_DEVICE_QUERY_GFX_PLANE K = k_io_nr K VFIO_TYPE (VFIO_BASE + 14)"
definition VFIO_DEVICE_GET_GFX_DMABUF where
  "VFIO_DEVICE_GET_GFX_DMABUF K = k_io_nr K VFIO_TYPE (VFIO_BASE + 15)"
definition VFIO_DEVICE_IOEVENTFD where
  "VFIO_DEVICE_IOEVENTFD K = k_io_nr K VFIO_TYPE (VFIO_BASE + 16)"
definition VFIO_IOMMU_GET_INFO where
  "VFIO_IOMMU_GET_INFO K = k_io_nr K VFIO_TYPE (VFIO_BASE + 12)"
definition VFIO_IOMMU_MAP_DMA where
  "VFIO_IOMMU_MAP_DMA K = k_io_nr K VFIO_TYPE (VFIO_BASE + 13)"
definition VFIO_IOMMU_UNMAP_DMA where
  "VFIO_IOMMU_UNMAP_DMA K = k_io_nr K VFIO_TYPE (VFIO_BASE + 14)"
definition VFIO_IOMMU_ENABLE where
  "VFIO_IOMMU_ENABLE K = k_io_nr K VFIO_TYPE (VFIO_BASE + 15)"
definition VFIO_IOMMU_DISABLE where
  "VFIO_IOMMU_DISABLE K = k_io_nr K VFIO_TYPE (VFIO_BASE + 16)"

lemmas request_defs =
  VFIO_GET_API_VERSION_def VFIO_CHECK_EXTENSION_def VFIO_SET_IOMMU_def VFIO_GROUP_GET_STATUS_def
  VFIO_GROUP_SET_CONTAINER_def VFIO_GROUP_UNSET_CONTAINER_def VFIO_GROUP_GET_DEVICE_FD_def
  VFIO_DEVICE_GET_INFO_def VFIO_DEVICE_GET_REGION_INFO_def VFIO_DEVICE_GET_IRQ_INFO_def
  VFIO_DEVICE_SET_IRQS_def VFIO_DEVICE_RESET_def VFIO_DEVICE_GET_PCI_HOT_RESET_INFO_def
  VFIO_DEVICE_PCI_HOT_RESET_def VFIO_DEVICE_QUERY_GFX_PLANE_def VFIO_DEVICE_GET_GFX_DMABUF_def
  VFIO_DEVICE_IOEVENTFD_def VFIO_IOMMU_GET_INFO_def VFIO_IOMMU_MAP_DMA_def
  VFIO_IOMMU_UNMAP_DMA_def VFIO_IOMMU_ENABLE_def VFIO_IOMMU_DISABLE_def

section \<open>Passing structures\<close>

text \<open>The memory object after the call: as long as it was, with what the kernel wrote in front.\<close>

definition merge_buf :: "u8 list \<Rightarrow> u8 list \<Rightarrow> u8 list" where
  "merge_buf old new = take (length old) new @ drop (length new) old"

lemma length_merge_buf [simp]: "length (merge_buf old new) = length old"
  by (simp add: merge_buf_def)

lemma merge_buf_same [simp]: "length new = length old \<Longrightarrow> merge_buf old new = new"
  by (simp add: merge_buf_def)

text \<open>\<open>ioctl_with_ref\<close>, \<open>ioctl_with_mut_ref\<close> on a structure: it is encoded at its address, and read back.\<close>

definition ioctl_struct ::
  "'k kernel \<Rightarrow> ('s \<Rightarrow> u8 list) \<Rightarrow> (u8 list \<Rightarrow> 's option) \<Rightarrow> fd \<Rightarrow> u64 \<Rightarrow> 's \<Rightarrow> 'k
     \<Rightarrow> (ioctl_result \<times> 's) \<times> 'k" where
  "ioctl_struct K enc dec f nr x k =
     (case k_ioctl K f nr (BufArg (enc x)) k of (r, k') \<Rightarrow>
        ((r, case dec (merge_buf (enc x) (io_buf r)) of None \<Rightarrow> x | Some x' \<Rightarrow> x'), k'))"

abbreviation failed :: "ioctl_result \<Rightarrow> bool" where
  "failed r \<equiv> sint (io_ret r) < 0"

section \<open>The module interface\<close>

text \<open>
  The functions of \<open>vfio_syscall\<close>. A container, group or device argument is its descriptor: the
  module uses nothing else of it. A \<open>&mut\<close> structure is passed in and returned; no caller reads it
  after an error. A slice with a flexible array member is its memory.
\<close>

record 'k vfio_syscall =
  sys_check_api_version :: "fd \<Rightarrow> ('k, i32) io"
  sys_check_extension :: "fd \<Rightarrow> u32 \<Rightarrow> ('k, u32) io"
  sys_set_iommu :: "fd \<Rightarrow> u32 \<Rightarrow> ('k, unit) io"
  sys_map_dma :: "fd \<Rightarrow> vfio_iommu_type1_dma_map \<Rightarrow> ('k, unit) io"
  sys_unmap_dma :: "fd \<Rightarrow> vfio_iommu_type1_dma_unmap \<Rightarrow> ('k, vfio_iommu_type1_dma_unmap) io"
  sys_get_group_status :: "fd \<Rightarrow> vfio_group_status \<Rightarrow> ('k, vfio_group_status) io"
  sys_get_group_device_fd :: "fd \<Rightarrow> string \<Rightarrow> ('k, fd) io"
  sys_set_group_container :: "fd \<Rightarrow> fd \<Rightarrow> ('k, unit) io"
  sys_unset_group_container :: "fd \<Rightarrow> fd \<Rightarrow> ('k, unit) io"
  sys_get_device_info :: "fd \<Rightarrow> vfio_device_info \<Rightarrow> ('k, vfio_device_info) io"
  sys_set_device_irqs :: "fd \<Rightarrow> u8 list \<Rightarrow> ('k, unit) io"
  sys_reset :: "fd \<Rightarrow> ('k, i32) io"
  sys_get_device_irq_info :: "fd \<Rightarrow> vfio_irq_info \<Rightarrow> ('k, vfio_irq_info) io"
  sys_get_device_region_info :: "fd \<Rightarrow> vfio_region_info \<Rightarrow> ('k, vfio_region_info) io"
  sys_get_device_region_info_cap :: "fd \<Rightarrow> u8 list \<Rightarrow> ('k, u8 list) io"

text \<open>Sizes of the structures, as \<open>size_of\<close> gives them.\<close>

abbreviation size_irq_set :: nat where "size_irq_set \<equiv> size_of vfio_irq_set_ty"
abbreviation size_region_info :: nat where "size_region_info \<equiv> size_of vfio_region_info_ty"

text \<open>\<open>irq_set[0].argsz\<close> and \<open>reg_infos[0].region_info.argsz\<close>: the first field of both structures.\<close>

definition mem_argsz :: "u8 list \<Rightarrow> nat" where
  "mem_argsz mem = (case read_u32 0 mem of None \<Rightarrow> 0 | Some w \<Rightarrow> unat w)"

definition fam_too_short :: "nat \<Rightarrow> u8 list \<Rightarrow> bool" where
  "fam_too_short sz mem \<longleftrightarrow> mem = [] \<or> (length mem div sz) * sz < mem_argsz mem"

definition EINVAL :: i32 where [const_defs]: "EINVAL = 22"

section \<open>The real module\<close>

definition real_check_api_version where
  "real_check_api_version K c k =
     (case k_ioctl K c (VFIO_GET_API_VERSION K) NoArg k of (r, k') \<Rightarrow> (Ok (io_ret r), k'))"

definition real_check_extension where
  "real_check_extension K c val k =
     (case k_ioctl K c (VFIO_CHECK_EXTENSION K) (ValArg (ucast (val :: u32))) k of (r, k') \<Rightarrow>
        (if failed r then Err VfioExtension else Ok (io_ret r), k'))"

definition real_set_iommu where
  "real_set_iommu K c val k =
     (case k_ioctl K c (VFIO_SET_IOMMU K) (ValArg (ucast (val :: u32))) k of (r, k') \<Rightarrow>
        (if failed r then Err ContainerSetIOMMU else Ok (), k'))"

definition real_map_dma where
  "real_map_dma K c dma_map k =
     (case ioctl_struct K enc_vfio_iommu_type1_dma_map dec_vfio_iommu_type1_dma_map c
             (VFIO_IOMMU_MAP_DMA K) dma_map k of ((r, _), k') \<Rightarrow>
        (if io_ret r \<noteq> 0 then Err (IommuDmaMap (io_errno r)) else Ok (), k'))"

definition real_unmap_dma where
  "real_unmap_dma K c dma_map k =
     (case ioctl_struct K enc_vfio_iommu_type1_dma_unmap dec_vfio_iommu_type1_dma_unmap c
             (VFIO_IOMMU_UNMAP_DMA K) dma_map k of ((r, dma_map'), k') \<Rightarrow>
        (if io_ret r \<noteq> 0 then Err (IommuDmaUnmap (io_errno r)) else Ok dma_map', k'))"

definition real_get_group_status where
  "real_get_group_status K f status k =
     (case ioctl_struct K enc_vfio_group_status dec_vfio_group_status f
             (VFIO_GROUP_GET_STATUS K) status k of ((r, status'), k') \<Rightarrow>
        (if failed r then Err GetGroupStatus else Ok status', k'))"

definition real_get_group_device_fd where
  "real_get_group_device_fd K g path k =
     (case k_ioctl K g (VFIO_GROUP_GET_DEVICE_FD K) (StrArg path) k of (r, k') \<Rightarrow>
        (if failed r then Err GroupGetDeviceFD else Ok (io_ret r), k'))"

definition real_set_group_container where
  "real_set_group_container K g c k =
     (case k_ioctl K g (VFIO_GROUP_SET_CONTAINER K) (BufArg (le_bytes 4 (unat (c :: fd)))) k of
        (r, k') \<Rightarrow> (if failed r then Err GroupSetContainer else Ok (), k'))"

definition real_unset_group_container where
  "real_unset_group_container K g c k =
     (case k_ioctl K g (VFIO_GROUP_UNSET_CONTAINER K) (BufArg (le_bytes 4 (unat (c :: fd)))) k of
        (r, k') \<Rightarrow> (if failed r then Err GroupSetContainer else Ok (), k'))"

definition real_get_device_info where
  "real_get_device_info K f info k =
     (case ioctl_struct K enc_vfio_device_info dec_vfio_device_info f
             (VFIO_DEVICE_GET_INFO K) info k of ((r, info'), k') \<Rightarrow>
        (if failed r then Err VfioDeviceGetInfo else Ok info', k'))"

definition real_set_device_irqs where
  "real_set_device_irqs K d irq_set k =
     (if fam_too_short size_irq_set irq_set then (Err VfioDeviceSetIrq, k)
      else (case k_ioctl K d (VFIO_DEVICE_SET_IRQS K) (BufArg irq_set) k of (r, k') \<Rightarrow>
        (if failed r then Err VfioDeviceSetIrq else Ok (), k')))"

definition real_reset where
  "real_reset K d k =
     (case k_ioctl K d (VFIO_DEVICE_RESET K) NoArg k of (r, k') \<Rightarrow> (Ok (io_ret r), k'))"

text \<open>
  The last three report \<open>SysError::new(-ret)\<close>. A failing \<open>ioctl\<close> returns -1, so the reported errno is
  always 1, whatever the cause was. The negation would overflow only for a return value of \<open>i32::MIN\<close>, which
  no \<open>ioctl\<close> returns; it is modelled without the check of a debug build.
\<close>

definition real_get_device_irq_info where
  "real_get_device_irq_info K d info k =
     (case ioctl_struct K enc_vfio_irq_info dec_vfio_irq_info d
             (VFIO_DEVICE_GET_IRQ_INFO K) info k of ((r, info'), k') \<Rightarrow>
        (if failed r then Err (VfioDeviceGetRegionInfo (- io_ret r)) else Ok info', k'))"

definition real_get_device_region_info where
  "real_get_device_region_info K d info k =
     (case ioctl_struct K enc_vfio_region_info dec_vfio_region_info d
             (VFIO_DEVICE_GET_REGION_INFO K) info k of ((r, info'), k') \<Rightarrow>
        (if failed r then Err (VfioDeviceGetRegionInfo (- io_ret r)) else Ok info', k'))"

definition real_get_device_region_info_cap where
  "real_get_device_region_info_cap K d reg_infos k =
     (if fam_too_short size_region_info reg_infos then (Err (VfioDeviceGetRegionInfo EINVAL), k)
      else (case k_ioctl K d (VFIO_DEVICE_GET_REGION_INFO K) (BufArg reg_infos) k of (r, k') \<Rightarrow>
        (if failed r then Err (VfioDeviceGetRegionInfo (- io_ret r))
         else Ok (merge_buf reg_infos (io_buf r)), k')))"

definition real_syscall :: "'k kernel \<Rightarrow> 'k vfio_syscall" where
  "real_syscall K = \<lparr>
     sys_check_api_version = real_check_api_version K,
     sys_check_extension = real_check_extension K,
     sys_set_iommu = real_set_iommu K,
     sys_map_dma = real_map_dma K,
     sys_unmap_dma = real_unmap_dma K,
     sys_get_group_status = real_get_group_status K,
     sys_get_group_device_fd = real_get_group_device_fd K,
     sys_set_group_container = real_set_group_container K,
     sys_unset_group_container = real_unset_group_container K,
     sys_get_device_info = real_get_device_info K,
     sys_set_device_irqs = real_set_device_irqs K,
     sys_reset = real_reset K,
     sys_get_device_irq_info = real_get_device_irq_info K,
     sys_get_device_region_info = real_get_device_region_info K,
     sys_get_device_region_info_cap = real_get_device_region_info_cap K\<rparr>"

lemmas real_defs =
  real_check_api_version_def real_check_extension_def real_set_iommu_def real_map_dma_def
  real_unmap_dma_def real_get_group_status_def real_get_group_device_fd_def
  real_set_group_container_def real_unset_group_container_def real_get_device_info_def
  real_set_device_irqs_def real_reset_def real_get_device_irq_info_def
  real_get_device_region_info_def real_get_device_region_info_cap_def

section \<open>What callers rely on\<close>

text \<open>
  A call that reports errors reports only its own: \<open>only_err P m\<close> says that \<open>m\<close> never panics and that
  every error it returns satisfies \<open>P\<close>.
\<close>

definition only_err :: "(VfioError \<Rightarrow> bool) \<Rightarrow> ('k, 'a) io \<Rightarrow> bool" where
  "only_err P m \<longleftrightarrow> (\<forall>k. graceful (fst (m k)) \<and> (\<forall>e. fst (m k) = Err e \<longrightarrow> P e))"

lemma only_errI:
  "(\<And>k. (\<exists>a. fst (m k) = Ok a) \<or> (\<exists>e. fst (m k) = Err e \<and> P e)) \<Longrightarrow> only_err P m"
  unfolding only_err_def by (metis graceful.simps(1,2) res.distinct(1) res.inject(2))

lemma only_errD: "only_err P m \<Longrightarrow> m k = (Err e, k') \<Longrightarrow> P e"
  unfolding only_err_def by (metis fst_conv)

lemma only_err_graceful: "only_err P m \<Longrightarrow> graceful (fst (m k))"
  by (simp add: only_err_def)

lemma only_err_map_err: "only_err P m \<Longrightarrow> only_err (\<lambda>e'. e' = e) (map_err (\<lambda>_. e) m)"
proof (rule only_errI)
  fix k
  assume "only_err P m"
  then have "graceful (fst (m k))" by (rule only_err_graceful)
  then show "(\<exists>a. fst (map_err (\<lambda>_. e) m k) = Ok a) \<or> (\<exists>e'. fst (map_err (\<lambda>_. e) m k) = Err e' \<and> e' = e)"
    by (cases "m k") (auto simp: map_err_def elim: graceful_cases)
qed

lemma only_err_outcome:
  "only_err P m \<Longrightarrow> (\<exists>a. fst (m k) = Ok a) \<or> (\<exists>e. fst (m k) = Err e \<and> P e)"
  unfolding only_err_def by (metis graceful_cases)

lemma only_err_throw: "P e \<Longrightarrow> only_err P (throw e)"
  by (simp add: only_err_def throw_def)

locale vfio_syscalls =
  fixes S :: "'k vfio_syscall"
  assumes api_version_ok: "\<exists>v k'. sys_check_api_version S c k = (Ok v, k')"
    and extension_err: "only_err (\<lambda>e. e = VfioExtension) (sys_check_extension S c val)"
    and iommu_err: "only_err (\<lambda>e. e = ContainerSetIOMMU) (sys_set_iommu S c val)"
    and map_err: "only_err (\<lambda>e. \<exists>n. e = IommuDmaMap n) (sys_map_dma S c m)"
    and unmap_err: "only_err (\<lambda>e. \<exists>n. e = IommuDmaUnmap n) (sys_unmap_dma S c u)"
    and status_err: "only_err (\<lambda>e. e = GetGroupStatus) (sys_get_group_status S g st)"
    and set_container_err: "only_err (\<lambda>e. e = GroupSetContainer) (sys_set_group_container S g c)"
    and unset_container_err: "only_err (\<lambda>e. e = GroupSetContainer) (sys_unset_group_container S g c)"
    and device_info_err: "only_err (\<lambda>e. e = VfioDeviceGetInfo) (sys_get_device_info S d i)"
    and irqs_err: "only_err (\<lambda>e. e = VfioDeviceSetIrq) (sys_set_device_irqs S d mem)"
    and irqs_short: "fam_too_short size_irq_set mem \<Longrightarrow>
      sys_set_device_irqs S d mem k = (Err VfioDeviceSetIrq, k)"
    and reset_ok: "\<exists>r k'. sys_reset S d k = (Ok r, k')"
    and cap_short: "fam_too_short size_region_info mem \<Longrightarrow>
      sys_get_device_region_info_cap S d mem k = (Err (VfioDeviceGetRegionInfo EINVAL), k)"
    and cap_length: "sys_get_device_region_info_cap S d mem k = (Ok mem', k') \<Longrightarrow>
      length mem' = length mem"

interpretation real: vfio_syscalls "real_syscall K" for K :: "'k kernel"
  by unfold_locales
    (auto simp: real_syscall_def real_defs ioctl_struct_def intro!: only_errI split: prod.splits if_splits)

text \<open>
  With the request encoding of the Linux \<open>_IO\<close> macro (the type in the second byte, the number
  in the first), the request codes are the ones the kernel header assigns, as the unit test
  \<open>test_vfio_ioctl_code\<close> lists them; the IOMMU and device requests that share a number are issued
  on different kinds of descriptors.
\<close>

lemma request_codes:
  assumes io_nr: "\<And>ty nr. ty < 256 \<Longrightarrow> nr < 256 \<Longrightarrow>
    k_io_nr K ty nr = push_bit 8 (ucast ty) OR ucast nr"
  shows "[VFIO_GET_API_VERSION K, VFIO_CHECK_EXTENSION K, VFIO_SET_IOMMU K,
      VFIO_GROUP_GET_STATUS K, VFIO_GROUP_SET_CONTAINER K, VFIO_GROUP_UNSET_CONTAINER K,
      VFIO_GROUP_GET_DEVICE_FD K, VFIO_DEVICE_GET_INFO K, VFIO_DEVICE_GET_REGION_INFO K,
      VFIO_DEVICE_GET_IRQ_INFO K, VFIO_DEVICE_SET_IRQS K, VFIO_DEVICE_RESET K,
      VFIO_DEVICE_IOEVENTFD K, VFIO_IOMMU_GET_INFO K, VFIO_IOMMU_MAP_DMA K,
      VFIO_IOMMU_UNMAP_DMA K, VFIO_IOMMU_DISABLE K] =
    [15204, 15205, 15206, 15207, 15208, 15209, 15210, 15211, 15212, 15213, 15214, 15215,
     15220, 15216, 15217, 15218, 15220]"
  by (simp add: request_defs const_defs io_nr)

end
