(* ===== verification/Test_Syscall.thy ===== *)
theory Test_Syscall
  imports Vfio_Ioctls
begin

text \<open>
  The module \<open>vfio_syscall\<close> that \<open>vfio_ioctls.rs\<close> compiles under \<open>cfg(test)\<close>: a small fake of the
  kernel side, against which the unit tests of the crate run. It is the second instance of the
  interface \<open>vfio_syscalls\<close>. Temporary files come from \<open>vmm-sys-util\<close> and stay parameters.
\<close>

definition test_check_api_version :: "fd \<Rightarrow> ('k, i32) io" where
  "test_check_api_version c k = (Ok VFIO_API_VERSION, k)"

definition test_check_extension :: "fd \<Rightarrow> u32 \<Rightarrow> ('k, u32) io" where
  "test_check_extension c val k =
     (if val = VFIO_TYPE1v2_IOMMU then Ok 1 else Err VfioExtension, k)"

definition test_set_iommu :: "fd \<Rightarrow> u32 \<Rightarrow> ('k, unit) io" where
  "test_set_iommu c val k = (Ok (), k)"

definition test_map_dma :: "'k kernel \<Rightarrow> fd \<Rightarrow> vfio_iommu_type1_dma_map \<Rightarrow> ('k, unit) io" where
  "test_map_dma K c dma_map k =
     (if dm_iova dma_map = 0x1000 then Ok () else Err (IommuDmaMap (k_last_errno K k)), k)"

definition test_unmap_dma ::
  "'k kernel \<Rightarrow> fd \<Rightarrow> vfio_iommu_type1_dma_unmap \<Rightarrow> ('k, vfio_iommu_type1_dma_unmap) io" where
  "test_unmap_dma K c dma_map k =
     (if du_iova dma_map = 0x1000
      then Ok (if du_size dma_map = 0x2000 then dma_map\<lparr>du_size := 0x1000\<rparr> else dma_map)
      else Err (IommuDmaUnmap (k_last_errno K k)), k)"

definition test_get_group_status :: "fd \<Rightarrow> vfio_group_status \<Rightarrow> ('k, vfio_group_status) io" where
  "test_get_group_status f status k = (Ok (status\<lparr>gs_flags := VFIO_GROUP_FLAGS_VIABLE\<rparr>), k)"

definition test_get_group_device_fd :: "'k kernel \<Rightarrow> fd \<Rightarrow> string \<Rightarrow> ('k, fd) io" where
  "test_get_group_device_fd K g path k =
     (case k_tempfile K k of
        (None, k1) \<Rightarrow> (Panic ''TempFile::new'', k1)
      | (Some p, k1) \<Rightarrow>
          (case k_open K p k1 of
             (Inl _, k2) \<Rightarrow> (Panic ''File::open'', k2)
           | (Inr f, k2) \<Rightarrow> (Ok f, k2)))"

definition test_set_group_container :: "fd \<Rightarrow> fd \<Rightarrow> ('k, unit) io" where
  "test_set_group_container g c k =
     (if 0 \<le> sint g \<and> 0 \<le> sint c then Ok () else Err GroupSetContainer, k)"

definition test_unset_group_container :: "fd \<Rightarrow> fd \<Rightarrow> ('k, unit) io" where
  "test_unset_group_container g c k =
     (if 0 \<le> sint g \<and> 0 \<le> sint c then Ok () else Err GroupSetContainer, k)"

definition test_get_device_info :: "fd \<Rightarrow> vfio_device_info \<Rightarrow> ('k, vfio_device_info) io" where
  "test_get_device_info f info k =
     (Ok (info\<lparr>di_flags := VFIO_DEVICE_FLAGS_PCI,
               di_num_regions := VFIO_PCI_CONFIG_REGION_INDEX + 1,
               di_num_irqs := VFIO_PCI_MSIX_IRQ_INDEX + 1\<rparr>), k)"

definition test_set_device_irqs :: "fd \<Rightarrow> u8 list \<Rightarrow> ('k, unit) io" where
  "test_set_device_irqs d irq_sets k =
     (if fam_too_short size_irq_set irq_sets then (Err VfioDeviceSetIrq, k)
      else (case dec_vfio_irq_set irq_sets of
        None \<Rightarrow> (Err VfioDeviceSetIrq, k)
      | Some irq_set \<Rightarrow>
          (if is_flags irq_set = VFIO_IRQ_SET_DATA_EVENTFD OR VFIO_IRQ_SET_ACTION_TRIGGER \<and>
              is_index irq_set = 0 \<and> is_count irq_set = 0 then Err VfioDeviceSetIrq
           else if is_flags irq_set = VFIO_IRQ_SET_DATA_NONE OR VFIO_IRQ_SET_ACTION_TRIGGER \<and>
              is_index irq_set = 0 \<and> is_count irq_set = 0 then Err VfioDeviceSetIrq
           else if is_flags irq_set = VFIO_IRQ_SET_DATA_NONE OR VFIO_IRQ_SET_ACTION_UNMASK \<and>
              is_index irq_set = 1 \<and> is_count irq_set = 1 then Err VfioDeviceSetIrq
           else Ok (), k)))"

definition test_reset :: "fd \<Rightarrow> ('k, i32) io" where
  "test_reset d k = (Ok 0, k)"

definition test_get_device_region_info :: "fd \<Rightarrow> vfio_region_info \<Rightarrow> ('k, vfio_region_info) io" where
  "test_get_device_region_info d info k =
     (let idx = ri_index info in
      if idx = 0 then (Ok (info\<lparr>ri_flags := 0, ri_size := 0x1000, ri_offset := 0x10000\<rparr>), k)
      else if idx = 1 then
        (Ok (info\<lparr>ri_argsz := 88, ri_flags := VFIO_REGION_INFO_FLAG_CAPS,
                  ri_size := 0x2000, ri_offset := 0x20000\<rparr>), k)
      else if 2 \<le> idx \<and> idx < 7 then
        (Ok (info\<lparr>ri_flags := 0, ri_size := (ucast idx + 1) * 0x1000,
                  ri_offset := (ucast idx + 1) * 0x10000\<rparr>), k)
      else if idx = 7 then (Err (VfioDeviceGetRegionInfo EINVAL), k)
      else (Panic ''invalid device region index'', k))"

text \<open>
  The fake capability chain: three headers at 32, 40 and 56, the last with one sparse area. The
  writes go through raw pointers, so a memory object of less than 88 bytes would be overrun.
\<close>

definition test_cap_chain :: "u8 list \<Rightarrow> u8 list" where
  "test_cap_chain mem =
     write_u64 72 4 (write_u64 80 3 (write_u32 64 1 (write_u32 60 4
       (write_u16 56 (ucast VFIO_REGION_INFO_CAP_SPARSE_MMAP)
       (write_u32 52 6 (write_u32 48 5 (write_u32 44 56
         (write_u16 40 (ucast VFIO_REGION_INFO_CAP_TYPE)
       (write_u32 36 40 (write_u16 32 (ucast VFIO_REGION_INFO_CAP_MSIX_MAPPABLE)
         (write_u32 12 32 mem)))))))))))"

definition test_get_device_region_info_cap :: "fd \<Rightarrow> u8 list \<Rightarrow> ('k, u8 list) io" where
  "test_get_device_region_info_cap d reg_infos k =
     (if fam_too_short size_region_info reg_infos then (Err (VfioDeviceGetRegionInfo EINVAL), k)
      else if read_u32 8 reg_infos = Some 1 then
        (if length reg_infos < 88 then (UB ''write outside the vector'', k)
         else (Ok (test_cap_chain reg_infos), k))
      else (Panic ''invalid device region index'', k))"

definition test_get_device_irq_info :: "fd \<Rightarrow> vfio_irq_info \<Rightarrow> ('k, vfio_irq_info) io" where
  "test_get_device_irq_info d info k =
     (let idx = ii_index info in
      if idx = 0 then (Ok (info\<lparr>ii_flags := VFIO_IRQ_INFO_MASKABLE, ii_count := 1\<rparr>), k)
      else if idx = 1 then (Ok (info\<lparr>ii_flags := VFIO_IRQ_INFO_EVENTFD, ii_count := 32\<rparr>), k)
      else if idx = 2 then (Ok (info\<lparr>ii_flags := VFIO_IRQ_INFO_EVENTFD, ii_count := 2048\<rparr>), k)
      else if idx = 3 then (Err (VfioDeviceGetRegionInfo EINVAL), k)
      else (Panic ''invalid device irq index'', k))"

definition create_dev_info_for_test :: vfio_device_info where
  "create_dev_info_for_test =
     \<lparr>di_argsz = 0, di_flags = 0, di_num_regions = 2, di_num_irqs = 4\<rparr>"

definition test_syscall :: "'k kernel \<Rightarrow> 'k vfio_syscall" where
  "test_syscall K = \<lparr>
     sys_check_api_version = test_check_api_version,
     sys_check_extension = test_check_extension,
     sys_set_iommu = test_set_iommu,
     sys_map_dma = test_map_dma K,
     sys_unmap_dma = test_unmap_dma K,
     sys_get_group_status = test_get_group_status,
     sys_get_group_device_fd = test_get_group_device_fd K,
     sys_set_group_container = test_set_group_container,
     sys_unset_group_container = test_unset_group_container,
     sys_get_device_info = test_get_device_info,
     sys_set_device_irqs = test_set_device_irqs,
     sys_reset = test_reset,
     sys_get_device_irq_info = test_get_device_irq_info,
     sys_get_device_region_info = test_get_device_region_info,
     sys_get_device_region_info_cap = test_get_device_region_info_cap\<rparr>"

lemmas test_defs =
  test_check_api_version_def test_check_extension_def test_set_iommu_def test_map_dma_def
  test_unmap_dma_def test_get_group_status_def test_get_group_device_fd_def
  test_set_group_container_def test_unset_group_container_def test_get_device_info_def
  test_set_device_irqs_def test_reset_def test_get_device_irq_info_def
  test_get_device_region_info_def test_get_device_region_info_cap_def

lemma length_test_cap_chain: "88 \<le> length mem \<Longrightarrow> length (test_cap_chain mem) = length mem"
  by (simp add: test_cap_chain_def)

interpretation test: vfio_syscalls "test_syscall K" for K :: "'k kernel"
  by unfold_locales
    (auto simp: test_syscall_def test_defs Let_def length_test_cap_chain intro!: only_errI
      split: prod.splits if_splits option.splits)

end
