(* ===== verification/Hash_Map.thy ===== *)
theory Hash_Map
  imports Vfio_Prelude "HOL-Library.AList"
begin

text \<open>
  \<open>std::collections::HashMap\<close> as the crate uses it: \<open>get\<close>, \<open>insert\<close>, \<open>remove\<close> and \<open>len\<close>. The
  container keeps its groups in one, a device its interrupts. The locale states the contract; the
  interpretation is on association lists with distinct keys, which evaluate. The iteration order
  of a \<open>HashMap\<close> is unspecified and no function of the crate iterates over one; dropping a map drops its
  values in that order, so \<open>drop_container\<close> takes the order as an argument.
\<close>

section \<open>The interface\<close>

locale hash_map =
  fixes empty :: 'm
    and get :: "'m \<Rightarrow> 'k \<Rightarrow> 'v option"
    and insert :: "'k \<Rightarrow> 'v \<Rightarrow> 'm \<Rightarrow> 'm"
    and remove :: "'k \<Rightarrow> 'm \<Rightarrow> 'm"
    and len :: "'m \<Rightarrow> nat"
    and invar :: "'m \<Rightarrow> bool"
  assumes get_empty: "get empty k = None"
    and get_insert: "invar m \<Longrightarrow> get (insert k v m) = (get m)(k \<mapsto> v)"
    and get_remove: "invar m \<Longrightarrow> get (remove k m) = (get m)(k := None)"
    and len_card: "invar m \<Longrightarrow> len m = card (dom (get m))"
    and finite_get: "invar m \<Longrightarrow> finite (dom (get m))"
    and invar_empty: "invar empty"
    and invar_insert: "invar m \<Longrightarrow> invar (insert k v m)"
    and invar_remove: "invar m \<Longrightarrow> invar (remove k m)"
begin

lemma len_empty_iff: "invar m \<Longrightarrow> len m = 0 \<longleftrightarrow> (\<forall>k. get m k = None)"
  using finite_get [of m] by (auto simp: len_card)

lemma len_insert_fresh: "invar m \<Longrightarrow> get m k = None \<Longrightarrow> len (insert k v m) = Suc (len m)"
  using finite_get [of m]
  by (simp add: len_card invar_insert get_insert domIff)

lemma len_insert_again: "invar m \<Longrightarrow> get m k \<noteq> None \<Longrightarrow> len (insert k v m) = len m"
  using finite_get [of m]
  by (auto simp add: len_card invar_insert get_insert domIff insert_absorb)

lemma len_remove: "invar m \<Longrightarrow> get m k \<noteq> None \<Longrightarrow> len (remove k m) = len m - 1"
  using finite_get [of m]
  by (simp add: len_card invar_remove get_remove domIff)

lemma remove_insert: "invar m \<Longrightarrow> get m k = None \<Longrightarrow> get (remove k (insert k v m)) = get m"
  by (simp add: get_insert get_remove invar_insert fun_upd_idem)

lemma get_insert_same: "invar m \<Longrightarrow> get (insert k v m) k = Some v"
  by (simp add: get_insert)

lemma get_insert_other: "invar m \<Longrightarrow> k' \<noteq> k \<Longrightarrow> get (insert k v m) k' = get m k'"
  by (simp add: get_insert)

end

section \<open>Association lists with distinct keys\<close>

type_synonym ('k, 'v) hm = "('k \<times> 'v) list"

definition hm_new :: "('k, 'v) hm" where
  "hm_new = []"

definition hm_get :: "('k, 'v) hm \<Rightarrow> 'k \<Rightarrow> 'v option" where
  "hm_get m k = map_of m k"

definition hm_insert :: "'k \<Rightarrow> 'v \<Rightarrow> ('k, 'v) hm \<Rightarrow> ('k, 'v) hm" where
  "hm_insert k v m = AList.update k v m"

definition hm_remove :: "'k \<Rightarrow> ('k, 'v) hm \<Rightarrow> ('k, 'v) hm" where
  "hm_remove k m = AList.delete k m"

definition hm_len :: "('k, 'v) hm \<Rightarrow> nat" where
  "hm_len m = length m"

definition hm_inv :: "('k, 'v) hm \<Rightarrow> bool" where
  "hm_inv m = distinct (map fst m)"

lemmas hm_defs = hm_new_def hm_get_def hm_insert_def hm_remove_def hm_len_def

interpretation hm: hash_map hm_new hm_get hm_insert hm_remove hm_len hm_inv
proof unfold_locales
  fix m :: "('k, 'v) hm" and k v
  show "hm_inv m \<Longrightarrow> hm_len m = card (dom (hm_get m))"
    using distinct_card [of "map fst m"]
    by (simp add: hm_inv_def hm_len_def hm_get_def [abs_def] dom_map_of_conv_image_fst)
  show "hm_inv m \<Longrightarrow> hm_inv (hm_insert k v m)"
    by (simp add: hm_inv_def hm_insert_def distinct_update)
  show "hm_inv m \<Longrightarrow> hm_inv (hm_remove k m)"
    by (simp add: hm_inv_def hm_remove_def distinct_delete)
  show "finite (dom (hm_get m))"
    by (simp add: hm_get_def [abs_def] finite_dom_map_of)
  show "hm_get (hm_insert k v m) = (hm_get m)(k \<mapsto> v)"
    by (simp add: hm_get_def [abs_def] hm_insert_def update_conv')
  show "hm_get (hm_remove k m) = (hm_get m)(k := None)"
    by (simp add: hm_get_def [abs_def] hm_remove_def delete_conv')
qed (simp_all add: hm_defs hm_inv_def)

end
