(* ===== verification/Rust_Std.thy ===== *)
theory Rust_Std
  imports Vfio_Error
begin

text \<open>
  The functions of the Rust standard library the crate calls on paths and strings: decimal printing
  of a \<open>u32\<close>, \<open>u32::from_str\<close>, \<open>Path::file_name\<close>, joining a component, and \<open>OsStr::to_str\<close>. A path is
  the string of its bytes.
\<close>

section \<open>Decimal numbers\<close>

definition digit_char :: "nat \<Rightarrow> char" where
  "digit_char d = char_of (48 + d)"

fun nat_to_string :: "nat \<Rightarrow> string" where
  "nat_to_string n = (if n < 10 then [digit_char n] else nat_to_string (n div 10) @ [digit_char (n mod 10)])"

declare nat_to_string.simps [simp del]

text \<open>\<open>u32::to_string\<close>.\<close>

definition u32_to_string :: "u32 \<Rightarrow> string" where
  "u32_to_string w = nat_to_string (unat w)"

definition is_digit :: "char \<Rightarrow> bool" where
  "is_digit c \<longleftrightarrow> 48 \<le> (of_char c :: nat) \<and> (of_char c :: nat) \<le> 57"

definition digit_val :: "char \<Rightarrow> nat" where
  "digit_val c = of_char c - 48"

definition digits_val :: "string \<Rightarrow> nat" where
  "digits_val s = foldl (\<lambda>v c. 10 * v + digit_val c) 0 s"

text \<open>\<open>str::parse::<u32>\<close>: an optional \<open>+\<close>, at least one digit, no overflow.\<close>

definition parse_u32 :: "string \<Rightarrow> u32 option" where
  "parse_u32 s =
     (let ds = (case s of [] \<Rightarrow> [] | c # cs \<Rightarrow> if c = CHR ''+'' then cs else s) in
      if ds \<noteq> [] \<and> list_all is_digit ds \<and> digits_val ds < 2 ^ 32
      then Some (word_of_nat (digits_val ds)) else None)"

lemma of_char_digit_char: "d < 10 \<Longrightarrow> (of_char (digit_char d) :: nat) = 48 + d"
  by (simp add: digit_char_def)

lemma is_digit_digit_char [simp]: "d < 10 \<Longrightarrow> is_digit (digit_char d)"
  by (simp add: is_digit_def of_char_digit_char)

lemma digit_val_digit_char [simp]: "d < 10 \<Longrightarrow> digit_val (digit_char d) = d"
  by (simp add: digit_val_def of_char_digit_char)

lemma digits_val_append: "digits_val (s @ [c]) = 10 * digits_val s + digit_val c"
  by (simp add: digits_val_def)

lemma nat_to_string_digits:
  "nat_to_string n \<noteq> [] \<and> list_all is_digit (nat_to_string n) \<and> digits_val (nat_to_string n) = n"
proof (induction n rule: nat_to_string.induct)
  case (1 n)
  show ?case
  proof (cases "n < 10")
    case True
    then show ?thesis by (simp add: nat_to_string.simps [of n] digits_val_def)
  next
    case False
    with 1 show ?thesis by (simp add: nat_to_string.simps [of n] digits_val_append)
  qed
qed

lemma is_digit_not_plus: "is_digit c \<Longrightarrow> c \<noteq> CHR ''+''"
  by (auto simp: is_digit_def)

lemma parse_u32_to_string: "parse_u32 (u32_to_string w) = Some w"
proof -
  have d: "u32_to_string w \<noteq> []" "list_all is_digit (u32_to_string w)" "digits_val (u32_to_string w) = unat w"
    using nat_to_string_digits [of "unat w"] by (simp_all add: u32_to_string_def)
  obtain c cs where s: "u32_to_string w = c # cs" using d(1) by (cases "u32_to_string w") auto
  have "c \<noteq> CHR ''+''" using d(2) s is_digit_not_plus by auto
  then show ?thesis
    using d unat_lt_u32 [of w] by (simp add: parse_u32_def s)
qed

section \<open>Paths\<close>

fun split_slash :: "string \<Rightarrow> string list" where
  "split_slash [] = [[]]"
| "split_slash (c # cs) =
     (if c = CHR ''/'' then [] # split_slash cs
      else (case split_slash cs of [] \<Rightarrow> [[c]] | x # xs \<Rightarrow> (c # x) # xs))"

text \<open>\<open>Path::file_name\<close>: the last component, unless there is none or it is \<open>..\<close>.\<close>

definition file_name :: "string \<Rightarrow> string option" where
  "file_name p =
     (let cs = filter (\<lambda>c. c \<noteq> [] \<and> c \<noteq> ''.'') (split_slash p) in
      if cs = [] \<or> last cs = ''..'' then None else Some (last cs))"

text \<open>\<open>Path::join\<close> with a relative component.\<close>

definition path_join :: "string \<Rightarrow> string \<Rightarrow> string" where
  "path_join p c = (if p = [] then c else if last p = CHR ''/'' then p @ c else p @ ''/'' @ c)"

lemma split_slash_no_slash: "CHR ''/'' \<notin> set s \<Longrightarrow> split_slash s = [s]"
  by (induction s) auto

lemma split_slash_not_Nil [simp]: "split_slash s \<noteq> []"
  by (induction s) (auto split: list.splits)

lemma split_slash_append:
  "split_slash (p @ ''/'' @ s) = split_slash p @ split_slash s"
proof (induction p)
  case (Cons c p)
  then show ?case by (cases "split_slash p") (auto split: list.splits)
qed simp

lemma file_name_join:
  assumes "CHR ''/'' \<notin> set s" "s \<notin> {[], ''.'', ''..''}"
  shows "file_name (p @ ''/'' @ s) = Some s"
proof -
  have "filter (\<lambda>c. c \<noteq> [] \<and> c \<noteq> ''.'') (split_slash (p @ ''/'' @ s)) =
      filter (\<lambda>c. c \<noteq> [] \<and> c \<noteq> ''.'') (split_slash p) @ [s]"
    unfolding split_slash_append using assms by (simp add: split_slash_no_slash)
  then show ?thesis using assms(2) by (simp only: file_name_def Let_def) simp
qed

lemma file_name_path_join:
  assumes "CHR ''/'' \<notin> set s" "s \<notin> {[], ''.'', ''..''}"
  shows "file_name (path_join p s) = Some s"
proof -
  consider "p = []" | q where "p = q @ ''/''" | "p \<noteq> []" "last p \<noteq> CHR ''/''"
    by (metis append_butlast_last_id)
  then show ?thesis
  proof cases
    case 1
    then show ?thesis using assms by (simp add: path_join_def file_name_def split_slash_no_slash)
  qed (use file_name_join [OF assms] in \<open>simp_all add: path_join_def\<close>)
qed

section \<open>UTF-8\<close>

text \<open>\<open>OsStr::to_str\<close> succeeds on well-formed UTF-8 (no overlong forms, no surrogates).\<close>

definition cont_byte :: "nat \<Rightarrow> bool" where
  "cont_byte b \<longleftrightarrow> 128 \<le> b \<and> b < 192"

fun utf8_ok :: "nat list \<Rightarrow> bool" where
  "utf8_ok [] = True"
| "utf8_ok (a # r) =
     (if a < 128 then utf8_ok r
      else if 194 \<le> a \<and> a < 224 then
        (case r of b # r1 \<Rightarrow> cont_byte b \<and> utf8_ok r1 | _ \<Rightarrow> False)
      else if 224 \<le> a \<and> a < 240 then
        (case r of b # c # r1 \<Rightarrow>
           cont_byte b \<and> cont_byte c \<and> (a = 224 \<longrightarrow> 160 \<le> b) \<and> (a = 237 \<longrightarrow> b < 160) \<and> utf8_ok r1
         | _ \<Rightarrow> False)
      else if 240 \<le> a \<and> a < 245 then
        (case r of b # c # d # r1 \<Rightarrow>
           cont_byte b \<and> cont_byte c \<and> cont_byte d \<and> (a = 240 \<longrightarrow> 144 \<le> b) \<and> (a = 244 \<longrightarrow> b < 144) \<and>
           utf8_ok r1
         | _ \<Rightarrow> False)
      else False)"

definition to_str :: "string \<Rightarrow> string option" where
  "to_str s = (if utf8_ok (map of_char s) then Some s else None)"

lemma utf8_ok_ascii: "list_all (\<lambda>b. b < 128) bs \<Longrightarrow> utf8_ok bs"
  by (induction bs) auto

lemma to_str_digits: "list_all is_digit s \<Longrightarrow> to_str s = Some s"
  by (fastforce simp: to_str_def is_digit_def list_all_iff intro!: utf8_ok_ascii)

lemma u32_to_string_component:
  "CHR ''/'' \<notin> set (u32_to_string w)" "u32_to_string w \<notin> {[], ''.'', ''..''}"
  "to_str (u32_to_string w) = Some (u32_to_string w)"
proof -
  have d: "u32_to_string w \<noteq> []" "list_all is_digit (u32_to_string w)"
    using nat_to_string_digits [of "unat w"] by (simp_all add: u32_to_string_def)
  have "\<not> is_digit CHR ''/''" "\<not> is_digit CHR ''.''" by (simp_all add: is_digit_def)
  then show "CHR ''/'' \<notin> set (u32_to_string w)" "u32_to_string w \<notin> {[], ''.'', ''..''}"
    using d by (auto simp: list_all_iff)
  show "to_str (u32_to_string w) = Some (u32_to_string w)" using d(2) by (rule to_str_digits)
qed

end
