(* ===== verification/Fam.thy ===== *)
theory Fam
  imports Vfio_Error
begin

text \<open>
  \<open>fam.rs\<close>: allocation of a \<open>Vec<T>\<close> large enough for a \<open>T\<close> followed by a flexible array of
  \<open>count\<close> elements. A \<open>Vec<T>\<close> is the list of its elements; \<open>size_t\<close> and \<open>size_f\<close> are
  \<open>size_of::<T>()\<close> and \<open>size_of::<F>()\<close>, and \<open>dflt\<close> is \<open>T::default()\<close>.
\<close>

section \<open>Allocation\<close>

text \<open>
  \<open>Vec::with_capacity\<close> panics when the capacity in bytes exceeds \<open>isize::MAX\<close>; a failing allocator
  aborts the process and is not modelled.
\<close>

definition isize_max :: nat where
  "isize_max = 9223372036854775807"

definition vec_with_capacity :: "nat \<Rightarrow> usize \<Rightarrow> unit res" where
  "vec_with_capacity size_t n =
     (if isize_max < unat n * size_t then Panic ''capacity overflow'' else Ok ())"

fun res_bind :: "'a res \<Rightarrow> ('a \<Rightarrow> 'b res) \<Rightarrow> 'b res" where
  "res_bind (Ok a) f = f a"
| "res_bind (Err e) f = Err e"
| "res_bind (Panic m) f = Panic m"
| "res_bind (UB m) f = UB m"
| "res_bind Diverges f = Diverges"

definition vec_with_size_in_bytes :: "bool \<Rightarrow> usize \<Rightarrow> 'a \<Rightarrow> usize \<Rightarrow> 'a list res" where
  "vec_with_size_in_bytes oc size_t dflt size_in_bytes =
     res_bind (add_usize oc size_in_bytes size_t) (\<lambda>a.
     res_bind (sub_usize oc a 1) (\<lambda>b.
     if size_t = 0 then Panic ''attempt to divide by zero''
     else let rounded_size = b div size_t in
     res_bind (vec_with_capacity (unat size_t) rounded_size) (\<lambda>_.
     Ok (replicate (unat rounded_size) dflt))))"

definition checked_mul :: "usize \<Rightarrow> usize \<Rightarrow> usize option" where
  "checked_mul a b = (if unat a * unat b < 2 ^ 64 then Some (a * b) else None)"

definition checked_add :: "usize \<Rightarrow> usize \<Rightarrow> usize option" where
  "checked_add a b = (if unat a + unat b < 2 ^ 64 then Some (a + b) else None)"

definition vec_with_array_field :: "bool \<Rightarrow> usize \<Rightarrow> 'a \<Rightarrow> usize \<Rightarrow> usize \<Rightarrow> 'a list res" where
  "vec_with_array_field oc size_t dflt size_f count =
     (case checked_mul count size_f of
        None \<Rightarrow> Panic ''allocating too large buffer with vec_with_array_field''
      | Some element_space \<Rightarrow>
     (case checked_add element_space size_t of
        None \<Rightarrow> Panic ''allocating too large buffer with vec_with_array_field''
      | Some vec_size_bytes \<Rightarrow>
     vec_with_size_in_bytes oc size_t dflt vec_size_bytes))"

section \<open>The vector is large enough, and no larger than rounding requires\<close>

lemma checked_mul_Some: "checked_mul a b = Some c \<Longrightarrow> unat c = unat a * unat b"
  by (auto simp: checked_mul_def unat_word_ariths split: if_splits)

lemma checked_add_Some: "checked_add a b = Some c \<Longrightarrow> unat c = unat a + unat b"
  by (auto simp: checked_add_def unat_word_ariths split: if_splits)

lemma unat_one_u64 [simp]: "unat (1 :: u64) = 1"
  by simp

text \<open>The rounding computation when it does not overflow.\<close>

lemma vec_with_size_in_bytes_fits:
  assumes "unat n + unat sz < 2 ^ 64" "0 < unat sz"
  shows "vec_with_size_in_bytes oc sz d n =
    (if isize_max < (unat n + unat sz - 1) div unat sz * unat sz then Panic ''capacity overflow''
     else Ok (replicate ((unat n + unat sz - 1) div unat sz) d))"
proof -
  have sum: "unat (n + sz) = unat n + unat sz"
    using assms(1) by (simp add: unat_word_ariths)
  have ge: "(1 :: u64) \<le> n + sz"
    using sum assms(2) by (simp add: word_le_nat_alt)
  then have diff: "unat (n + sz - 1) = unat n + unat sz - 1"
    using sum by (simp add: unat_sub)
  have quot: "unat ((n + sz - 1) div sz) = (unat n + unat sz - 1) div unat sz"
    using diff by (simp add: unat_div)
  have nz: "sz \<noteq> 0" "n + sz \<noteq> 0" using assms(2) ge by auto
  show ?thesis
    using assms(1) ge nz
    by (simp add: vec_with_size_in_bytes_def add_usize_def sub_usize_def vec_with_capacity_def
        quot not_less Let_def)
qed

lemma div_round_up_ge: "0 < (a :: nat) \<Longrightarrow> n \<le> (n + a - 1) div a * a"
proof -
  assume a: "0 < a"
  have "n + a - 1 = (n + a - 1) div a * a + (n + a - 1) mod a" by simp
  moreover have "(n + a - 1) mod a < a" using a by simp
  ultimately show ?thesis by linarith
qed

lemma div_round_up_less: "0 < (a :: nat) \<Longrightarrow> (n + a - 1) div a * a < n + a"
proof -
  assume a: "0 < a"
  have "(n + a - 1) div a * a \<le> n + a - 1" by simp
  with a show ?thesis by linarith
qed

lemma vec_with_array_field_eq:
  assumes "0 < unat size_t" "unat count * unat size_f + 2 * unat size_t \<le> isize_max"
  defines "k \<equiv> (unat count * unat size_f + unat size_t + unat size_t - 1) div unat size_t"
  shows "vec_with_array_field oc size_t dflt size_f count = Ok (replicate k dflt)"
    and "unat size_t + unat count * unat size_f \<le> k * unat size_t"
    and "k * unat size_t < unat size_t + unat count * unat size_f + unat size_t"
proof -
  let ?n = "unat count * unat size_f + unat size_t"
  have small: "?n + unat size_t < 2 ^ 64" using assms(2) by (simp add: isize_max_def)
  have mul: "checked_mul count size_f = Some (count * size_f)"
    and umul: "unat (count * size_f) = unat count * unat size_f"
    using small by (simp_all add: checked_mul_def unat_word_ariths)
  have add: "checked_add (count * size_f) size_t = Some (count * size_f + size_t)"
    and uadd: "unat (count * size_f + size_t) = ?n"
    using small umul by (simp_all add: checked_add_def unat_word_ariths)
  have lo: "?n \<le> k * unat size_t" and hi: "k * unat size_t < ?n + unat size_t"
    unfolding k_def using assms(1) by (rule div_round_up_ge, rule div_round_up_less)
  have cap: "\<not> isize_max < k * unat size_t" using hi assms(2) by linarith
  show "vec_with_array_field oc size_t dflt size_f count = Ok (replicate k dflt)"
    using vec_with_size_in_bytes_fits [of "count * size_f + size_t" size_t oc dflt] assms(1) small cap
    by (simp add: vec_with_array_field_def mul add uadd k_def)
  show "unat size_t + unat count * unat size_f \<le> k * unat size_t"
    "k * unat size_t < unat size_t + unat count * unat size_f + unat size_t"
    using lo hi by simp_all
qed

text \<open>
  C32: \<open>vec_with_array_field\<close> returns at least one element, enough bytes for the header and
  \<open>count\<close> array elements, and wastes less than one element, whenever the request stays below
  \<open>isize::MAX\<close> bytes; the result does not depend on the build profile.
\<close>

theorem vec_with_array_field_size:
  assumes "0 < unat size_t"
    and "unat count * unat size_f + 2 * unat size_t \<le> isize_max"
  shows "\<exists>v. vec_with_array_field oc size_t dflt size_f count = Ok v \<and>
    0 < length v \<and> set v = {dflt} \<and>
    unat size_t + unat count * unat size_f \<le> length v * unat size_t \<and>
    length v * unat size_t < unat size_t + unat count * unat size_f + unat size_t"
proof -
  let ?k = "(unat count * unat size_f + unat size_t + unat size_t - 1) div unat size_t"
  have "0 < ?k" using vec_with_array_field_eq(2) [OF assms] assms(1) by (cases ?k) auto
  then show ?thesis using vec_with_array_field_eq [OF assms] by (intro exI [of _ "replicate ?k dflt"]) simp
qed

theorem vec_with_array_field_size_witness:
  "\<exists>v. vec_with_array_field False 20 (0 :: u8) 4 6 = Ok v \<and> 0 < length v \<and> 44 \<le> length v * 20"
  using vec_with_array_field_size [of "20 :: usize" 6 4 False "0 :: u8"]
  by (auto simp: isize_max_def)

text \<open>
  When the byte count of header and array does not fit \<open>usize\<close>, \<open>vec_with_array_field\<close> panics
  with its own message in both build profiles: it never returns a truncated vector then.
\<close>

lemma vec_with_array_field_overflow:
  assumes "2 ^ 64 \<le> unat count * unat size_f + unat size_t"
  shows "vec_with_array_field oc size_t dflt size_f count =
    Panic ''allocating too large buffer with vec_with_array_field''"
proof (cases "checked_mul count size_f")
  case None
  then show ?thesis by (simp add: vec_with_array_field_def)
next
  case (Some e)
  then have "unat e = unat count * unat size_f" by (rule checked_mul_Some)
  then have "checked_add e size_t = None" using assms by (simp add: checked_add_def)
  then show ?thesis using Some by (simp add: vec_with_array_field_def)
qed

lemma vec_with_array_field_overflow_instance:
  "vec_with_array_field False 8 (0 :: u8) 16 18446744073709551615 =
    Panic ''allocating too large buffer with vec_with_array_field''"
  by (rule vec_with_array_field_overflow) simp

text \<open>
  The sum \<open>size_in_bytes + size_of::<T>() - 1\<close> of \<open>vec_with_size_in_bytes\<close> is not checked: built
  without overflow checks it wraps for a byte count within one element of \<open>usize::MAX\<close>, and the
  vector is then empty although its documentation promises at least the requested bytes. With
  overflow checks it panics. No caller in the crate reaches such sizes.
\<close>

lemma vec_with_size_in_bytes_wraps:
  "vec_with_size_in_bytes False 20 (0 :: u8) (- 4) = Ok []"
  "\<exists>m. vec_with_size_in_bytes True 20 (0 :: u8) (- 4) = Panic m"
  by (simp_all add: vec_with_size_in_bytes_def add_usize_def sub_usize_def vec_with_capacity_def
      isize_max_def)

end
