(* ===== verification/Device_Info.thy ===== *)
theory Device_Info
  imports Vfio_Ioctls Fam Hash_Map
begin

text \<open>
  \<open>VfioDeviceInfo\<close> of \<open>vfio_device.rs\<close>: reading the interrupts and regions of a device. The hard part
  is \<open>get_region_map\<close>, which follows a chain of capability headers through raw memory that the
  kernel filled. The model keeps the memory as bytes: a read outside the vector or at an offset that
  is not aligned for the structure is \<open>UB\<close>, and a chain that never ends is \<open>Diverges\<close>.
\<close>

section \<open>Data\<close>

record VfioIrq =
  irq_flags :: u32
  irq_index :: u32
  irq_count :: u32

record VfioRegionSparseMmapArea =
  area_offset :: u64
  area_size :: u64

record VfioRegionInfoCapType =
  cap_type :: u32
  cap_subtype :: u32

datatype VfioRegionInfoCap =
    SparseMmap "VfioRegionSparseMmapArea list"
  | Type VfioRegionInfoCapType
  | MsixMappable
  | Nvlink2Ssatgt u64
  | Nvlink2Lnkspd u32

record VfioRegion =
  reg_flags :: u32
  reg_size :: u64
  reg_offset :: u64
  reg_caps :: "VfioRegionInfoCap list"

record VfioDeviceInfo =
  vdi_device :: fd
  vdi_flags :: u32
  vdi_num_regions :: u32
  vdi_num_irqs :: u32

definition VfioDeviceInfo_new :: "fd \<Rightarrow> vfio_device_info \<Rightarrow> VfioDeviceInfo" where
  "VfioDeviceInfo_new device dev_info =
     \<lparr>vdi_device = device, vdi_flags = di_flags dev_info,
      vdi_num_regions = di_num_regions dev_info, vdi_num_irqs = di_num_irqs dev_info\<rparr>"

text \<open>The range \<open>lo..hi\<close> of a Rust \<open>for\<close> loop over \<open>u32\<close>.\<close>

definition u32_range :: "u32 \<Rightarrow> u32 \<Rightarrow> u32 list" where
  "u32_range lo hi = map word_of_nat [unat lo ..< unat hi]"

section \<open>Interrupts\<close>

definition irq_info_request :: "u32 \<Rightarrow> vfio_irq_info" where
  "irq_info_request index =
     \<lparr>ii_argsz = word_of_nat (size_of vfio_irq_info_ty), ii_flags = 0, ii_index = index, ii_count = 0\<rparr>"

fun get_irqs_loop ::
  "'k vfio_syscall \<Rightarrow> fd \<Rightarrow> u32 list \<Rightarrow> (u32, VfioIrq) hm \<Rightarrow> ('k, (u32, VfioIrq) hm) io" where
  "get_irqs_loop S d [] irqs = ret irqs"
| "get_irqs_loop S d (index # rest) irqs =
     bind (attempt (sys_get_device_irq_info S d (irq_info_request index))) (\<lambda>r. case r of
       Inl _ \<Rightarrow> get_irqs_loop S d rest irqs
     | Inr irq_info \<Rightarrow>
         get_irqs_loop S d rest
           (hm_insert index
              \<lparr>irq_flags = ii_flags irq_info, irq_index = index, irq_count = ii_count irq_info\<rparr> irqs))"

definition get_irqs :: "'k vfio_syscall \<Rightarrow> VfioDeviceInfo \<Rightarrow> ('k, (u32, VfioIrq) hm) io" where
  "get_irqs S info = get_irqs_loop S (vdi_device info) (u32_range 0 (vdi_num_irqs info)) hm_new"

section \<open>The capability chain of a region\<close>

text \<open>\<open>vfio_region_info_with_cap\<close>: the region structure followed by a flexible array of bytes.\<close>

definition vfio_region_info_with_cap_ty :: ctype where
  [layout_simps]: "vfio_region_info_with_cap_ty =
     Struct [(''region_info'', vfio_region_info_ty), (''cap_info'', Arr (Prim 1) 0)]"

definition from_region_info :: "bool \<Rightarrow> vfio_region_info \<Rightarrow> u8 list res" where
  "from_region_info oc region_info =
     (let size_t = size_of vfio_region_info_with_cap_ty in
      res_bind (sub_usize oc (ri_argsz region_info) (word_of_nat size_region_info)) (\<lambda>cap_len.
      res_bind (vec_with_array_field oc (word_of_nat size_t) (replicate size_t 0) 1 (ucast cap_len)) (\<lambda>v.
      if v = [] then Panic ''index out of bounds''
      else Ok (write_bytes 0
        (enc_vfio_region_info
           \<lparr>ri_argsz = ri_argsz region_info, ri_flags = 0, ri_index = ri_index region_info,
            ri_cap_offset = 0, ri_size = 0, ri_offset = 0\<rparr>)
        (concat v)))))"

text \<open>
  \<open>deref_ok t off mem\<close> guards the dereference of a pointer to a structure of type \<open>t\<close> at offset \<open>off\<close>
  of the vector; the vector itself is aligned for every structure read from it.
\<close>

definition deref_ok :: "ctype \<Rightarrow> nat \<Rightarrow> u8 list \<Rightarrow> bool" where
  "deref_ok t off mem \<longleftrightarrow> align_of t dvd off \<and> off + size_of t \<le> length mem"

definition read_areas :: "nat \<Rightarrow> u8 list \<Rightarrow> VfioRegionSparseMmapArea list option" where
  "read_areas off mem =
     (case read_u32 (off + 8) mem of None \<Rightarrow> None
      | Some nr_areas \<Rightarrow>
          map_option (map (\<lambda>a. \<lparr>area_offset = sa_offset a, area_size = sa_size a\<rparr>))
            (as_slice dec_vfio_region_sparse_mmap_area (size_of vfio_region_sparse_mmap_area_ty)
               (unat nr_areas) (drop (off + size_of vfio_region_info_cap_sparse_mmap_ty) mem)))"

text \<open>One iteration: the capability found at \<open>off\<close>, if it is a known one, and the next offset.\<close>

definition read_cap_body :: "u8 list \<Rightarrow> nat \<Rightarrow> u32 \<Rightarrow> VfioRegionInfoCap option res" where
  "read_cap_body mem off cap_id =
     (if cap_id = VFIO_REGION_INFO_CAP_SPARSE_MMAP then
        (if deref_ok vfio_region_info_cap_sparse_mmap_ty off mem then
           (case read_areas off mem of None \<Rightarrow> UB ''areas outside the vector''
            | Some areas \<Rightarrow> Ok (Some (SparseMmap areas)))
         else UB ''vfio_region_info_cap_sparse_mmap'')
      else if cap_id = VFIO_REGION_INFO_CAP_TYPE then
        (if deref_ok vfio_region_info_cap_type_ty off mem then
           (case (read_u32 (off + 8) mem, read_u32 (off + 12) mem) of
              (Some type_, Some subtype) \<Rightarrow> Ok (Some (Type \<lparr>cap_type = type_, cap_subtype = subtype\<rparr>))
            | _ \<Rightarrow> UB ''vfio_region_info_cap_type'')
         else UB ''vfio_region_info_cap_type'')
      else if cap_id = VFIO_REGION_INFO_CAP_MSIX_MAPPABLE then Ok (Some MsixMappable)
      else if cap_id = VFIO_REGION_INFO_CAP_NVLINK2_SSATGT then
        (if deref_ok vfio_region_info_cap_nvlink2_ssatgt_ty off mem then
           (case read_u64 (off + 8) mem of
              Some tgt \<Rightarrow> Ok (Some (Nvlink2Ssatgt tgt))
            | None \<Rightarrow> UB ''vfio_region_info_cap_nvlink2_ssatgt'')
         else UB ''vfio_region_info_cap_nvlink2_ssatgt'')
      else if cap_id = VFIO_REGION_INFO_CAP_NVLINK2_LNKSPD then
        (if deref_ok vfio_region_info_cap_nvlink2_lnkspd_ty off mem then
           (case read_u32 (off + 8) mem of
              Some link_speed \<Rightarrow> Ok (Some (Nvlink2Lnkspd link_speed))
            | None \<Rightarrow> UB ''vfio_region_info_cap_nvlink2_lnkspd'')
         else UB ''vfio_region_info_cap_nvlink2_lnkspd'')
      else Ok None)"

definition read_cap :: "u8 list \<Rightarrow> u32 \<Rightarrow> (VfioRegionInfoCap option \<times> u32) res" where
  "read_cap mem next_cap_offset =
     (let off = unat next_cap_offset in
      if deref_ok vfio_info_cap_header_ty off mem then
        (case dec_vfio_info_cap_header (drop off mem) of
           None \<Rightarrow> UB ''vfio_info_cap_header''
         | Some cap_header \<Rightarrow>
             res_bind (read_cap_body mem off (ucast (ch_id cap_header))) (\<lambda>cap.
             Ok (cap, ch_next cap_header)))
      else UB ''vfio_info_cap_header'')"

text \<open>
  The \<open>while\<close> loop, with fuel: \<^term>\<open>None\<close> is running out of it. One unit per byte of the vector, and
  one more, decides whether the loop ends: that is proved below.
\<close>

fun cap_walk :: "nat \<Rightarrow> u8 list \<Rightarrow> u32 \<Rightarrow> VfioRegionInfoCap list \<Rightarrow> VfioRegionInfoCap list res option" where
  "cap_walk 0 mem off caps = None"
| "cap_walk (Suc fuel) mem off caps =
     (if unat off < size_region_info then Some (Ok caps)
      else (case read_cap mem off of
        Ok (cap, next) \<Rightarrow> cap_walk fuel mem next (caps @ (case cap of None \<Rightarrow> [] | Some c \<Rightarrow> [c]))
      | Err e \<Rightarrow> Some (Err e)
      | Panic m \<Rightarrow> Some (Panic m)
      | UB m \<Rightarrow> Some (UB m)
      | Diverges \<Rightarrow> Some Diverges))"

definition cap_loop :: "u8 list \<Rightarrow> u32 \<Rightarrow> VfioRegionInfoCap list \<Rightarrow> VfioRegionInfoCap list res" where
  "cap_loop mem off caps =
     (case cap_walk (Suc (length mem)) mem off caps of None \<Rightarrow> Diverges | Some r \<Rightarrow> r)"

definition get_region_map ::
  "bool \<Rightarrow> 'k vfio_syscall \<Rightarrow> VfioDeviceInfo \<Rightarrow> VfioRegion \<Rightarrow> vfio_region_info \<Rightarrow> ('k, VfioRegion) io" where
  "get_region_map oc S info region region_info =
     (if ri_flags region_info AND VFIO_REGION_INFO_FLAG_CAPS = 0 \<or>
         ri_argsz region_info \<le> word_of_nat size_region_info
      then ret region
      else
        bind (lift (from_region_info oc region_info)) (\<lambda>mem.
        bind (sys_get_device_region_info_cap S (vdi_device info) mem) (\<lambda>region_with_cap.
        case read_u32 12 region_with_cap of
          None \<Rightarrow> lift (UB ''region_with_cap[0]'')
        | Some cap_offset \<Rightarrow>
            if size_region_info \<le> unat cap_offset then
              bind (lift (cap_loop region_with_cap cap_offset (reg_caps region))) (\<lambda>caps.
              ret (region\<lparr>reg_caps := caps\<rparr>))
            else ret region)))"

section \<open>Regions\<close>

definition region_info_request :: "u32 \<Rightarrow> vfio_region_info" where
  "region_info_request i =
     \<lparr>ri_argsz = word_of_nat size_region_info, ri_flags = 0, ri_index = i, ri_cap_offset = 0,
      ri_size = 0, ri_offset = 0\<rparr>"

fun get_regions_loop ::
  "bool \<Rightarrow> 'k vfio_syscall \<Rightarrow> VfioDeviceInfo \<Rightarrow> u32 list \<Rightarrow> VfioRegion list \<Rightarrow> ('k, VfioRegion list) io" where
  "get_regions_loop oc S info [] regions = ret regions"
| "get_regions_loop oc S info (i # rest) regions =
     bind (attempt (sys_get_device_region_info S (vdi_device info) (region_info_request i))) (\<lambda>r. case r of
       Inl _ \<Rightarrow> get_regions_loop oc S info rest regions
     | Inr reg_info \<Rightarrow>
         bind (attempt (get_region_map oc S info
           \<lparr>reg_flags = ri_flags reg_info, reg_size = ri_size reg_info,
            reg_offset = ri_offset reg_info, reg_caps = []\<rparr> reg_info)) (\<lambda>q. case q of
           Inl _ \<Rightarrow> get_regions_loop oc S info rest regions
         | Inr region \<Rightarrow> get_regions_loop oc S info rest (regions @ [region])))"

definition get_regions :: "bool \<Rightarrow> 'k vfio_syscall \<Rightarrow> VfioDeviceInfo \<Rightarrow> ('k, VfioRegion list) io" where
  "get_regions oc S info =
     get_regions_loop oc S info (u32_range VFIO_PCI_BAR0_REGION_INDEX (vdi_num_regions info)) []"

section \<open>Sizes and alignments used above\<close>

lemma layout_eval [simp]:
  "size_of vfio_region_info_ty = 32" "size_of vfio_region_info_with_cap_ty = 32"
  "size_of vfio_info_cap_header_ty = 8" "align_of vfio_info_cap_header_ty = 4"
  "size_of vfio_region_info_cap_sparse_mmap_ty = 16" "align_of vfio_region_info_cap_sparse_mmap_ty = 8"
  "size_of vfio_region_sparse_mmap_area_ty = 16"
  "size_of vfio_region_info_cap_type_ty = 16" "align_of vfio_region_info_cap_type_ty = 4"
  "size_of vfio_region_info_cap_nvlink2_ssatgt_ty = 16" "align_of vfio_region_info_cap_nvlink2_ssatgt_ty = 8"
  "size_of vfio_region_info_cap_nvlink2_lnkspd_ty = 16" "align_of vfio_region_info_cap_nvlink2_lnkspd_ty = 4"
  "size_of vfio_irq_set_ty = 20" "size_of vfio_irq_info_ty = 16" "size_of vfio_group_status_ty = 8"
  "size_of vfio_device_info_ty = 16" "size_of vfio_iommu_type1_dma_map_ty = 32"
  "size_of vfio_iommu_type1_dma_unmap_ty = 24"
  by code_simp+

section \<open>Interrupt table\<close>

lemma set_u32_range: "set (u32_range lo hi) = {lo ..< hi}"
proof -
  have "x \<in> word_of_nat ` {unat lo ..< unat hi} \<longleftrightarrow> lo \<le> x \<and> x < hi" for x :: u32
  proof
    assume "x \<in> word_of_nat ` {unat lo ..< unat hi}"
    then obtain n where "x = word_of_nat n" "unat lo \<le> n" "n < unat hi" by auto
    moreover from this have "unat x = n"
      using unat_lt_u32 [of hi] by (simp add: unat_u32_of_nat)
    ultimately show "lo \<le> x \<and> x < hi" by (simp add: word_le_nat_alt word_less_nat_alt)
  next
    assume "lo \<le> x \<and> x < hi"
    then show "x \<in> word_of_nat ` {unat lo ..< unat hi}"
      by (intro image_eqI [of _ _ "unat x"]) (simp_all add: word_le_nat_alt word_less_nat_alt)
  qed
  then show ?thesis
    by (intro set_eqI) (simp only: u32_range_def set_map set_upt atLeastLessThan_iff)
qed

lemma length_u32_range [simp]: "length (u32_range lo hi) = unat hi - unat lo"
  by (simp add: u32_range_def)

lemma nth_u32_range_0: "i < unat hi \<Longrightarrow> u32_range 0 hi ! i = word_of_nat i"
  by (simp add: u32_range_def)

definition irq_of :: "u32 \<Rightarrow> vfio_irq_info \<Rightarrow> VfioIrq" where
  "irq_of i info = \<lparr>irq_flags = ii_flags info, irq_index = i, irq_count = ii_count info\<rparr>"

lemma get_irqs_loop_wf:
  assumes "get_irqs_loop S d is irqs k = (Ok irqs', k')" "hm_inv irqs"
    and "\<forall>i v. hm_get irqs i = Some v \<longrightarrow> irq_index v = i"
  shows "hm_inv irqs' \<and> (\<forall>i v. hm_get irqs' i = Some v \<longrightarrow>
    irq_index v = i \<and> (hm_get irqs i = Some v \<or> i \<in> set is))"
  using assms
proof (induction "is" arbitrary: irqs k)
  case (Cons i "is")
  from Cons.prems(1) show ?case
    unfolding get_irqs_loop.simps bind_Ok_iff
  proof (elim exE conjE)
    fix r s1
    assume r: "(case r of Inl _ \<Rightarrow> get_irqs_loop S d is irqs
       | Inr irq_info \<Rightarrow> get_irqs_loop S d is (hm_insert i
           \<lparr>irq_flags = ii_flags irq_info, irq_index = i, irq_count = ii_count irq_info\<rparr> irqs)) s1 = (Ok irqs', k')"
    show ?thesis
    proof (cases r)
      case (Inl e)
      with r Cons.IH [of irqs s1] Cons.prems(2,3) show ?thesis by auto
    next
      case (Inr x)
      let ?m = "hm_insert i \<lparr>irq_flags = ii_flags x, irq_index = i, irq_count = ii_count x\<rparr> irqs"
      have "hm_inv ?m" using Cons.prems(2) by (rule hm.invar_insert)
      moreover have "\<forall>j v. hm_get ?m j = Some v \<longrightarrow> irq_index v = j"
        using Cons.prems(2,3) by (auto simp: hm.get_insert)
      ultimately show ?thesis
        using r Inr Cons.IH [of ?m s1] Cons.prems(2) by (fastforce simp: hm.get_insert split: if_splits)
    qed
  qed
qed (auto simp: ret_def)

lemma get_irqs_loop_exact:
  assumes "\<And>i k. i \<in> set is \<Longrightarrow> sys_get_device_irq_info S d (irq_info_request i) k = (q i, k)"
    and "\<And>i. i \<in> set is \<Longrightarrow> graceful (q i)" and "hm_inv irqs"
  shows "\<exists>irqs'. get_irqs_loop S d is irqs k = (Ok irqs', k) \<and> hm_inv irqs' \<and>
    (\<forall>i. hm_get irqs' i = (if i \<in> set is then
       (case q i of Ok x \<Rightarrow> Some (irq_of i x) | _ \<Rightarrow> hm_get irqs i) else hm_get irqs i))"
  using assms
proof (induction "is" arbitrary: irqs)
  case (Cons i "is")
  have q: "sys_get_device_irq_info S d (irq_info_request i) k = (q i, k)" using Cons.prems(1) by simp
  from Cons.prems(2) have "graceful (q i)" by simp
  then show ?case
  proof (cases rule: graceful_cases)
    case (1 x)
    let ?m = "hm_insert i (irq_of i x) irqs"
    have "hm_inv ?m" using Cons.prems(3) by (rule hm.invar_insert)
    then obtain irqs' where I: "get_irqs_loop S d is ?m k = (Ok irqs', k)" "hm_inv irqs'"
      "\<forall>j. hm_get irqs' j = (if j \<in> set is then
         (case q j of Ok x \<Rightarrow> Some (irq_of j x) | _ \<Rightarrow> hm_get ?m j) else hm_get ?m j)"
      using Cons.IH [of ?m] Cons.prems(1,2) by auto
    show ?thesis
    proof (intro exI conjI allI)
      show "get_irqs_loop S d (i # is) irqs k = (Ok irqs', k)"
        using I(1) q 1 by (simp add: bind_def attempt_def irq_of_def)
      show "hm_inv irqs'" by (rule I(2))
      show "hm_get irqs' j = (if j \<in> set (i # is) then
         (case q j of Ok x \<Rightarrow> Some (irq_of j x) | _ \<Rightarrow> hm_get irqs j) else hm_get irqs j)" for j
        using I(3) 1 by (auto simp: hm.get_insert [OF Cons.prems(3)] split: res.splits)
    qed
  next
    case (2 e)
    then show ?thesis
      using Cons.IH [of irqs] Cons.prems q by (force simp: bind_def attempt_def)
  qed
qed (simp add: ret_def)

text \<open>
  C23: when reading interrupt information does not change the kernel, \<open>get_irqs\<close> always succeeds and
  its table holds exactly the indexes below \<open>num_irqs\<close> whose query succeeded, each with the
  reported flags and count; failing indexes are left out and nothing else is affected by them.
\<close>

theorem get_irqs_exact:
  assumes query: "\<And>i k. i < vdi_num_irqs info \<Longrightarrow>
      sys_get_device_irq_info S (vdi_device info) (irq_info_request i) k = (q i, k)"
    and graceful: "\<And>i. i < vdi_num_irqs info \<Longrightarrow> graceful (q i)"
  shows "\<exists>irqs. get_irqs S info k = (Ok irqs, k) \<and> hm_inv irqs \<and>
    (\<forall>i. hm_get irqs i =
      (if i < vdi_num_irqs info then
         (case q i of Ok x \<Rightarrow> Some (irq_of i x) | _ \<Rightarrow> None) else None))"
  unfolding get_irqs_def
  using get_irqs_loop_exact [of "u32_range 0 (vdi_num_irqs info)" S "vdi_device info" q hm_new k] assms
  by (simp only: set_u32_range hm.invar_empty hm.get_empty atLeastLessThan_iff word_zero_le simp_thms)

lemma get_irqs_wf:
  assumes "get_irqs S info k = (Ok irqs, k')"
  shows "hm_inv irqs \<and> (\<forall>i v. hm_get irqs i = Some v \<longrightarrow> irq_index v = i \<and> i < vdi_num_irqs info)"
  using get_irqs_loop_wf [OF assms [unfolded get_irqs_def] hm.invar_empty]
  by (simp add: hm.get_empty set_u32_range)

section \<open>The capability loop\<close>

text \<open>Positions the loop visits.\<close>

definition cap_next :: "u8 list \<Rightarrow> u32 \<Rightarrow> u32 option" where
  "cap_next mem off =
     (if unat off < size_region_info then None
      else (case read_cap mem off of Ok (_, n) \<Rightarrow> Some n | _ \<Rightarrow> None))"

fun cap_pos :: "u8 list \<Rightarrow> nat \<Rightarrow> u32 \<Rightarrow> u32 option" where
  "cap_pos mem 0 off = Some off"
| "cap_pos mem (Suc n) off = Option.bind (cap_next mem off) (cap_pos mem n)"

lemma cap_walk_None_iff: "cap_walk n mem off caps = None \<longleftrightarrow> cap_pos mem n off \<noteq> None"
proof (induction n arbitrary: off caps)
  case (Suc n)
  then show ?case
    by (cases "read_cap mem off") (auto simp: cap_next_def split: prod.splits)
qed simp

lemma cap_walk_Suc: "cap_walk n mem off caps = Some r \<Longrightarrow> cap_walk (Suc n) mem off caps = Some r"
proof (induction n arbitrary: off caps)
  case (Suc n)
  then show ?case
    by (cases "read_cap mem off")
      (auto split: prod.splits if_splits simp del: cap_walk.simps(2) simp add: cap_walk.simps(2) [of _ mem off])
qed simp

lemma cap_walk_mono: "cap_walk n mem off caps = Some r \<Longrightarrow> n \<le> m \<Longrightarrow> cap_walk m mem off caps = Some r"
  using cap_walk_Suc by (induction m) (auto simp: le_Suc_eq simp del: cap_walk.simps)

lemma cap_pos_add: "cap_pos mem (a + b) off = Option.bind (cap_pos mem a off) (cap_pos mem b)"
  by (induction a arbitrary: off) (auto split: bind_splits)

lemma cap_pos_le: "cap_pos mem n off \<noteq> None \<Longrightarrow> m \<le> n \<Longrightarrow> cap_pos mem m off \<noteq> None"
  using cap_pos_add [of mem m "n - m" off] by (auto split: bind_splits)

lemma cap_pos_cycle: "cap_pos mem d p = Some p \<Longrightarrow> cap_pos mem (m * d) p = Some p"
  by (induction m) (simp_all add: cap_pos_add)

lemma cap_next_inside: "cap_next mem off = Some n \<Longrightarrow> unat off < length mem"
  by (auto simp: cap_next_def read_cap_def deref_ok_def Let_def split: if_splits)

lemma cap_pos_repeats:
  assumes "cap_pos mem (Suc (length mem)) off \<noteq> None"
  obtains i j p where "i < j" "cap_pos mem i off = Some p" "cap_pos mem j off = Some p"
proof -
  let ?f = "\<lambda>i. the (cap_pos mem i off)"
  let ?I = "{0 .. length mem}"
  have defd: "cap_pos mem i off = Some (?f i)" if "i \<le> length mem" for i
    using cap_pos_le [OF assms, of i] that by simp
  have "unat (?f i) < length mem" if "i \<in> ?I" for i
  proof -
    have "cap_pos mem (i + 1) off \<noteq> None" using cap_pos_le [OF assms, of "i + 1"] that by simp
    then have "Option.bind (cap_pos mem i off) (cap_pos mem 1) \<noteq> None"
      by (simp only: cap_pos_add not_False_eq_True)
    then have "cap_next mem (?f i) \<noteq> None" using defd [of i] that by (auto split: bind_splits)
    then show ?thesis by (auto dest: cap_next_inside)
  qed
  then have "(\<lambda>i. unat (?f i)) ` ?I \<subseteq> {0 ..< length mem}" by auto
  then have "card ((\<lambda>i. unat (?f i)) ` ?I) < card ?I"
    using card_mono [of "{0 ..< length mem}" "(\<lambda>i. unat (?f i)) ` ?I"] by simp
  then have "\<not> inj_on (\<lambda>i. unat (?f i)) ?I" by (rule pigeonhole)
  then obtain i j where "i \<in> ?I" "j \<in> ?I" "i \<noteq> j" "?f i = ?f j"
    unfolding inj_on_def by (auto simp: word_unat_eq_iff)
  then show thesis
    using that [of i j "?f i"] that [of j i "?f i"] defd [of i] defd [of j] by (metis atLeastAtMost_iff linorder_neqE_nat)
qed

lemma cap_pos_forever:
  assumes "cap_pos mem (Suc (length mem)) off \<noteq> None"
  shows "cap_pos mem n off \<noteq> None"
proof -
  obtain i j p where ij: "i < j" "cap_pos mem i off = Some p" "cap_pos mem j off = Some p"
    using cap_pos_repeats [OF assms] by metis
  have "cap_pos mem (j - i) p = Some p"
    using cap_pos_add [of mem i "j - i" off] ij by simp
  then have "cap_pos mem (n * (j - i)) p = Some p" by (rule cap_pos_cycle)
  then have "cap_pos mem (i + n * (j - i)) off = Some p" using ij by (simp add: cap_pos_add)
  moreover have "n \<le> i + n * (j - i)" using ij(1) by (cases "j - i") auto
  ultimately show ?thesis using cap_pos_le [of mem "i + n * (j - i)" off n] by simp
qed

lemma read_cap_not_Diverges: "read_cap mem off \<noteq> Diverges"
  by (auto simp: read_cap_def read_cap_body_def Let_def split: option.splits)

lemma cap_walk_not_Diverges: "cap_walk n mem off caps \<noteq> Some Diverges"
  by (induction n arbitrary: off caps)
    (auto split: res.splits simp: read_cap_not_Diverges)

lemma cap_loop_iff:
  "cap_loop mem off caps = r \<longleftrightarrow>
     (if r = Diverges then \<forall>n. cap_walk n mem off caps = None
      else \<exists>n. cap_walk n mem off caps = Some r)"
proof (cases "cap_walk (Suc (length mem)) mem off caps")
  case None
  then have "cap_walk n mem off caps = None" for n
    using cap_pos_forever [of mem off n] unfolding cap_walk_None_iff by blast
  then show ?thesis using None by (auto simp: cap_loop_def simp del: cap_walk.simps)
next
  case (Some r')
  have loop: "cap_loop mem off caps = r'" by (simp only: cap_loop_def Some option.case)
  have div: "r' \<noteq> Diverges" using Some cap_walk_not_Diverges by metis
  have same: "cap_walk n mem off caps = Some r'' \<Longrightarrow> r'' = r'" for n r''
    using Some cap_walk_mono [of n mem off caps r'' "max n (Suc (length mem))"]
      cap_walk_mono [of "Suc (length mem)" mem off caps r' "max n (Suc (length mem))"] by simp
  show ?thesis
  proof (cases "r = Diverges")
    case True
    have "\<not> (\<forall>n. cap_walk n mem off caps = None)" using Some by (metis option.distinct(1))
    then show ?thesis using True loop div by (simp del: cap_walk.simps)
  next
    case False
    have "r' = r \<longleftrightarrow> (\<exists>n. cap_walk n mem off caps = Some r)" using same Some by blast
    then show ?thesis using False loop by (simp only: if_False)
  qed
qed


text \<open>
  The chain in memory: \<open>next_header mem p n\<close> says that the capability at offset \<open>p\<close>, behind the region
  structure, can be read and that its header names \<open>n\<close> as the next offset.
\<close>

definition next_header :: "u8 list \<Rightarrow> u32 \<Rightarrow> u32 \<Rightarrow> bool" where
  "next_header mem p n \<longleftrightarrow> size_region_info \<le> unat p \<and> (\<exists>cap. read_cap mem p = Ok (cap, n))"

lemma cap_next_iff: "cap_next mem p = Some n \<longleftrightarrow> next_header mem p n"
  by (auto simp: cap_next_def next_header_def split: res.splits prod.splits)

lemma cap_pos_relpowp: "cap_pos mem i off = Some p \<longleftrightarrow> (next_header mem ^^ i) off p"
proof (induction i arbitrary: off)
  case (Suc i)
  have "cap_pos mem (Suc i) off = Some p \<longleftrightarrow> (\<exists>n. next_header mem off n \<and> (next_header mem ^^ i) n p)"
    by (auto simp: cap_next_iff [symmetric] Suc.IH [symmetric] split: bind_splits)
  also have "\<dots> \<longleftrightarrow> (next_header mem ^^ Suc i) off p"
    using relpowp_Suc_D2 [of i "next_header mem" off p] relpowp_Suc_I2 [of "next_header mem" off _ i p]
    by blast
  finally show ?case .
qed auto

lemma cap_loop_Diverges_iff: "cap_loop mem off caps = Diverges \<longleftrightarrow> (\<forall>n. cap_pos mem n off \<noteq> None)"
  unfolding cap_loop_iff by (simp add: cap_walk_None_iff del: cap_walk.simps)

text \<open>
  C21: when the loop of \<open>get_region_map\<close> ends, for any memory contents: it runs forever exactly if the
  chain of headers that starts at \<open>cap_offset\<close> comes back to a header it has passed. On every other chain
  it returns the capabilities or stops at an invalid access.
\<close>

theorem cap_loop_terminates:
  "cap_loop mem off caps = Diverges \<longleftrightarrow>
     (\<exists>p. (next_header mem)\<^sup>*\<^sup>* off p \<and> (next_header mem)\<^sup>+\<^sup>+ p p)"
proof
  assume "cap_loop mem off caps = Diverges"
  then have "cap_pos mem (Suc (length mem)) off \<noteq> None" unfolding cap_loop_Diverges_iff by blast
  then obtain i j p where ij: "i < j" "cap_pos mem i off = Some p" "cap_pos mem j off = Some p"
    by (rule cap_pos_repeats)
  have "cap_pos mem (j - i) p = Some p" using cap_pos_add [of mem i "j - i" off] ij by simp
  then have "(next_header mem)\<^sup>+\<^sup>+ p p"
    using ij(1) unfolding cap_pos_relpowp tranclp_power by (metis zero_less_diff)
  moreover have "(next_header mem)\<^sup>*\<^sup>* off p" using ij(2) unfolding cap_pos_relpowp rtranclp_power by blast
  ultimately show "\<exists>p. (next_header mem)\<^sup>*\<^sup>* off p \<and> (next_header mem)\<^sup>+\<^sup>+ p p" by blast
next
  assume "\<exists>p. (next_header mem)\<^sup>*\<^sup>* off p \<and> (next_header mem)\<^sup>+\<^sup>+ p p"
  then obtain p i d where p: "cap_pos mem i off = Some p" "0 < d" "cap_pos mem d p = Some p"
    unfolding cap_pos_relpowp rtranclp_power tranclp_power by blast
  show "cap_loop mem off caps = Diverges"
    unfolding cap_loop_Diverges_iff
  proof
    fix n
    have "cap_pos mem (i + n * d) off = Some p" using cap_pos_cycle [OF p(3)] p(1) by (simp add: cap_pos_add)
    moreover have "n \<le> i + n * d" using p(2) by (cases d) auto
    ultimately show "cap_pos mem n off \<noteq> None" using cap_pos_le [of mem "i + n * d" off n] by simp
  qed
qed

section \<open>The memory image of a capability chain\<close>

text \<open>
  How the kernel lays a list of capabilities out behind the region structure: each starts with a
  header (identifier, version, offset of the next header) and is a multiple of 8 bytes long. The
  last header carries \<open>stop\<close>, an offset inside the region structure (the kernel writes 0).
\<close>

fun cap_ident :: "VfioRegionInfoCap \<Rightarrow> u32" where
  "cap_ident (SparseMmap _) = VFIO_REGION_INFO_CAP_SPARSE_MMAP"
| "cap_ident (Type _) = VFIO_REGION_INFO_CAP_TYPE"
| "cap_ident MsixMappable = VFIO_REGION_INFO_CAP_MSIX_MAPPABLE"
| "cap_ident (Nvlink2Ssatgt _) = VFIO_REGION_INFO_CAP_NVLINK2_SSATGT"
| "cap_ident (Nvlink2Lnkspd _) = VFIO_REGION_INFO_CAP_NVLINK2_LNKSPD"

definition area_image :: "VfioRegionSparseMmapArea \<Rightarrow> u8 list" where
  "area_image a = enc_vfio_region_sparse_mmap_area \<lparr>sa_offset = area_offset a, sa_size = area_size a\<rparr>"

fun cap_body :: "VfioRegionInfoCap \<Rightarrow> u8 list" where
  "cap_body (SparseMmap areas) =
     le_bytes 4 (length areas) @ le_bytes 4 0 @ concat (map area_image areas)"
| "cap_body (Type t) = le_bytes 4 (unat (cap_type t)) @ le_bytes 4 (unat (cap_subtype t))"
| "cap_body MsixMappable = []"
| "cap_body (Nvlink2Ssatgt tgt) = le_bytes 8 (unat tgt)"
| "cap_body (Nvlink2Lnkspd speed) = le_bytes 4 (unat speed) @ le_bytes 4 0"

definition cap_image :: "u16 \<Rightarrow> u32 \<Rightarrow> VfioRegionInfoCap \<Rightarrow> u8 list" where
  "cap_image version next cap =
     enc_vfio_info_cap_header \<lparr>ch_id = ucast (cap_ident cap), ch_version = version, ch_next = next\<rparr>
     @ cap_body cap"

fun chain_image :: "u32 \<Rightarrow> nat \<Rightarrow> (u16 \<times> VfioRegionInfoCap) list \<Rightarrow> u8 list" where
  "chain_image stop off [] = []"
| "chain_image stop off ((v, c) # cs) =
     (let n = off + 8 + length (cap_body c) in
      cap_image v (if cs = [] then stop else word_of_nat n) c @ chain_image stop n cs)"

lemma read_at_prefix:
  "read_u32 (length pre + i) (pre @ xs) = read_u32 i xs"
  "read_u64 (length pre + i) (pre @ xs) = read_u64 i xs"
  by (simp_all add: read_u32_def read_u64_def read_bytes_append_right)

lemma length_area_image [simp]: "length (area_image a) = 16"
  by (simp add: area_image_def sa_codec.length_enc)

lemma length_areas [simp]: "length (concat (map area_image areas)) = 16 * length areas"
  by (induction areas) auto

lemma length_cap_body_8: "8 dvd length (cap_body c)"
  by (cases c) auto

lemma length_cap_image [simp]: "length (cap_image v n c) = 8 + length (cap_body c)"
  by (simp add: cap_image_def ch_codec.length_enc)

lemma areas_as_slice:
  "map_option (map (\<lambda>a. \<lparr>area_offset = sa_offset a, area_size = sa_size a\<rparr>))
     (as_slice dec_vfio_region_sparse_mmap_area 16 (length areas) (concat (map area_image areas) @ rest))
   = Some areas"
proof -
  let ?f = "\<lambda>a. \<lparr>sa_offset = area_offset a, sa_size = area_size a\<rparr>"
  have "concat (map area_image areas) =
      concat (map enc_vfio_region_sparse_mmap_area (map ?f areas))"
    by (simp add: area_image_def [abs_def] comp_def)
  then have "as_slice dec_vfio_region_sparse_mmap_area 16 (length areas)
      (concat (map area_image areas) @ rest) = Some (map ?f areas)"
    using sa_codec.as_slice_enc [of "map ?f areas" rest] by simp
  moreover have "map (\<lambda>x. \<lparr>area_offset = area_offset x, area_size = area_size x\<rparr>) areas = areas"
    by (simp add: map_idI)
  ultimately show ?thesis by (simp add: comp_def)
qed

lemma read_header_prefix:
  "dec_vfio_info_cap_header (cap_image v n c @ post) =
     Some \<lparr>ch_id = ucast (cap_ident c), ch_version = v, ch_next = n\<rparr>"
  by (simp add: cap_image_def ch_codec.dec_enc)

lemma cap_ident_u16: "ucast (ucast (cap_ident c) :: u16) = cap_ident c"
  by (cases c) (simp_all add: const_defs)

lemma read_after_header:
  "read_u32 (length pre + 8) (pre @ cap_image v n c @ post) = read_u32 0 (cap_body c @ post)"
  "read_u32 (length pre + 12) (pre @ cap_image v n c @ post) = read_u32 4 (cap_body c @ post)"
  "read_u64 (length pre + 8) (pre @ cap_image v n c @ post) = read_u64 0 (cap_body c @ post)"
  by (simp_all add: read_at_prefix cap_image_def enc_vfio_info_cap_header_def)

lemma read_cap_image:
  assumes "off = length pre" "8 dvd off" "length (pre @ cap_image v n c @ post) < 2 ^ 32"
  shows "read_cap (pre @ cap_image v n c @ post) (word_of_nat off) = Ok (Some c, n)"
proof -
  let ?mem = "pre @ cap_image v n c @ post"
  have off: "unat (word_of_nat (length pre) :: u32) = length pre"
    using assms by (simp add: unat_u32_of_nat)
  have four: "4 dvd length pre" using assms(1,2) by presburger
  have body: "read_cap_body ?mem (length pre) (cap_ident c) = Ok (Some c)"
  proof (cases c)
    case (SparseMmap areas)
    have "length areas < 4294967296" using assms(3) SparseMmap by simp
    then have len: "le_nat (le_bytes 4 (length areas)) = length areas"
      by (simp add: le_nat_le_bytes)
    have nr: "read_u32 (length pre + 8) ?mem = Some (word_of_nat (length areas))"
      using len by (simp add: read_after_header SparseMmap)
        (simp add: read_u32_def read_bytes_prefix)
    have drp: "drop (length pre + 16) ?mem = concat (map area_image areas) @ post"
      by (simp add: SparseMmap cap_image_def enc_vfio_info_cap_header_def)
    have "read_areas (length pre) ?mem = Some areas"
      using areas_as_slice [of areas post] \<open>length areas < 4294967296\<close>
      by (simp only: read_areas_def nr drp layout_eval option.case unat_u32_of_nat)
    then show ?thesis
      using assms(1,2) by (simp add: SparseMmap read_cap_body_def deref_ok_def const_defs)
  qed (use assms(1,2) four in \<open>simp_all add: read_cap_body_def deref_ok_def const_defs read_after_header\<close>)
  show ?thesis
    using body four assms(1)
    by (simp add: read_cap_def off deref_ok_def read_header_prefix cap_ident_u16)
qed


lemma cap_walk_chain:
  assumes "off = length pre" "8 dvd off" "32 \<le> off" "unat stop < 32" "cs \<noteq> []"
    and "length (pre @ chain_image stop off cs @ post) < 2 ^ 32" "length cs < fuel"
  shows "cap_walk fuel (pre @ chain_image stop off cs @ post) (word_of_nat off) caps =
    Some (Ok (caps @ map snd cs))"
  using assms
proof (induction cs arbitrary: off pre caps fuel)
  case (Cons vc cs)
  obtain v c where vc: "vc = (v, c)" by (cases vc)
  obtain f where f: "fuel = Suc f" "length cs < f" using Cons.prems(7) by (cases fuel) auto
  define n where "n = off + 8 + length (cap_body c)"
  define nx :: u32 where "nx = (if cs = [] then stop else word_of_nat n)"
  define mem where "mem = pre @ chain_image stop off (vc # cs) @ post"
  have mem: "mem = pre @ cap_image v nx c @ chain_image stop n cs @ post"
    by (simp add: mem_def vc n_def nx_def Let_def)
  have big: "length mem < 2 ^ 32" using Cons.prems(6) by (simp only: mem_def)
  have "unat (word_of_nat off :: u32) = off"
    using big Cons.prems(1) by (simp add: mem unat_u32_of_nat)
  moreover have "read_cap mem (word_of_nat off) = Ok (Some c, nx)"
    unfolding mem using Cons.prems(1,2) big by (intro read_cap_image) (simp_all add: mem)
  ultimately have step: "cap_walk fuel mem (word_of_nat off) caps = cap_walk f mem nx (caps @ [c])"
    using Cons.prems(3) by (simp add: f(1))
  show ?case
  proof (cases "cs = []")
    case True
    then obtain g where "f = Suc g" using f(2) by (cases f) auto
    then show ?thesis
      unfolding mem_def [symmetric] using step True Cons.prems(4) by (simp add: nx_def vc)
  next
    case False
    have mem': "mem = (pre @ cap_image v nx c) @ chain_image stop n cs @ post" by (simp add: mem)
    have "cap_walk f mem (word_of_nat n) (caps @ [c]) = Some (Ok ((caps @ [c]) @ map snd cs))"
      unfolding mem'
      by (rule Cons.IH)
        (use Cons.prems(1-4) False f(2) big length_cap_body_8 [of c]
         in \<open>simp_all add: n_def mem dvd_add\<close>)
    then show ?thesis unfolding mem_def [symmetric] using step False by (simp add: nx_def vc)
  qed
qed simp

lemma cap_loop_chain:
  assumes "off = length pre" "8 dvd off" "32 \<le> off" "unat stop < 32" "cs \<noteq> []"
    and "length (pre @ chain_image stop off cs @ post) < 2 ^ 32"
  shows "cap_loop (pre @ chain_image stop off cs @ post) (word_of_nat off) caps = Ok (caps @ map snd cs)"
proof -
  have "cap_walk (Suc (length cs)) (pre @ chain_image stop off cs @ post) (word_of_nat off) caps =
      Some (Ok (caps @ map snd cs))"
    using assms by (rule cap_walk_chain) simp
  then show ?thesis by (simp only: cap_loop_iff res.distinct if_False) blast
qed

section \<open>Reading the capabilities of one region\<close>

lemma from_region_info_eq:
  assumes "32 < unat (ri_argsz ri)"
  defines "n \<equiv> (unat (ri_argsz ri) + 31) div 32 * 32"
  shows "from_region_info oc ri =
      Ok (enc_vfio_region_info \<lparr>ri_argsz = ri_argsz ri, ri_flags = 0, ri_index = ri_index ri,
            ri_cap_offset = 0, ri_size = 0, ri_offset = 0\<rparr> @ replicate (n - 32) 0)"
    and "unat (ri_argsz ri) \<le> n" and "n < unat (ri_argsz ri) + 32"
proof -
  define a where "a = unat (ri_argsz ri)"
  have a: "32 < a" "a < 2 ^ 32" using assms(1) unat_lt_u32 [of "ri_argsz ri"] by (simp_all add: a_def)
  have diff: "unat (ri_argsz ri - 32) = a - 32"
    using a by (simp add: a_def unat_sub word_le_nat_alt)
  have sub: "sub_usize oc (ri_argsz ri) 32 = Ok (ri_argsz ri - 32)"
    using a by (simp add: sub_usize_def word_less_nat_alt a_def)
  define c :: usize where "c = ucast (ri_argsz ri - 32)"
  have c: "unat c = a - 32" by (simp add: c_def diff)
  have pre: "0 < unat (32 :: usize)" "unat c * unat (1 :: usize) + 2 * unat (32 :: usize) \<le> isize_max"
    using a by (simp_all add: c isize_max_def)
  have k: "(unat c * unat (1 :: usize) + unat (32 :: usize) + unat (32 :: usize) - 1) div unat (32 :: usize)
      = (a + 31) div 32"
    using a by (simp add: c)
  have vec: "vec_with_array_field oc 32 (replicate 32 (0 :: u8)) 1 c =
      Ok (replicate ((a + 31) div 32) (replicate 32 0))"
    by (rule vec_with_array_field_eq(1) [OF pre, unfolded k])
  have n: "n = (a + 31) div 32 * 32" by (simp add: n_def a_def)
  have pos: "0 < (a + 31) div 32" "32 \<le> n" using a by (simp_all add: n)
  have flat: "concat (replicate m (replicate 32 (0 :: u8))) = replicate (m * 32) 0" for m
    by (induction m) (simp_all add: replicate_add)
  have "write_bytes 0 xs (replicate n (0 :: u8)) = xs @ replicate (n - 32) 0" if "length xs = 32" for xs
    using that by (simp add: write_bytes_def)
  then show "from_region_info oc ri =
      Ok (enc_vfio_region_info \<lparr>ri_argsz = ri_argsz ri, ri_flags = 0, ri_index = ri_index ri,
            ri_cap_offset = 0, ri_size = 0, ri_offset = 0\<rparr> @ replicate (n - 32) 0)"
    using vec pos(1) sub
    by (simp add: from_region_info_def Let_def c_def [symmetric] flat n ri_codec.length_enc)
  show "unat (ri_argsz ri) \<le> n" "n < unat (ri_argsz ri) + 32"
    using div_round_up_ge [of 32 a] div_round_up_less [of 32 a] by (simp_all add: n a_def [symmetric])
qed

text \<open>The request accepted by the length check of \<open>get_device_region_info_cap\<close>.\<close>

lemma from_region_info_long_enough:
  assumes "32 < unat (ri_argsz ri)" "from_region_info oc ri = Ok mem"
  shows "\<not> fam_too_short size_region_info mem"
proof -
  define n where "n = (unat (ri_argsz ri) + 31) div 32 * 32"
  define h where "h = \<lparr>ri_argsz = ri_argsz ri, ri_flags = 0, ri_index = ri_index ri,
            ri_cap_offset = 0, ri_size = 0, ri_offset = 0\<rparr>"
  have mem: "mem = enc_vfio_region_info h @ replicate (n - 32) 0"
    using assms from_region_info_eq(1) [OF assms(1), of oc] by (simp add: n_def h_def)
  have n: "unat (ri_argsz ri) \<le> n" "32 dvd n" "32 \<le> n"
    using from_region_info_eq(2,3) [OF assms(1)] assms(1) by (simp_all add: n_def)
  have "length mem = n" using n by (simp add: mem ri_codec.length_enc)
  moreover have "mem_argsz mem = unat (ri_argsz ri)"
    by (simp add: mem_argsz_def mem h_def enc_vfio_region_info_def)
  ultimately show ?thesis using n by (auto simp: fam_too_short_def)
qed

lemma get_region_map_chain:
  assumes "ri_flags ri AND VFIO_REGION_INFO_FLAG_CAPS \<noteq> 0" "32 < unat (ri_argsz ri)"
    and "from_region_info oc ri = Ok mem"
    and "sys_get_device_region_info_cap S (vdi_device info) mem k =
      (Ok (pre @ chain_image stop (length pre) cs @ post), k')"
    and "32 \<le> length pre" "8 dvd length pre" "unat stop < 32" "cs \<noteq> []"
    and "length (pre @ chain_image stop (length pre) cs @ post) < 2 ^ 32"
    and "read_u32 12 pre = Some (word_of_nat (length pre))"
  shows "get_region_map oc S info region ri k =
    (Ok (region\<lparr>reg_caps := reg_caps region @ map snd cs\<rparr>), k')"
proof -
  let ?mem = "pre @ chain_image stop (length pre) cs @ post"
  have big: "length pre < 4294967296" using assms(9) by simp
  have "read_bytes 12 4 ?mem = read_bytes 12 4 pre" using assms(5) by (intro read_bytes_append_left) simp
  then have off: "read_u32 12 ?mem = Some (word_of_nat (length pre))"
    using assms(10) by (simp add: read_u32_def)
  have loop: "cap_loop ?mem (word_of_nat (length pre)) (reg_caps region) = Ok (reg_caps region @ map snd cs)"
    using assms(5-9) by (intro cap_loop_chain) simp_all
  have "\<not> ri_argsz ri \<le> 32" using assms(2) by (simp add: word_le_nat_alt)
  then show ?thesis
    using assms(1,3,4,5) big off loop
    by (simp add: get_region_map_def bind_def lift_def ret_def unat_u32_of_nat)
qed

text \<open>
  C5: \<open>get_region_map\<close> reads back the capabilities the kernel laid out: if the region has
  capabilities and the second query returns any chain of capabilities behind a region structure whose
  \<open>cap_offset\<close> points to it, the region gets exactly these capabilities, in the order of the chain.
\<close>

theorem get_region_map_caps:
  assumes "ri_flags ri AND VFIO_REGION_INFO_FLAG_CAPS \<noteq> 0" "32 < unat (ri_argsz ri)"
    and "from_region_info oc ri = Ok mem"
    and "sys_get_device_region_info_cap S (vdi_device info) mem k =
      (Ok (pre @ chain_image stop (length pre) cs @ post), k')"
    and "32 \<le> length pre" "8 dvd length pre" "unat stop < 32" "cs \<noteq> []"
    and "length (pre @ chain_image stop (length pre) cs @ post) < 2 ^ 32"
    and "read_u32 12 pre = Some (word_of_nat (length pre))"
  shows "get_region_map oc S info region ri k =
    (Ok (region\<lparr>reg_caps := reg_caps region @ map snd cs\<rparr>), k')"
  using assms by (rule get_region_map_chain)

lemma get_region_map_no_caps:
  "ri_flags ri AND VFIO_REGION_INFO_FLAG_CAPS = 0 \<or> unat (ri_argsz ri) \<le> 32 \<Longrightarrow>
   get_region_map oc S info region ri k = (Ok region, k)"
  by (auto simp: get_region_map_def ret_def word_le_nat_alt)

section \<open>The region table\<close>

definition region_at :: "bool \<Rightarrow> 'k vfio_syscall \<Rightarrow> VfioDeviceInfo \<Rightarrow> u32 \<Rightarrow> ('k, VfioRegion) io" where
  "region_at oc S info i =
     bind (sys_get_device_region_info S (vdi_device info) (region_info_request i)) (\<lambda>reg_info.
     get_region_map oc S info
       \<lparr>reg_flags = ri_flags reg_info, reg_size = ri_size reg_info,
        reg_offset = ri_offset reg_info, reg_caps = []\<rparr> reg_info)"

lemma get_regions_loop_step:
  "get_regions_loop oc S info (i # rest) regions k =
     bind (attempt (region_at oc S info i)) (\<lambda>r. case r of
       Inl _ \<Rightarrow> get_regions_loop oc S info rest regions
     | Inr region \<Rightarrow> get_regions_loop oc S info rest (regions @ [region])) k"
proof -
  obtain r s where "sys_get_device_region_info S (vdi_device info) (region_info_request i) k = (r, s)"
    by fastforce
  then show ?thesis
    by (cases r) (simp_all add: region_at_def bind_def attempt_def)
qed

definition probed :: "(u32 \<Rightarrow> VfioRegion res) \<Rightarrow> u32 list \<Rightarrow> VfioRegion list" where
  "probed q is = concat (map (\<lambda>i. case q i of Ok r \<Rightarrow> [r] | _ \<Rightarrow> []) is)"

lemma get_regions_loop_exact:
  assumes "\<And>i k. i \<in> set is \<Longrightarrow> region_at oc S info i k = (q i, k)"
    and "\<And>i. i \<in> set is \<Longrightarrow> graceful (q i)"
  shows "get_regions_loop oc S info is regions k = (Ok (regions @ probed q is), k)"
  using assms
proof (induction "is" arbitrary: regions)
  case (Cons i "is")
  have q: "region_at oc S info i k = (q i, k)" using Cons.prems(1) by simp
  have IH: "get_regions_loop oc S info is rs k = (Ok (rs @ probed q is), k)" for rs
    using Cons by simp
  from Cons.prems(2) have "graceful (q i)" by simp
  then show ?case
    by (cases rule: graceful_cases)
      (simp_all add: get_regions_loop_step bind_def attempt_def q IH probed_def del: get_regions_loop.simps(2))
qed (simp add: ret_def probed_def)

lemma get_regions_exact:
  assumes "\<And>i k. i < vdi_num_regions info \<Longrightarrow> region_at oc S info i k = (q i, k)"
    and "\<And>i. i < vdi_num_regions info \<Longrightarrow> graceful (q i)"
  shows "get_regions oc S info k = (Ok (probed q (u32_range 0 (vdi_num_regions info))), k)"
  unfolding get_regions_def const_defs
  using get_regions_loop_exact [of "u32_range 0 (vdi_num_regions info)" oc S info q "[]" k] assms
  by (simp add: set_u32_range)

text \<open>
  The queries of the regions in the order of their indexes, each on the state the one before has left;
  what they found.
\<close>

fun probe_all :: "bool \<Rightarrow> 'k vfio_syscall \<Rightarrow> VfioDeviceInfo \<Rightarrow> u32 list \<Rightarrow> 'k \<Rightarrow> VfioRegion res list \<times> 'k" where
  "probe_all oc S info [] k = ([], k)"
| "probe_all oc S info (i # is) k =
     (case region_at oc S info i k of (q, k1) \<Rightarrow> case probe_all oc S info is k1 of (qs, k2) \<Rightarrow> (q # qs, k2))"

definition readable :: "VfioRegion res \<Rightarrow> bool" where
  "readable q \<longleftrightarrow> (\<exists>r. q = Ok r)"

definition found :: "VfioRegion res list \<Rightarrow> VfioRegion list" where
  "found qs = concat (map (\<lambda>q. case q of Ok r \<Rightarrow> [r] | _ \<Rightarrow> []) qs)"

lemma length_probe_all: "probe_all oc S info is k = (qs, k') \<Longrightarrow> length qs = length is"
  by (induction "is" arbitrary: k qs) (auto split: prod.splits)

lemma get_regions_loop_probed:
  "probe_all oc S info is k = (qs, k') \<Longrightarrow> \<forall>q\<in>set qs. graceful q \<Longrightarrow>
   get_regions_loop oc S info is regions k = (Ok (regions @ found qs), k')"
proof (induction "is" arbitrary: k qs regions)
  case (Cons i "is")
  obtain q k1 where q: "region_at oc S info i k = (q, k1)" by fastforce
  obtain qs' where qs: "probe_all oc S info is k1 = (qs', k')" "qs = q # qs'"
    using Cons.prems(1) q by (auto split: prod.splits)
  have "graceful q" "\<forall>q\<in>set qs'. graceful q" using Cons.prems(2) qs(2) by auto
  then show ?case using Cons.IH [OF qs(1)] q qs(2)
    by (elim graceful_cases)
      (simp_all add: get_regions_loop_step bind_def attempt_def found_def del: get_regions_loop.simps(2))
qed (simp add: ret_def found_def)

lemma get_regions_loop_not_graceful:
  "probe_all oc S info is k = (qs, k') \<Longrightarrow> q \<in> set qs \<Longrightarrow> \<not> graceful q \<Longrightarrow>
   \<not> graceful (fst (get_regions_loop oc S info is regions k))"
proof (induction "is" arbitrary: k qs regions)
  case (Cons i "is")
  obtain q1 k1 where q1: "region_at oc S info i k = (q1, k1)" by fastforce
  obtain qs' where qs: "probe_all oc S info is k1 = (qs', k')" "qs = q1 # qs'"
    using Cons.prems(1) q1 by (auto split: prod.splits)
  show ?case
  proof (cases "graceful q1")
    case True
    then have "q \<in> set qs'" using Cons.prems(2,3) qs(2) by auto
    then show ?thesis using True Cons.IH [OF qs(1) _ Cons.prems(3)] q1
      by (elim graceful_cases)
        (simp_all add: get_regions_loop_step bind_def attempt_def del: get_regions_loop.simps(2))
  next
    case False
    then show ?thesis using q1
      by (cases q1) (simp_all add: get_regions_loop_step bind_def attempt_def del: get_regions_loop.simps(2))
  qed
qed simp

lemma length_found: "length (found qs) = length (filter readable qs)"
  by (induction qs) (auto simp: found_def readable_def split: res.splits)

lemma found_position:
  assumes "i < length qs" "qs ! i = Ok r"
  shows "slice_get (found qs) (length (filter readable (take i qs))) = Some r"
proof -
  have "found qs = found (take i qs @ qs ! i # drop (Suc i) qs)"
    using id_take_nth_drop [OF assms(1)] by (rule arg_cong)
  also have "\<dots> = found (take i qs) @ r # found (drop (Suc i) qs)"
    using assms(2) by (simp add: found_def)
  finally show ?thesis by (simp add: slice_get_def nth_append length_found [symmetric])
qed

text \<open>
  C22: what \<open>get_regions\<close> returns, for any kernel: it never reports an error. It panics, is undefined or runs
  forever exactly if reading one of the regions does; otherwise it succeeds, with one entry for each
  region that could be read. The information of region \<open>i\<close> stands in the vector at the number of earlier
  regions that could be read, so at position \<open>i\<close>, where every accessor of \<open>VfioDevice\<close> looks for it, if all
  earlier ones could be read.
\<close>

theorem get_regions_position:
  assumes "probe_all oc S info (u32_range 0 (vdi_num_regions info)) k = (qs, k')"
  shows "(if \<forall>q\<in>set qs. graceful q
     then \<exists>regions. get_regions oc S info k = (Ok regions, k') \<and>
       length regions = length (filter readable qs) \<and>
       (\<forall>i r. i < unat (vdi_num_regions info) \<longrightarrow> qs ! i = Ok r \<longrightarrow>
          slice_get regions (length (filter readable (take i qs))) = Some r \<and>
          ((\<forall>j < i. readable (qs ! j)) \<longrightarrow> slice_get regions i = Some r))
     else \<not> graceful (fst (get_regions oc S info k)))"
proof -
  let ?is = "u32_range 0 (vdi_num_regions info)"
  have len: "length qs = unat (vdi_num_regions info)" using length_probe_all [OF assms] by simp
  have def: "get_regions oc S info k = get_regions_loop oc S info ?is [] k"
    by (simp add: get_regions_def const_defs)
  have pos: "slice_get (found qs) (length (filter readable (take i qs))) = Some r \<and>
      ((\<forall>j < i. readable (qs ! j)) \<longrightarrow> slice_get (found qs) i = Some r)"
    if i: "i < unat (vdi_num_regions info)" "qs ! i = Ok r" for i r
  proof -
    have "slice_get (found qs) (length (filter readable (take i qs))) = Some r"
      using i len by (intro found_position) simp_all
    moreover have "length (filter readable (take i qs)) = i" if "\<forall>j < i. readable (qs ! j)"
    proof -
      have "filter readable (take i qs) = take i qs"
        using that i(1) len by (auto simp: filter_id_conv in_set_conv_nth)
      then show ?thesis using i(1) len by simp
    qed
    ultimately show ?thesis by auto
  qed
  show ?thesis
  proof (cases "\<forall>q\<in>set qs. graceful q")
    case True
    have "get_regions oc S info k = (Ok (found qs), k')"
      unfolding def using get_regions_loop_probed [OF assms True, of "[]"] by simp
    then show ?thesis using True pos by (auto simp: length_found)
  next
    case False
    then show ?thesis unfolding def using get_regions_loop_not_graceful [OF assms] by auto
  qed
qed

end
