(* ===== verification/Container.thy ===== *)
theory Container
  imports Vfio_Ioctls Hash_Map Rust_Std Device_Info
begin

text \<open>
  \<open>VfioContainer\<close>, \<open>VfioGroup\<close> and \<open>VfioDeviceFd\<close> of \<open>vfio_device.rs\<close>: opening the container,
  attaching and releasing groups, the hypervisor's device descriptor, and the DMA mappings.

  The state is a \<open>'k world\<close>: the kernel's state, the heap of reference-counted groups
  (\<open>Arc<VfioGroup>\<close>) and the container's table \<open>groups: Mutex<HashMap<u32, Arc<VfioGroup>>>\<close>. The
  other fields of a container never change and are in the record \<open>VfioContainer\<close>. Each function below
  that locks the table runs under the lock from its first to its last access to it; theory
  \<open>Lifecycle\<close> interleaves them.
\<close>

section \<open>Configuration\<close>

text \<open>The cargo features, \<open>cfg(test)\<close>, and whether overflow checks are compiled in.\<close>

record features =
  feat_kvm :: bool
  feat_mshv :: bool
  feat_test :: bool
  overflow_checks :: bool

record 'k env =
  env_kernel :: "'k kernel"
  env_sys :: "'k vfio_syscall"
  env_feat :: features

text \<open>\<open>any(feature = "kvm", all(feature = "mshv", target_arch = "x86_64"))\<close>\<close>

definition hypervisor :: "'k env \<Rightarrow> bool" where
  "hypervisor E \<longleftrightarrow> feat_kvm (env_feat E) \<or> feat_mshv (env_feat E)"

section \<open>Data\<close>

text \<open>\<open>VfioDeviceFd(DeviceFdInner)\<close>; the payload is the descriptor of the hypervisor's device.\<close>

datatype VfioDeviceFd = Kvm fd | Mshv fd

record VfioGroup =
  grp_id :: u32
  grp_group :: fd

record VfioContainer =
  ct_container :: fd
  ct_device_fd :: "VfioDeviceFd option"

type_synonym arc = nat

record 'k world =
  kst :: 'k
  arcs :: "arc \<Rightarrow> (VfioGroup \<times> nat) option"
  next_arc :: arc
  groups :: "(u32, arc) hm"

definition on_kernel :: "('k, 'a) io \<Rightarrow> ('k world, 'a) io" where
  "on_kernel m w = (case m (kst w) of (r, k) \<Rightarrow> (r, w\<lparr>kst := k\<rparr>))"

section \<open>Reference counts\<close>

definition strong_count :: "arc \<Rightarrow> 'k world \<Rightarrow> nat" where
  "strong_count a w = (case arcs w a of None \<Rightarrow> 0 | Some (_, n) \<Rightarrow> n)"

definition arc_new :: "VfioGroup \<Rightarrow> ('k world, arc) io" where
  "arc_new g w =
     (Ok (next_arc w), w\<lparr>arcs := (arcs w)(next_arc w \<mapsto> (g, 1)), next_arc := Suc (next_arc w)\<rparr>)"

definition arc_clone :: "arc \<Rightarrow> ('k world, arc) io" where
  "arc_clone a w =
     (case arcs w a of
        None \<Rightarrow> (UB ''use after free'', w)
      | Some (g, n) \<Rightarrow> (Ok a, w\<lparr>arcs := (arcs w)(a \<mapsto> (g, Suc n))\<rparr>))"

text \<open>Dropping the last reference drops the group, which closes its file.\<close>

definition arc_drop :: "'k env \<Rightarrow> arc \<Rightarrow> ('k world, unit) io" where
  "arc_drop E a w =
     (case arcs w a of
        None \<Rightarrow> (UB ''double free'', w)
      | Some (g, n) \<Rightarrow>
          (Ok (), if n \<le> 1 then w\<lparr>arcs := (arcs w)(a := None),
                                  kst := k_close (env_kernel E) (grp_group g) (kst w)\<rparr>
                  else w\<lparr>arcs := (arcs w)(a \<mapsto> (g, n - 1))\<rparr>))"

definition arc_get :: "arc \<Rightarrow> ('k world, VfioGroup) io" where
  "arc_get a w = (case arcs w a of None \<Rightarrow> (UB ''use after free'', w) | Some (g, _) \<Rightarrow> (Ok g, w))"

definition close_file :: "'k env \<Rightarrow> fd \<Rightarrow> ('k, unit) io" where
  "close_file E f k = (Ok (), k_close (env_kernel E) f k)"

section \<open>The hypervisor's device descriptor\<close>

definition new_from_kvm :: "fd \<Rightarrow> VfioDeviceFd" where
  "new_from_kvm f = Kvm f"

definition to_kvm :: "VfioDeviceFd \<Rightarrow> fd res" where
  "to_kvm d = (case d of Kvm f \<Rightarrow> Ok f | _ \<Rightarrow> Err VfioDeviceFdWrongType)"

definition new_from_mshv :: "fd \<Rightarrow> VfioDeviceFd" where
  "new_from_mshv f = Mshv f"

definition to_mshv :: "VfioDeviceFd \<Rightarrow> fd res" where
  "to_mshv d = (case d of Mshv f \<Rightarrow> Ok f | _ \<Rightarrow> Err VfioDeviceFdWrongType)"

definition try_clone :: "'k env \<Rightarrow> VfioDeviceFd \<Rightarrow> ('k, VfioDeviceFd) io" where
  "try_clone E d k =
     (case d of
        Kvm f \<Rightarrow> (case k_dup (env_kernel E) f k of (dup_fd, k') \<Rightarrow>
          (if dup_fd = - 1 then Err VfioDeviceDupFd else Ok (Kvm dup_fd), k'))
      | Mshv f \<Rightarrow> (case k_dup (env_kernel E) f k of (dup_fd, k') \<Rightarrow>
          (if dup_fd = - 1 then Err VfioDeviceDupFd else Ok (Mshv dup_fd), k')))"

definition set_device_attr :: "'k env \<Rightarrow> fd \<Rightarrow> device_attr \<Rightarrow> ('k, unit) io" where
  "set_device_attr E f attr k =
     (case k_set_device_attr (env_kernel E) f attr k of
        (Inl e, k') \<Rightarrow> (Err (SetDeviceAttr e), k')
      | (Inr _, k') \<Rightarrow> (Ok (), k'))"

definition device_set_group :: "'k env \<Rightarrow> VfioContainer \<Rightarrow> VfioGroup \<Rightarrow> bool \<Rightarrow> ('k, unit) io" where
  "device_set_group E C grp add =
     (let K = env_kernel E in
      case ct_device_fd C of
        None \<Rightarrow> ret ()
      | Some (Kvm f) \<Rightarrow>
          set_device_attr E f
            \<lparr>attr_flags = 0, attr_group = k_kvm_group K,
             attr_attr = ucast (if add then k_kvm_group_add K else k_kvm_group_del K),
             attr_group_fd = grp_group grp\<rparr>
      | Some (Mshv f) \<Rightarrow>
          set_device_attr E f
            \<lparr>attr_flags = 0, attr_group = k_mshv_group K,
             attr_attr = ucast (if add then k_mshv_group_add K else k_mshv_group_del K),
             attr_group_fd = grp_group grp\<rparr>)"

definition device_add_group :: "'k env \<Rightarrow> VfioContainer \<Rightarrow> VfioGroup \<Rightarrow> ('k, unit) io" where
  "device_add_group E C grp =
     (if feat_test (env_feat E) then ret () else device_set_group E C grp True)"

definition device_del_group :: "'k env \<Rightarrow> VfioContainer \<Rightarrow> VfioGroup \<Rightarrow> ('k, unit) io" where
  "device_del_group E C grp =
     (if feat_test (env_feat E) then ret () else device_set_group E C grp False)"

section \<open>Groups\<close>

definition open_file :: "'k env \<Rightarrow> (io_error \<Rightarrow> VfioError) \<Rightarrow> string \<Rightarrow> ('k, fd) io" where
  "open_file E err path k =
     (case k_open (env_kernel E) path k of
        (Inl e, k') \<Rightarrow> (Err (err e), k')
      | (Inr f, k') \<Rightarrow> (Ok f, k'))"

text \<open>\<open>open_group_file\<close> has a second version under \<open>cfg(test)\<close> that opens a temporary file.\<close>

definition open_group_file :: "'k env \<Rightarrow> u32 \<Rightarrow> ('k, fd) io" where
  "open_group_file E gid =
     (if feat_test (env_feat E) then
        (\<lambda>k. case k_tempfile (env_kernel E) k of
           (None, k') \<Rightarrow> (Panic ''TempFile::new'', k')
         | (Some p, k') \<Rightarrow> open_file E (\<lambda>e. OpenGroup e (u32_to_string gid)) p k')
      else open_file E (\<lambda>e. OpenGroup e (u32_to_string gid)) (path_join ''/dev/vfio'' (u32_to_string gid)))"

text \<open>An early return drops the opened file.\<close>

definition VfioGroup_new :: "'k env \<Rightarrow> u32 \<Rightarrow> ('k, VfioGroup) io" where
  "VfioGroup_new E gid =
     bind (open_group_file E gid) (\<lambda>f.
     bind (attempt (sys_get_group_status (env_sys E) f
       \<lparr>gs_argsz = word_of_nat (size_of vfio_group_status_ty), gs_flags = 0\<rparr>)) (\<lambda>r. case r of
       Inl e \<Rightarrow> bind (close_file E f) (\<lambda>_. throw e)
     | Inr group_status \<Rightarrow>
         if gs_flags group_status \<noteq> VFIO_GROUP_FLAGS_VIABLE
         then bind (close_file E f) (\<lambda>_. throw GroupViable)
         else ret \<lparr>grp_id = gid, grp_group = f\<rparr>))"

text \<open>\<open>CString::new\<close> fails on an interior NUL byte, and the crate unwraps it.\<close>

definition device_name :: "string \<Rightarrow> string res" where
  "device_name name =
     res_bind (ok_or InvalidPath (file_name name)) (\<lambda>uuid_osstr.
     res_bind (ok_or InvalidPath (to_str uuid_osstr)) (\<lambda>uuid_str.
     if CHR 0x00 \<in> set uuid_str then Panic ''CString::new() failed'' else Ok uuid_str))"

definition get_device :: "'k env \<Rightarrow> VfioGroup \<Rightarrow> string \<Rightarrow> ('k, VfioDeviceInfo) io" where
  "get_device E grp name =
     bind (lift (device_name name)) (\<lambda>path.
     bind (sys_get_group_device_fd (env_sys E) (grp_group grp) path) (\<lambda>device.
     bind (attempt (sys_get_device_info (env_sys E) device
       \<lparr>di_argsz = word_of_nat (size_of vfio_device_info_ty), di_flags = 0, di_num_regions = 0,
        di_num_irqs = 0\<rparr>)) (\<lambda>r. case r of
       Inl e \<Rightarrow> bind (close_file E device) (\<lambda>_. throw e)
     | Inr dev_info \<Rightarrow>
         if di_flags dev_info AND VFIO_DEVICE_FLAGS_PCI = 0
            \<or> di_num_regions dev_info < VFIO_PCI_CONFIG_REGION_INDEX + 1
            \<or> di_num_irqs dev_info < VFIO_PCI_MSIX_IRQ_INDEX + 1
         then bind (close_file E device) (\<lambda>_. throw VfioDeviceGetInfo)
         else ret (VfioDeviceInfo_new device dev_info))))"

section \<open>The container\<close>

definition check_api_version :: "'k env \<Rightarrow> VfioContainer \<Rightarrow> ('k, unit) io" where
  "check_api_version E C =
     bind (sys_check_api_version (env_sys E) (ct_container C)) (\<lambda>version.
     if version \<noteq> VFIO_API_VERSION then throw VfioApiVersion else ret ())"

definition check_extension :: "'k env \<Rightarrow> VfioContainer \<Rightarrow> u32 \<Rightarrow> ('k, unit) io" where
  "check_extension E C val =
     (if val \<noteq> VFIO_TYPE1_IOMMU \<and> val \<noteq> VFIO_TYPE1v2_IOMMU then throw VfioInvalidType
      else bind (sys_check_extension (env_sys E) (ct_container C) val) (\<lambda>ret'.
        if ret' \<noteq> 1 then throw VfioExtension else ret ()))"

definition set_iommu :: "'k env \<Rightarrow> VfioContainer \<Rightarrow> u32 \<Rightarrow> ('k, unit) io" where
  "set_iommu E C val =
     (if val \<noteq> VFIO_TYPE1_IOMMU \<and> val \<noteq> VFIO_TYPE1v2_IOMMU then throw VfioInvalidType
      else sys_set_iommu (env_sys E) (ct_container C) val)"

definition VfioContainer_new :: "'k env \<Rightarrow> VfioDeviceFd option \<Rightarrow> ('k, VfioContainer) io" where
  "VfioContainer_new E device_fd =
     bind (open_file E OpenContainer ''/dev/vfio/vfio'') (\<lambda>f.
     let C = \<lparr>ct_container = f, ct_device_fd = device_fd\<rparr> in
     bind (attempt (bind (check_api_version E C) (\<lambda>_. check_extension E C VFIO_TYPE1v2_IOMMU)))
       (\<lambda>r. case r of
         Inl e \<Rightarrow> bind (close_file E f) (\<lambda>_. throw e)
       | Inr _ \<Rightarrow> ret C))"

text \<open>
  \<open>get_group\<close>. The three error exits after \<open>Arc::new\<close> drop the only reference to the new group, after
  undoing the binding to the container where it was made.
\<close>

definition fail_unbound :: "'k env \<Rightarrow> arc \<Rightarrow> VfioError \<Rightarrow> ('k world, arc) io" where
  "fail_unbound E a e = bind (arc_drop E a) (\<lambda>_. throw e)"

definition fail_bound :: "'k env \<Rightarrow> VfioContainer \<Rightarrow> arc \<Rightarrow> VfioGroup \<Rightarrow> VfioError \<Rightarrow> ('k world, arc) io" where
  "fail_bound E C a g e =
     bind (attempt (on_kernel (sys_unset_group_container (env_sys E) (grp_group g) (ct_container C)))) (\<lambda>_.
     bind (arc_drop E a) (\<lambda>_. throw e))"

definition insert_group :: "u32 \<Rightarrow> arc \<Rightarrow> ('k world, arc) io" where
  "insert_group gid a =
     bind (arc_clone a) (\<lambda>a'. \<lambda>w. (Ok a, w\<lparr>groups := hm_insert gid a' (groups w)\<rparr>))"

definition attach_group :: "'k env \<Rightarrow> VfioContainer \<Rightarrow> u32 \<Rightarrow> VfioGroup \<Rightarrow> ('k world, arc) io" where
  "attach_group E C gid g =
     bind (arc_new g) (\<lambda>a.
     bind (attempt (on_kernel (sys_set_group_container (env_sys E) (grp_group g) (ct_container C)))) (\<lambda>r. case r of
       Inl e \<Rightarrow> fail_unbound E a e
     | Inr _ \<Rightarrow> (\<lambda>w.
     bind (attempt (if hm_len (groups w) = 0 then on_kernel (set_iommu E C VFIO_TYPE1v2_IOMMU) else ret ())) (\<lambda>r. case r of
       Inl e \<Rightarrow> fail_bound E C a g e
     | Inr _ \<Rightarrow>
     bind (attempt (if hypervisor E then on_kernel (device_add_group E C g) else ret ())) (\<lambda>r. case r of
       Inl e \<Rightarrow> fail_bound E C a g e
     | Inr _ \<Rightarrow> insert_group gid a)) w)))"

definition get_group :: "'k env \<Rightarrow> VfioContainer \<Rightarrow> u32 \<Rightarrow> ('k world, arc) io" where
  "get_group E C gid w =
     (case hm_get (groups w) gid of
        Some entry \<Rightarrow> arc_clone entry w
      | None \<Rightarrow> bind (on_kernel (VfioGroup_new E gid)) (attach_group E C gid) w)"

text \<open>
  The part of \<open>put_group\<close> that runs under the lock. \<open>remove_group\<close> is \<open>hash.remove\<close>, whose result, a
  reference, is dropped at once.
\<close>

definition remove_group :: "'k env \<Rightarrow> u32 \<Rightarrow> ('k world, unit) io" where
  "remove_group E gid w =
     (case hm_get (groups w) gid of
        None \<Rightarrow> (Ok (), w)
      | Some a \<Rightarrow> arc_drop E a (w\<lparr>groups := hm_remove gid (groups w)\<rparr>))"

definition put_group_locked :: "'k env \<Rightarrow> VfioContainer \<Rightarrow> arc \<Rightarrow> ('k world, unit) io" where
  "put_group_locked E C a w =
     (if strong_count a w = 3 then
        bind (arc_get a) (\<lambda>g.
        bind (attempt (if hypervisor E then on_kernel (device_del_group E C g) else ret ())) (\<lambda>r. case r of
          Inl _ \<Rightarrow> ret ()
        | Inr _ \<Rightarrow>
        bind (attempt (on_kernel (sys_unset_group_container (env_sys E) (grp_group g) (ct_container C)))) (\<lambda>r. case r of
          Inl _ \<Rightarrow> ret ()
        | Inr _ \<Rightarrow> remove_group E (grp_id g)))) w
      else (Ok (), w))"

text \<open>The guard of the lock is released before the argument \<open>group\<close> is dropped.\<close>

definition put_group :: "'k env \<Rightarrow> VfioContainer \<Rightarrow> arc \<Rightarrow> ('k world, unit) io" where
  "put_group E C a = bind (put_group_locked E C a) (\<lambda>_. arc_drop E a)"

section \<open>DMA mappings\<close>

definition vfio_dma_map :: "'k env \<Rightarrow> VfioContainer \<Rightarrow> u64 \<Rightarrow> u64 \<Rightarrow> u64 \<Rightarrow> ('k, unit) io" where
  "vfio_dma_map E C iova sz user_addr =
     sys_map_dma (env_sys E) (ct_container C)
       \<lparr>dm_argsz = word_of_nat (size_of vfio_iommu_type1_dma_map_ty),
        dm_flags = VFIO_DMA_MAP_FLAG_READ OR VFIO_DMA_MAP_FLAG_WRITE,
        dm_vaddr = user_addr, dm_iova = iova, dm_size = sz\<rparr>"

definition vfio_dma_unmap :: "'k env \<Rightarrow> VfioContainer \<Rightarrow> u64 \<Rightarrow> u64 \<Rightarrow> ('k, unit) io" where
  "vfio_dma_unmap E C iova sz =
     bind (sys_unmap_dma (env_sys E) (ct_container C)
       \<lparr>du_argsz = word_of_nat (size_of vfio_iommu_type1_dma_unmap_ty), du_flags = 0,
        du_iova = iova, du_size = sz\<rparr>) (\<lambda>dma_unmap.
     if du_size dma_unmap \<noteq> sz then throw InvalidDmaUnmapSize else ret ())"

text \<open>
  A region of guest memory (\<open>vm-memory\<close>): its start, its length, and the host address of its first
  byte, where \<^term>\<open>None\<close> is the error of \<open>get_host_address\<close>. Guest memory is the list of regions its
  iterator yields.
\<close>

record guest_region =
  gr_start_addr :: u64
  gr_len :: u64
  gr_host_address :: "u64 option"

fun try_for_each :: "('a \<Rightarrow> ('k, unit) io) \<Rightarrow> 'a list \<Rightarrow> ('k, unit) io" where
  "try_for_each f [] = ret ()"
| "try_for_each f (x # xs) = bind (f x) (\<lambda>_. try_for_each f xs)"

definition vfio_map_guest_memory :: "'k env \<Rightarrow> VfioContainer \<Rightarrow> guest_region list \<Rightarrow> ('k, unit) io" where
  "vfio_map_guest_memory E C =
     try_for_each (\<lambda>region.
       bind (lift (ok_or GetHostAddress (gr_host_address region))) (\<lambda>host_addr.
       vfio_dma_map E C (gr_start_addr region) (gr_len region) host_addr))"

definition vfio_unmap_guest_memory :: "'k env \<Rightarrow> VfioContainer \<Rightarrow> guest_region list \<Rightarrow> ('k, unit) io" where
  "vfio_unmap_guest_memory E C =
     try_for_each (\<lambda>region. vfio_dma_unmap E C (gr_start_addr region) (gr_len region))"

lemma close_throw [simp]: "bind (close_file E f) (\<lambda>_. throw e) k = (Err e, k_close (env_kernel E) f k)"
  by (simp add: bind_def close_file_def throw_def)

section \<open>Properties\<close>

text \<open>
  C29: \<open>VfioContainer::new\<close> returns a container exactly when \<open>/dev/vfio/vfio\<close> opens, the kernel reports
  the API version of the bindings, and it supports the type 1 v2 IOMMU; the container then has the
  opened file and the given hypervisor device.
\<close>

theorem container_new_iff:
  "VfioContainer_new E device_fd k = (Ok C, k') \<longleftrightarrow>
     (\<exists>f k1 k2. k_open (env_kernel E) ''/dev/vfio/vfio'' k = (Inr f, k1) \<and>
        sys_check_api_version (env_sys E) f k1 = (Ok VFIO_API_VERSION, k2) \<and>
        sys_check_extension (env_sys E) f VFIO_TYPE1v2_IOMMU k2 = (Ok 1, k') \<and>
        C = \<lparr>ct_container = f, ct_device_fd = device_fd\<rparr>)"
  by (auto simp: VfioContainer_new_def check_api_version_def check_extension_def open_file_def Let_def
      bind_Ok_iff attempt_def attempted_Ok_iff split_sum_ex ret_def throw_def const_defs split: sum.split_asm prod.split_asm if_split_asm)

text \<open>
  C30: a container that cannot be used is not leaked: every error after opening closes the file. The
  error is \<open>VfioApiVersion\<close> for another API version and \<open>VfioExtension\<close> for a missing IOMMU type.
\<close>

theorem container_new_closes_file:
  assumes "vfio_syscalls (env_sys E)" "k_open (env_kernel E) ''/dev/vfio/vfio'' k = (Inr f, k1)"
    "VfioContainer_new E device_fd k = (r, k')"
  shows "(\<exists>C. r = Ok C) \<or>
    (\<exists>k2. r = Err VfioApiVersion \<and> (\<exists>v. sys_check_api_version (env_sys E) f k1 = (Ok v, k2) \<and> v \<noteq> VFIO_API_VERSION) \<and>
       k' = k_close (env_kernel E) f k2) \<or>
    (\<exists>k2 k3. r = Err VfioExtension \<and> sys_check_api_version (env_sys E) f k1 = (Ok VFIO_API_VERSION, k2) \<and>
       (\<exists>x. sys_check_extension (env_sys E) f VFIO_TYPE1v2_IOMMU k2 = (x, k3) \<and> x \<noteq> Ok 1) \<and>
       k' = k_close (env_kernel E) f k3)"
proof -
  let ?S = "env_sys E" and ?C = "\<lparr>ct_container = f, ct_device_fd = device_fd\<rparr>"
  obtain v k2 where v: "sys_check_api_version ?S f k1 = (Ok v, k2)"
    using vfio_syscalls.api_version_ok [OF assms(1)] by blast
  obtain x k3 where x: "sys_check_extension ?S f VFIO_TYPE1v2_IOMMU k2 = (x, k3)" by fastforce
  have xe: "x = Err VfioExtension \<or> (\<exists>n. x = Ok n)"
    using only_err_outcome [OF vfio_syscalls.extension_err [OF assms(1)], of f VFIO_TYPE1v2_IOMMU k2] x by auto
  let ?checks = "bind (check_api_version E ?C) (\<lambda>_. check_extension E ?C VFIO_TYPE1v2_IOMMU)"
  have run: "VfioContainer_new E device_fd k = bind (attempt ?checks) (\<lambda>r. case r of
      Inl e \<Rightarrow> bind (close_file E f) (\<lambda>_. throw e) | Inr _ \<Rightarrow> ret ?C) k1"
    using assms(2) by (simp add: VfioContainer_new_def open_file_def bind_def Let_def)
  have api: "?checks k1 = (if v \<noteq> VFIO_API_VERSION then (Err VfioApiVersion, k2)
      else (if x = Ok 1 then Ok () else Err VfioExtension, k3))"
    using v x xe by (auto simp: check_api_version_def check_extension_def bind_def throw_def ret_def split: if_split_asm)
  then show ?thesis
    using assms(3) v x run by (auto simp: bind_attempt_run ret_def split: if_split_asm)
qed

text \<open>
  C31: \<open>get_device\<close> returns a device exactly when the kernel hands out a descriptor for the last
  component of the path and the device is a PCI device with at least a config region and an MSI-X
  index.
\<close>

theorem get_device_iff:
  "get_device E grp name k = (Ok info, k') \<longleftrightarrow>
     (\<exists>path f k1 di. device_name name = Ok path \<and>
        sys_get_group_device_fd (env_sys E) (grp_group grp) path k = (Ok f, k1) \<and>
        sys_get_device_info (env_sys E) f \<lparr>di_argsz = 16, di_flags = 0, di_num_regions = 0, di_num_irqs = 0\<rparr> k1 =
          (Ok di, k') \<and>
        di_flags di AND VFIO_DEVICE_FLAGS_PCI \<noteq> 0 \<and> VFIO_PCI_CONFIG_REGION_INDEX + 1 \<le> di_num_regions di \<and>
        VFIO_PCI_MSIX_IRQ_INDEX + 1 \<le> di_num_irqs di \<and> info = VfioDeviceInfo_new f di)"
  by (fastforce simp: get_device_def bind_Ok_iff attempt_def attempted_Ok_iff split_sum_ex ret_def lift_def
      not_less split: if_split_asm)
end
