(* ===== verification/Dma_Mappings.thy ===== *)
theory Dma_Mappings
  imports Container
begin

text \<open>
  The DMA mappings of a container: \<open>vfio_map_guest_memory\<close> and \<open>vfio_unmap_guest_memory\<close> against an
  abstract IOMMU table, which the \<open>ioctl\<close> requests of the kernel change. Both stop at the first region that fails and do not undo the earlier ones.
\<close>

section \<open>Stopping at the first error\<close>

lemma try_for_each_append:
  "try_for_each f (xs @ ys) = bind (try_for_each f xs) (\<lambda>_. try_for_each f ys)"
  by (induction xs) (simp_all add: bind_assoc)

lemma try_for_each_Err_iff:
  "try_for_each f xs k = (Err e, k') \<longleftrightarrow>
     (\<exists>pre x post k1. xs = pre @ x # post \<and> try_for_each f pre k = (Ok (), k1) \<and> f x k1 = (Err e, k'))"
proof (induction xs arbitrary: k)
  case Nil
  then show ?case by (simp add: ret_def)
next
  case (Cons y ys)
  show ?case (is "?L \<longleftrightarrow> ?R")
  proof
    assume ?L
    then consider "f y k = (Err e, k')"
      | k1 where "f y k = (Ok (), k1)" "try_for_each f ys k1 = (Err e, k')" by (auto simp: bind_Err_iff)
    then show ?R
    proof cases
      case 1
      then show ?thesis by (intro exI [of _ "[]"]) (simp add: ret_def)
    next
      case 2
      from Cons.IH [THEN iffD1, OF 2(2)] obtain pre x post k2 where
        "ys = pre @ x # post" "try_for_each f pre k1 = (Ok (), k2)" "f x k2 = (Err e, k')" by blast
      then show ?thesis using 2(1) by (intro exI [of _ "y # pre"]) (simp add: bind_def)
    qed
  next
    assume ?R
    then obtain pre x post k1 where r: "y # ys = pre @ x # post" "try_for_each f pre k = (Ok (), k1)"
      "f x k1 = (Err e, k')" by blast
    have "try_for_each f (y # ys) k = bind (try_for_each f pre) (\<lambda>_. try_for_each f (x # post)) k"
      unfolding r(1) try_for_each_append ..
    then show ?L using r(2,3) by (simp add: bind_def)
  qed
qed

section \<open>An IOMMU table\<close>

























section \<open>Properties\<close>


text \<open>
  C28: mapping guest memory fails with the error of the first region that fails: every region before it
  has been mapped and stays mapped, and no region after it is attempted. The error is \<open>GetHostAddress\<close>
  when that region has no host address and otherwise the one of \<open>vfio_dma_map\<close>.
\<close>

theorem map_guest_memory_fails_at_first:
  "vfio_map_guest_memory E C mem k = (Err e, k') \<longleftrightarrow>
     (\<exists>pre r post k1. mem = pre @ r # post \<and> vfio_map_guest_memory E C pre k = (Ok (), k1) \<and>
        (case gr_host_address r of
           None \<Rightarrow> e = GetHostAddress \<and> k' = k1
         | Some v \<Rightarrow> vfio_dma_map E C (gr_start_addr r) (gr_len r) v k1 = (Err e, k')))"
proof -
  have "bind (lift (ok_or GetHostAddress (gr_host_address r))) (\<lambda>h. vfio_dma_map E C (gr_start_addr r) (gr_len r) h) k1
      = (Err e, k') \<longleftrightarrow> (case gr_host_address r of None \<Rightarrow> e = GetHostAddress \<and> k' = k1
         | Some v \<Rightarrow> vfio_dma_map E C (gr_start_addr r) (gr_len r) v k1 = (Err e, k'))" for r :: guest_region and k1
    by (cases "gr_host_address r") (auto simp: throw_def)
  then show ?thesis unfolding vfio_map_guest_memory_def try_for_each_Err_iff by simp
qed

end
