(* ===== verification/Group_Refs.thy ===== *)
theory Group_Refs
  imports Container
begin

text \<open>
  Reference counting of groups: \<open>get_group\<close> and \<open>put_group\<close> of \<open>VfioContainer\<close> keep the counts of
  the \<open>Arc<VfioGroup>\<close>s equal to the number of references that exist, the table of groups only lists
  live groups, and a group leaves the table only when the caller holds the last references.
\<close>

section \<open>Kernel calls leave the heap and the table alone\<close>

definition same_heap :: "'k world \<Rightarrow> 'k world \<Rightarrow> bool" where
  "same_heap w w' \<longleftrightarrow> arcs w' = arcs w \<and> next_arc w' = next_arc w \<and> groups w' = groups w"

lemma same_heap_refl [simp]: "same_heap w w"
  by (simp add: same_heap_def)

lemma triple_kernel: "triple (on_kernel m) w (\<lambda>_. same_heap w) (\<lambda>_. same_heap w)"
  by (auto simp: triple_def on_kernel_def same_heap_def split: prod.splits)

lemma triple_attempt_kernel: "triple (attempt (on_kernel m)) w (\<lambda>_. same_heap w) X"
  by (rule triple_attempt) (rule triple_kernel)

lemma triple_attempt_kernel_if:
  "triple (attempt (if b then on_kernel m else ret x)) w (\<lambda>_. same_heap w) X"
  by (rule triple_attempt) (auto intro: triple_kernel triple_ret)

section \<open>Attaching a group\<close>

text \<open>The heap while a new group is being attached, and after giving it up.\<close>

definition pending :: "VfioGroup \<Rightarrow> 'k world \<Rightarrow> 'k world \<Rightarrow> bool" where
  "pending g w w' \<longleftrightarrow> arcs w' = (arcs w)(next_arc w \<mapsto> (g, 1)) \<and> next_arc w' = Suc (next_arc w) \<and>
     groups w' = groups w"

definition released :: "'k world \<Rightarrow> 'k world \<Rightarrow> bool" where
  "released w w' \<longleftrightarrow> arcs w' = (arcs w)(next_arc w := None) \<and> next_arc w' = Suc (next_arc w) \<and>
     groups w' = groups w"

definition attached :: "u32 \<Rightarrow> VfioGroup \<Rightarrow> 'k world \<Rightarrow> arc \<Rightarrow> 'k world \<Rightarrow> bool" where
  "attached gid g w a w' \<longleftrightarrow> a = next_arc w \<and> arcs w' = (arcs w)(a \<mapsto> (g, 2)) \<and>
     next_arc w' = Suc a \<and> groups w' = hm_insert gid a (groups w)"

lemma pending_same_heap: "pending g w w1 \<Longrightarrow> same_heap w1 w2 \<Longrightarrow> pending g w w2"
  by (simp add: pending_def same_heap_def)

lemma triple_fail_unbound:
  "pending g w w1 \<Longrightarrow> triple (fail_unbound E (next_arc w) e) w1 Q (\<lambda>_. released w)"
  by (auto simp: triple_def fail_unbound_def bind_def throw_def arc_drop_def pending_def released_def)

lemma triple_fail_bound:
  assumes "pending g w w1"
  shows "triple (fail_bound E C (next_arc w) g e) w1 Q (\<lambda>_. released w)"
  unfolding fail_bound_def
  by (rule triple_bind [OF triple_attempt_kernel])
    (rule triple_fail_unbound [unfolded fail_unbound_def, OF pending_same_heap [OF assms]])

lemma triple_insert_group:
  "pending g w w1 \<Longrightarrow> triple (insert_group gid (next_arc w)) w1 (attached gid g w) X"
  by (auto simp: triple_def insert_group_def bind_def arc_clone_def pending_def attached_def)

lemma triple_attach_group: "triple (attach_group E C gid g) w (attached gid g w) (\<lambda>_. released w)"
  unfolding attach_group_def
proof (rule triple_bind [where R = "\<lambda>a w'. a = next_arc w \<and> pending g w w'"], goal_cases)
  case 1
  show ?case by (simp add: triple_def arc_new_def pending_def)
next
  case (2 a w1)
  then have a: "a = next_arc w" and p: "pending g w w1" by simp_all
  show ?case
  proof (rule triple_bind [OF triple_attempt_kernel], rule triple_sum, goal_cases)
    case (1 r w2 e)
    then show ?case unfolding a using pending_same_heap [OF p] triple_fail_unbound by blast
  next
    case (2 r w2 u)
    have p2: "pending g w w2" using pending_same_heap [OF p 2(1)] .
    have "triple (bind (attempt (if hm_len (groups w2) = 0 then on_kernel (set_iommu E C VFIO_TYPE1v2_IOMMU) else ret ()))
       (\<lambda>r. case r of Inl e \<Rightarrow> fail_bound E C a g e
       | Inr _ \<Rightarrow> bind (attempt (if hypervisor E then on_kernel (device_add_group E C g) else ret ()))
          (\<lambda>r. case r of Inl e \<Rightarrow> fail_bound E C a g e | Inr _ \<Rightarrow> insert_group gid a))) w2
       (attached gid g w) (\<lambda>_. released w)"
      unfolding a
    proof (rule triple_bind [OF triple_attempt_kernel_if], rule triple_sum, goal_cases)
      case (1 r w3 e)
      then show ?case using pending_same_heap [OF p2] triple_fail_bound by blast
    next
      case (2 r w3 u)
      have p3: "pending g w w3" using pending_same_heap [OF p2 2(1)] .
      show ?case
        by (rule triple_bind [OF triple_attempt_kernel_if], rule triple_sum)
          (use pending_same_heap [OF p3] triple_fail_bound triple_insert_group in blast)+
    qed
    then show ?case by (simp add: triple_def)
  qed
qed


section \<open>Reference counting\<close>

text \<open>
  \<open>arc_ok h tab a x\<close>: the heap cell \<open>x\<close> of reference \<open>a\<close> accounts for all references to it, \<open>h a\<close> of
  them held outside the table (by devices and by calls in progress) and one by the table if it lists
  the group, which it can do under the group's own id only.
\<close>

fun arc_ok :: "(arc \<Rightarrow> nat) \<Rightarrow> (u32 \<rightharpoonup> arc) \<Rightarrow> arc \<Rightarrow> (VfioGroup \<times> nat) option \<Rightarrow> bool" where
  "arc_ok h tab a None \<longleftrightarrow> h a = 0 \<and> (\<forall>gid. tab gid \<noteq> Some a)"
| "arc_ok h tab a (Some (g, n)) \<longleftrightarrow>
     0 < n \<and> n = h a + (if tab (grp_id g) = Some a then 1 else 0) \<and>
     (\<forall>gid. tab gid = Some a \<longrightarrow> gid = grp_id g)"

definition refs_ok :: "(arc \<Rightarrow> nat) \<Rightarrow> 'k world \<Rightarrow> bool" where
  "refs_ok h w \<longleftrightarrow> hm_inv (groups w) \<and> (\<forall>a. next_arc w \<le> a \<longrightarrow> arcs w a = None) \<and>
     (\<forall>a. arc_ok h (hm_get (groups w)) a (arcs w a))"

lemma refs_okD:
  assumes "refs_ok h w"
  shows "hm_inv (groups w)" "next_arc w \<le> a \<Longrightarrow> arcs w a = None"
    "arc_ok h (hm_get (groups w)) a (arcs w a)"
  using assms unfolding refs_ok_def by blast+

lemma refs_ok_same_heap: "same_heap w w' \<Longrightarrow> refs_ok h w' \<longleftrightarrow> refs_ok h w"
  by (simp add: refs_ok_def same_heap_def)

lemma arc_ok_other_h [simp]: "b \<noteq> a \<Longrightarrow> arc_ok (h(a := n)) tab b x = arc_ok h tab b x"
  by (cases "(h, tab, b, x)" rule: arc_ok.cases) simp_all

lemma arc_ok_cong:
  "(\<And>gid. tab' gid = Some b \<longleftrightarrow> tab gid = Some b) \<Longrightarrow> arc_ok h tab' b x = arc_ok h tab b x"
  by (cases "(h, tab, b, x)" rule: arc_ok.cases) simp_all

lemma arc_ok_other_insert:
  "b \<noteq> a \<Longrightarrow> tab gid = None \<Longrightarrow> arc_ok h (tab(gid \<mapsto> a)) b x = arc_ok h tab b x"
  by (rule arc_ok_cong) auto

lemma arc_ok_other_remove:
  "b \<noteq> a \<Longrightarrow> tab gid = Some a \<Longrightarrow> arc_ok h (tab(gid := None)) b x = arc_ok h tab b x"
  by (rule arc_ok_cong) auto

lemma refs_ok_listed:
  "refs_ok h w \<Longrightarrow> hm_get (groups w) gid = Some a \<Longrightarrow>
   \<exists>g n. arcs w a = Some (g, n) \<and> grp_id g = gid \<and> n = Suc (h a)"
  using refs_okD(3) [of h w a] by (cases "arcs w a") auto

lemma refs_ok_alive:
  "refs_ok h w \<Longrightarrow> 0 < h a \<Longrightarrow> \<exists>g n. arcs w a = Some (g, n) \<and> 0 < n"
  using refs_okD(3) [of h w a] by (cases "arcs w a") auto

text \<open>Changing the count of one reference and what is held outside by the same amount.\<close>

lemma refs_ok_recount:
  fixes w w' :: "'k world"
  assumes "refs_ok h w" "arcs w a = Some (g, n)" "int m - int n = int k - int (h a)" "0 < m"
    "arcs w' = (arcs w)(a \<mapsto> (g, m))" "next_arc w' = next_arc w" "groups w' = groups w"
  shows "refs_ok (h(a := k)) w'"
proof -
  have "arc_ok (h(a := k)) (hm_get (groups w)) b (arcs w' b)" for b
    using refs_okD(3) [OF assms(1), of b] assms(2-5) by (cases "b = a") auto
  moreover have "next_arc w \<le> b \<Longrightarrow> arcs w' b = None" for b
    using refs_okD(2) [OF assms(1), of b] assms(2,5) by (cases "b = a") auto
  ultimately show ?thesis using refs_okD(1) [OF assms(1)] assms(6,7) by (simp add: refs_ok_def)
qed

lemma triple_arc_clone:
  assumes "refs_ok h w" "arcs w a = Some (g, n)"
  shows "triple (arc_clone a) w (\<lambda>b w'. b = a \<and> refs_ok (h(a := Suc (h a))) w' \<and> groups w' = groups w) X"
  using refs_ok_recount [OF assms, of "Suc n" "Suc (h a)"] assms(2)
  by (simp add: triple_def arc_clone_def)

text \<open>Freeing a group that is neither listed nor held any more.\<close>

lemma refs_ok_free:
  fixes w w' :: "'k world"
  assumes "refs_ok h w" "arcs w a = Some (g, 1)" "h a = 1"
    "arcs w' = (arcs w)(a := None)" "next_arc w' = next_arc w" "groups w' = groups w"
  shows "refs_ok (h(a := 0)) w'"
proof -
  have "arc_ok (h(a := 0)) (hm_get (groups w)) b (arcs w' b)" for b
    using refs_okD(3) [OF assms(1), of b] assms(2-4) by (cases "b = a") (auto split: if_splits)
  moreover have "next_arc w \<le> b \<Longrightarrow> arcs w' b = None" for b
    using refs_okD(2) [OF assms(1), of b] assms(4) by (cases "b = a") auto
  ultimately show ?thesis using refs_okD(1) [OF assms(1)] assms(5,6) by (simp add: refs_ok_def)
qed

lemma arc_drop_held:
  assumes "refs_ok h w" "0 < h a"
  shows "\<exists>w'. arc_drop E a w = (Ok (), w') \<and> refs_ok (h(a := h a - 1)) w' \<and> groups w' = groups w"
proof -
  obtain g n where g: "arcs w a = Some (g, n)" "0 < n" using refs_ok_alive [OF assms] by blast
  show ?thesis
  proof (cases "n = 1")
    case True
    then have "h a = 1" using refs_okD(3) [OF assms(1), of a] g assms(2) by (auto split: if_splits)
    then show ?thesis
      using refs_ok_free [OF assms(1), of a g] g True by (simp add: arc_drop_def)
  next
    case False
    then show ?thesis
      using refs_ok_recount [OF assms(1) g(1), of "n - 1" "h a - 1"] g assms(2) by (simp add: arc_drop_def)
  qed
qed

lemma refs_ok_attached:
  fixes w w' :: "'k world"
  assumes "refs_ok h w" "attached gid g w a w'" "grp_id g = gid" "hm_get (groups w) gid = None"
  shows "refs_ok (h(a := Suc (h a))) w'"
proof -
  have at: "a = next_arc w" "arcs w' = (arcs w)(a \<mapsto> (g, 2))" "next_arc w' = Suc a"
    "groups w' = hm_insert gid a (groups w)" using assms(2) by (simp_all add: attached_def)
  have tab: "hm_get (groups w') = (hm_get (groups w))(gid \<mapsto> a)"
    using at(4) refs_okD(1) [OF assms(1)] by (simp add: hm.get_insert)
  have "arcs w a = None" using refs_okD(2) [OF assms(1), of a] at(1) by simp
  then have a: "h a = 0" "\<forall>gid. hm_get (groups w) gid \<noteq> Some a"
    using refs_okD(3) [OF assms(1), of a] by simp_all
  have "arc_ok (h(a := Suc (h a))) (hm_get (groups w')) b (arcs w' b)" for b
  proof (cases "b = a")
    case True
    then show ?thesis using a assms(3) by (simp add: tab at(2))
  next
    case False
    then show ?thesis
      using refs_okD(3) [OF assms(1), of b] arc_ok_other_insert [of b a "hm_get (groups w)" gid] assms(4)
      by (simp add: tab at(2))
  qed
  moreover have "next_arc w' \<le> b \<Longrightarrow> arcs w' b = None" for b
    using refs_okD(2) [OF assms(1), of b] at(1-3) by simp
  moreover have "hm_inv (groups w')"
    using refs_okD(1) [OF assms(1)] at(4) by (simp add: hm.invar_insert)
  ultimately show ?thesis by (simp add: refs_ok_def)
qed

lemma refs_ok_released:
  fixes w w' :: "'k world"
  assumes "refs_ok h w" "released w w'"
  shows "refs_ok h w'" and "arcs w' = arcs w"
proof -
  show "arcs w' = arcs w" using assms refs_okD(2) [OF assms(1), of "next_arc w"]
    by (simp add: released_def fun_upd_idem)
  then show "refs_ok h w'" using assms unfolding refs_ok_def released_def by simp
qed

section \<open>Acquiring a group\<close>

lemma VfioGroup_new_id:
  assumes "VfioGroup_new E gid k = (Ok g, k')"
  shows "grp_id g = gid"
proof -
  from assms obtain f k2 and r :: "VfioError + vfio_group_status" where "(case r of
       Inl e \<Rightarrow> bind (close_file E f) (\<lambda>_. throw e)
     | Inr st \<Rightarrow> if gs_flags st \<noteq> VFIO_GROUP_FLAGS_VIABLE
         then bind (close_file E f) (\<lambda>_. throw GroupViable)
         else ret \<lparr>grp_id = gid, grp_group = f\<rparr>) k2 = (Ok g, k')"
    unfolding VfioGroup_new_def bind_Ok_iff by blast
  then show ?thesis by (auto simp: bind_Ok_iff throw_def ret_def split: sum.split_asm if_split_asm)
qed

lemma triple_VfioGroup_new:
  "triple (VfioGroup_new E gid) k (\<lambda>g _. grp_id g = gid) (\<lambda>_ _. True)"
  by (simp add: triple_def VfioGroup_new_id)

lemma triple_on_kernel:
  assumes "triple m (kst w) (\<lambda>a _. Q a) (\<lambda>_ _. True)"
  shows "triple (on_kernel m) w (\<lambda>a w'. Q a \<and> same_heap w w') (\<lambda>_. same_heap w)"
  using assms by (auto simp: triple_def on_kernel_def same_heap_def split: prod.splits)

lemma triple_get_group:
  assumes "refs_ok h w"
  shows "triple (get_group E C gid) w
    (\<lambda>a w'. refs_ok (h(a := Suc (h a))) w' \<and>
       hm_get (groups w') = (hm_get (groups w))(gid \<mapsto> a) \<and>
       (hm_get (groups w) gid = None \<longrightarrow> h a = 0))
    (\<lambda>_ w'. refs_ok h w' \<and> groups w' = groups w \<and> arcs w' = arcs w)"
proof (cases "hm_get (groups w) gid")
  case (Some a)
  then obtain g n where g: "arcs w a = Some (g, n)" using refs_ok_listed [OF assms] by blast
  have "get_group E C gid w = arc_clone a w" using Some by (simp add: get_group_def)
  then show ?thesis
    using triple_arc_clone [OF assms g] Some by (auto simp: triple_def fun_upd_idem)
next
  case None
  have "triple (bind (on_kernel (VfioGroup_new E gid)) (attach_group E C gid)) w
    (\<lambda>a w'. \<exists>g w1. grp_id g = gid \<and> same_heap w w1 \<and> attached gid g w1 a w')
    (\<lambda>_ w'. \<exists>w1. same_heap w w1 \<and> (w' = w1 \<or> released w1 w'))"
    by (rule triple_bind,
        rule triple_conseq [OF triple_on_kernel [OF triple_VfioGroup_new]], assumption, blast,
        rule triple_conseq [OF triple_attach_group]) blast+
  then have t: "triple (get_group E C gid) w
    (\<lambda>a w'. \<exists>g w1. grp_id g = gid \<and> same_heap w w1 \<and> attached gid g w1 a w')
    (\<lambda>_ w'. \<exists>w1. same_heap w w1 \<and> (w' = w1 \<or> released w1 w'))"
    by (simp add: triple_def get_group_def None)
  show ?thesis
  proof (rule triple_conseq [OF t])
    fix a w'
    assume "\<exists>g w1. grp_id g = gid \<and> same_heap w w1 \<and> attached gid g w1 a w'"
    then obtain g w1 where w1: "grp_id g = gid" "same_heap w w1" "attached gid g w1 a w'" by blast
    have r1: "refs_ok h w1" and n1: "hm_get (groups w1) gid = None"
      using assms w1(2) None by (simp_all add: refs_ok_same_heap) (simp add: same_heap_def)
    have "arcs w1 a = None" using w1(3) refs_okD(2) [OF r1] by (simp add: attached_def)
    then have "h a = 0" using refs_okD(3) [OF r1, of a] by simp
    then show "refs_ok (h(a := Suc (h a))) w' \<and> hm_get (groups w') = (hm_get (groups w))(gid \<mapsto> a) \<and>
       (hm_get (groups w) gid = None \<longrightarrow> h a = 0)"
      using refs_ok_attached [OF r1 w1(3,1) n1] w1(2,3) refs_okD(1) [OF r1]
      by (simp add: attached_def same_heap_def hm.get_insert)
  next
    fix e w'
    assume "\<exists>w1. same_heap w w1 \<and> (w' = w1 \<or> released w1 w')"
    then obtain w1 where w1: "same_heap w w1" "w' = w1 \<or> released w1 w'" by blast
    have r1: "refs_ok h w1" using assms w1(1) by (simp add: refs_ok_same_heap)
    from w1(2) show "refs_ok h w' \<and> groups w' = groups w \<and> arcs w' = arcs w"
    proof
      assume "w' = w1"
      then show ?thesis using w1(1) r1 by (simp add: same_heap_def)
    next
      assume "released w1 w'"
      then show ?thesis
        using w1(1) refs_ok_released [OF r1, of w'] by (simp add: same_heap_def released_def)
    qed
  qed
qed

section \<open>Releasing a group\<close>

lemma arc_ok_unlisted:
  "arc_ok h tab a (Some (g, Suc m)) \<Longrightarrow> tab gid = Some a \<Longrightarrow> 0 < m \<Longrightarrow>
   arc_ok h (tab(gid := None)) a (Some (g, m))"
  by auto

lemma remove_group_ok:
  fixes w :: "'k world"
  assumes "refs_ok h w"
  shows "\<exists>w'. remove_group E gid w = (Ok (), w') \<and> refs_ok h w' \<and>
    hm_get (groups w') = (hm_get (groups w))(gid := None)"
proof (cases "hm_get (groups w) gid")
  case None
  then show ?thesis using assms by (auto simp: remove_group_def fun_upd_idem)
next
  case (Some b)
  obtain g where g: "arcs w b = Some (g, Suc (h b))" "grp_id g = gid"
    using refs_ok_listed [OF assms Some] by blast
  define w' where "w' = snd (remove_group E gid w)"
  have run: "remove_group E gid w = (Ok (), w')"
    using Some g by (simp add: w'_def remove_group_def arc_drop_def)
  have arcs: "arcs w' = (arcs w)(b := (if h b = 0 then None else Some (g, h b)))"
    and nxt: "next_arc w' = next_arc w" and grp: "groups w' = hm_remove gid (groups w)"
    using Some g by (simp_all add: w'_def remove_group_def arc_drop_def)
  have tab: "hm_get (groups w') = (hm_get (groups w))(gid := None)"
    using refs_okD(1) [OF assms] by (simp add: grp hm.get_remove)
  have only: "hm_get (groups w) gid' = Some b \<Longrightarrow> gid' = gid" for gid'
    using refs_okD(3) [OF assms, of b] g by simp
  have "arc_ok h (hm_get (groups w')) c (arcs w' c)" for c
  proof (cases "c = b")
    case True
    then show ?thesis using only g(2) by (auto simp: arcs tab)
  next
    case False
    then show ?thesis
      using refs_okD(3) [OF assms, of c] arc_ok_other_remove [of c b "hm_get (groups w)" gid h] Some
      by (simp add: arcs tab)
  qed
  moreover have "next_arc w' \<le> c \<Longrightarrow> arcs w' c = None" for c
    using refs_okD(2) [OF assms, of c] g by (cases "c = b") (auto simp: arcs nxt)
  moreover have "hm_inv (groups w')" using refs_okD(1) [OF assms] by (simp add: grp hm.invar_remove)
  ultimately have "refs_ok h w'" by (simp add: refs_ok_def)
  then show ?thesis using run tab by blast
qed

lemma triple_remove_group:
  assumes "refs_ok h w"
  shows "triple (remove_group E gid) w
    (\<lambda>_ w'. refs_ok h w' \<and> hm_get (groups w') = (hm_get (groups w))(gid := None)) (\<lambda>_ _. False)"
  using remove_group_ok [OF assms, of E gid] by (auto simp: triple_def)

lemma triple_put_group_locked:
  fixes w :: "'k world"
  assumes "refs_ok h w" "arcs w a = Some (g, n)"
  shows "triple (put_group_locked E C a) w
    (\<lambda>_ w'. refs_ok h w' \<and>
       (same_heap w w' \<or> n = 3 \<and> hm_get (groups w') = (hm_get (groups w))(grp_id g := None)))
    (\<lambda>_ _. False)" (is "triple _ _ (\<lambda>_. ?Q) _")
proof (cases "n = 3")
  case False
  then show ?thesis
    using assms by (simp add: triple_def put_group_locked_def strong_count_def)
next
  case n: True
  have sh: "?Q w'" if "same_heap w w'" for w' :: "'k world"
    using assms(1) that refs_ok_same_heap [of w w' h] by simp
  have rm: "triple (remove_group E (grp_id g)) w2 (\<lambda>_. ?Q) (\<lambda>_ _. False)" if "same_heap w w2" for w2 :: "'k world"
    by (rule triple_conseq [OF triple_remove_group [of h]])
      (use that assms(1) n refs_ok_same_heap [of w w2 h] in \<open>simp_all add: same_heap_def\<close>)
  have trans: "same_heap w w2" if "same_heap w w1" "same_heap w1 w2" for w1 w2 :: "'k world"
    using that by (simp add: same_heap_def)
  have "triple (bind (attempt (if hypervisor E then on_kernel (device_del_group E C g) else ret ())) (\<lambda>r. case r of
          Inl _ \<Rightarrow> ret ()
        | Inr _ \<Rightarrow>
        bind (attempt (on_kernel (sys_unset_group_container (env_sys E) (grp_group g) (ct_container C)))) (\<lambda>r. case r of
          Inl _ \<Rightarrow> ret ()
        | Inr _ \<Rightarrow> remove_group E (grp_id g)))) w (\<lambda>_. ?Q) (\<lambda>_ _. False)"
  proof (rule triple_bind [OF triple_attempt_kernel_if], rule triple_sum, goal_cases)
    case (1 r w1 e)
    then show ?case by (intro triple_ret sh)
  next
    case (2 r w1 u)
    show ?case
      by (rule triple_bind [OF triple_attempt_kernel], rule triple_sum)
        (rule triple_ret sh rm, (rule sh)?, rule trans [OF 2(1)], assumption)+
  qed
  then show ?thesis
    using n assms(2) by (simp add: triple_def put_group_locked_def strong_count_def arc_get_def bind_def)
qed

lemma triple_put_group:
  fixes w :: "'k world"
  assumes "refs_ok h w" "0 < h a"
  shows "triple (put_group E C a) w
    (\<lambda>_ w'. refs_ok (h(a := h a - 1)) w' \<and>
       (groups w' = groups w \<or>
        (\<exists>g. arcs w a = Some (g, 3) \<and> hm_get (groups w') = (hm_get (groups w))(grp_id g := None))))
    (\<lambda>_ _. False)" (is "triple _ _ (\<lambda>_. ?Q) _")
proof -
  obtain g n where g: "arcs w a = Some (g, n)" using refs_ok_alive [OF assms] by blast
  show ?thesis unfolding put_group_def
  proof (rule triple_bind [OF triple_put_group_locked [OF assms(1) g]], goal_cases)
    case (1 u w1)
    then show ?case using arc_drop_held [of h w1 a E] assms(2) g
      by (auto simp: triple_def same_heap_def)
  qed
qed
section \<open>Properties\<close>

text \<open>
  C13: acquiring a group counts it. When the reference counts are right (\<open>refs_ok h\<close>: every count is
  the number \<open>h\<close> of references held outside the table plus the table's own) and \<open>get_group\<close> returns a
  reference, the counts are right again with one more reference held, the table lists the group under
  the requested id, and it was already the listed one or is a group nobody held before.
\<close>

theorem get_group_acquires:
  assumes "refs_ok h w" "get_group E C gid w = (Ok a, w')"
  shows "refs_ok (h(a := Suc (h a))) w' \<and> hm_get (groups w') = (hm_get (groups w))(gid \<mapsto> a) \<and>
    (hm_get (groups w) gid = Some a \<or> hm_get (groups w) gid = None \<and> h a = 0)"
proof -
  have post: "refs_ok (h(a := Suc (h a))) w'" "hm_get (groups w') = (hm_get (groups w))(gid \<mapsto> a)"
    "hm_get (groups w) gid = None \<longrightarrow> h a = 0"
    using triple_OkD [OF triple_get_group [OF assms(1)] assms(2)] by blast+
  moreover have "hm_get (groups w) gid = Some b \<Longrightarrow> b = a" for b
    using assms(2) by (auto simp: get_group_def arc_clone_def split: option.splits prod.splits)
  ultimately show ?thesis by (cases "hm_get (groups w) gid") auto
qed

text \<open>
  C14: a failing \<open>get_group\<close> leaves no trace in the process: the table, the live groups and every
  reference count are as they were, whichever of its steps failed.
\<close>

theorem get_group_failure_restores:
  assumes "refs_ok h w" "get_group E C gid w = (Err e, w')"
  shows "refs_ok h w' \<and> groups w' = groups w \<and> arcs w' = arcs w"
  using triple_ErrD [OF triple_get_group [OF assms(1)] assms(2)] .

text \<open>Changing how the IOMMU type is set changes nothing else.\<close>

definition with_iommu :: "(fd \<Rightarrow> u32 \<Rightarrow> ('k, unit) io) \<Rightarrow> 'k env \<Rightarrow> 'k env" where
  "with_iommu f E = E\<lparr>env_sys := (env_sys E)\<lparr>sys_set_iommu := f\<rparr>\<rparr>"

lemma with_iommu_simps [simp]:
  "env_kernel (with_iommu f E) = env_kernel E"
  "env_feat (with_iommu f E) = env_feat E"
  "sys_set_group_container (env_sys (with_iommu f E)) = sys_set_group_container (env_sys E)"
  "sys_unset_group_container (env_sys (with_iommu f E)) = sys_unset_group_container (env_sys E)"
  "sys_get_group_status (env_sys (with_iommu f E)) = sys_get_group_status (env_sys E)"
  by (simp_all add: with_iommu_def)

lemma with_iommu_ops [simp]:
  "close_file (with_iommu f E) = close_file E"
  "open_file (with_iommu f E) = open_file E"
  "arc_drop (with_iommu f E) = arc_drop E"
  "set_device_attr (with_iommu f E) = set_device_attr E"
  "hypervisor (with_iommu f E) = hypervisor E"
  unfolding fun_eq_iff close_file_def open_file_def arc_drop_def set_device_attr_def hypervisor_def
    with_iommu_simps by simp_all

lemma with_iommu_group_ops:
  "VfioGroup_new (with_iommu f E) = VfioGroup_new E"
  "fail_unbound (with_iommu f E) = fail_unbound E"
  "fail_bound (with_iommu f E) = fail_bound E"
  "device_add_group (with_iommu f E) = device_add_group E"
  unfolding fun_eq_iff VfioGroup_new_def open_group_file_def fail_unbound_def fail_bound_def
    device_add_group_def device_set_group_def with_iommu_simps with_iommu_ops by simp_all

lemma with_iommu_attach_group:
  assumes "hm_len (groups w) \<noteq> 0"
  shows "attach_group (with_iommu f E) C gid g w = attach_group E C gid g w"
proof -
  obtain r k where "sys_set_group_container (env_sys E) (grp_group g) (ct_container C) (kst w) = (r, k)"
    by (cases "sys_set_group_container (env_sys E) (grp_group g) (ct_container C) (kst w)")
  then show ?thesis using assms
    by (cases r) (simp_all add: attach_group_def with_iommu_group_ops bind_def attempt_def arc_new_def on_kernel_def)
qed

text \<open>
  The IOMMU type of the container is set for the first group only: with a group in the table,
  \<open>get_group\<close> behaves the same whatever the \<open>VFIO_SET_IOMMU\<close> call does.
\<close>

theorem iommu_set_for_first_group_only:
  assumes "refs_ok h w" "hm_get (groups w) gid0 \<noteq> None"
  shows "get_group (with_iommu f E) C gid w = get_group E C gid w"
proof -
  have n: "hm_len (groups w) \<noteq> 0"
    using assms hm.len_empty_iff [OF refs_okD(1) [OF assms(1)]] by metis
  obtain r k where r: "VfioGroup_new E gid (kst w) = (r, k)" by (cases "VfioGroup_new E gid (kst w)")
  then show ?thesis
    using n by (cases r) (simp_all add: get_group_def with_iommu_group_ops bind_def on_kernel_def
      with_iommu_attach_group split: option.splits)
qed

text \<open>
  No half-attached group. When the group was bound to the container but the IOMMU type cannot be
  set, \<open>get_group\<close> unbinds the group again, closes its file and reports the error.
\<close>

theorem get_group_undoes_binding:
  assumes "refs_ok h w" "hm_len (groups w) = 0" "VfioGroup_new E gid (kst w) = (Ok g, k1)"
    "sys_set_group_container (env_sys E) (grp_group g) (ct_container C) k1 = (Ok (), k2)"
    "sys_set_iommu (env_sys E) (ct_container C) VFIO_TYPE1v2_IOMMU k2 = (Err e, k3)"
    "sys_unset_group_container (env_sys E) (grp_group g) (ct_container C) k3 = (r, k4)" "graceful r"
  shows "fst (get_group E C gid w) = Err e \<and>
    kst (snd (get_group E C gid w)) = k_close (env_kernel E) (grp_group g) k4"
proof -
  have "hm_get (groups w) gid = None"
    using assms(2) hm.len_empty_iff [OF refs_okD(1) [OF assms(1)]] by simp
  then show ?thesis
    using assms(2-) by (cases r) (simp_all add: get_group_def attach_group_def fail_bound_def set_iommu_def
      arc_new_def on_kernel_def arc_drop_def io_defs)
qed

text \<open>With system calls that keep the contract of \<open>vfio_syscalls\<close>, releasing a group never panics.\<close>

lemma graceful_attempt: "graceful (fst (m s)) \<Longrightarrow> graceful (fst (attempt m s))"
  by (cases "m s"; cases "fst (m s)") (auto simp: attempt_def)

lemma graceful_on_kernel: "graceful (fst (m (kst w))) \<Longrightarrow> graceful (fst (on_kernel m w))"
  by (auto simp: on_kernel_def split: prod.splits)

lemma graceful_ret: "graceful (fst (ret x s))"
  by (simp add: ret_def)

lemma graceful_device_del_group: "graceful (fst (device_del_group E C g k))"
  by (auto simp: device_del_group_def device_set_group_def set_device_attr_def ret_def Let_def
      split: option.splits VfioDeviceFd.splits prod.splits sum.splits)

lemmas graceful_intros = graceful_bind graceful_attempt graceful_on_kernel graceful_ret graceful_device_del_group

context vfio_syscalls
begin

lemma graceful_put_group_locked:
  assumes "refs_ok h w" "arcs w a = Some (g, n)" "env_sys E = S"
  shows "graceful (fst (put_group_locked E C a w))"
proof -
  have un: "graceful (fst (attempt (on_kernel (sys_unset_group_container S f c)) w1))" for f c w1
    by (intro graceful_intros) (rule only_err_graceful [OF unset_container_err])
  have rm: "graceful (fst (remove_group E gid w1))" if "same_heap w w1" for gid w1
    using remove_group_ok [of h w1 E gid] assms(1) refs_ok_same_heap [OF that] by auto
  have last: "graceful (fst (bind (attempt (on_kernel (sys_unset_group_container S f c)))
      (\<lambda>r. case r of Inl _ \<Rightarrow> ret () | Inr _ \<Rightarrow> remove_group E gid) w1))" if "same_heap w w1" for f c gid w1
  proof (rule graceful_bind [OF un], goal_cases)
    case (1 r w2)
    have "same_heap w w2"
      using triple_OkD [OF triple_attempt_kernel 1] that by (simp add: same_heap_def)
    then show ?case using rm by (cases r) (simp_all add: ret_def)
  qed
  have "graceful (fst (bind (attempt (if hypervisor E then on_kernel (device_del_group E C g) else ret ()))
      (\<lambda>r. case r of Inl _ \<Rightarrow> ret () | Inr _ \<Rightarrow>
        bind (attempt (on_kernel (sys_unset_group_container S (grp_group g) (ct_container C))))
          (\<lambda>r. case r of Inl _ \<Rightarrow> ret () | Inr _ \<Rightarrow> remove_group E (grp_id g))) w))"
  proof (rule graceful_bind, goal_cases)
    case 1
    show ?case by (cases "hypervisor E") (auto intro!: graceful_intros)
  next
    case (2 r w1)
    then show ?case using last triple_OkD [OF triple_attempt_kernel_if 2]
      by (cases r) (simp_all add: ret_def)
  qed
  then show ?thesis
    using assms(2,3) by (simp add: put_group_locked_def strong_count_def arc_get_def bind_def)
qed

lemma graceful_put_group:
  assumes "refs_ok h w" "0 < h a" "env_sys E = S"
  shows "graceful (fst (put_group E C a w))"
proof -
  obtain g n where g: "arcs w a = Some (g, n)" using refs_ok_alive [OF assms(1,2)] by blast
  show ?thesis unfolding put_group_def
  proof (rule graceful_bind, goal_cases)
    case 1
    show ?case by (rule graceful_put_group_locked [OF assms(1) g assms(3)])
  next
    case (2 u w1)
    have "refs_ok h w1" using triple_OkD [OF triple_put_group_locked [OF assms(1) g] 2] by blast
    then show ?case using arc_drop_held [of h w1 a E] assms(2) by auto
  qed
qed

end

lemma put_group_returns:
  assumes "vfio_syscalls (env_sys E)" "refs_ok h w" "0 < h a"
  shows "\<exists>w'. put_group E C a w = (Ok (), w') \<and> refs_ok (h(a := h a - 1)) w' \<and>
    (groups w' = groups w \<or> strong_count a w = 3)"
proof -
  note t = triple_put_group [OF assms(2,3), of E C]
  have "graceful (fst (put_group E C a w))"
    by (rule vfio_syscalls.graceful_put_group [OF assms refl])
  then show ?thesis
  proof (cases rule: graceful_cases)
    case (1 u)
    then show ?thesis using triple_OkD [OF t, of u "snd (put_group E C a w)"]
      by (cases "put_group E C a w") (auto simp: strong_count_def)
  next
    case (2 e)
    then show ?thesis using triple_ErrD [OF t, of e "snd (put_group E C a w)"]
      by (cases "put_group E C a w") auto
  qed
qed

lemma put_group_last:
  assumes "refs_ok h w" "hm_get (groups w) (grp_id g) = Some a" "arcs w a = Some (g, 3)"
    "(if hypervisor E then device_del_group E C g (kst w) else (Ok (), kst w)) = (Ok (), k1)"
    "sys_unset_group_container (env_sys E) (grp_group g) (ct_container C) k1 = (Ok (), k2)"
  shows "\<exists>w'. put_group E C a w = (Ok (), w') \<and> kst w' = k2 \<and>
    hm_get (groups w') = (hm_get (groups w))(grp_id g := None) \<and> arcs w' a = Some (g, 1)"
proof -
  have "h a = 2" using refs_ok_listed [OF assms(1,2)] assms(3) by auto
  moreover have "hm_inv (groups w)" using refs_okD(1) [OF assms(1)] .
  ultimately show ?thesis
    using assms(2-) by (simp add: put_group_def put_group_locked_def strong_count_def remove_group_def
      arc_get_def on_kernel_def arc_drop_def io_defs hm.get_remove split: if_split_asm)
qed

end
