(* ===== verification/Device.thy ===== *)
theory Device
  imports Group_Refs
begin

text \<open>
  \<open>VfioDevice\<close> of \<open>vfio_device.rs\<close>: opening a device by its sysfs path, the accessors of its regions,
  reset, and \<open>Drop\<close>. Its interrupts are in theory \<open>Device_Irq\<close>, reading and writing its regions in
  \<open>Region_Io\<close>.
\<close>

section \<open>Data\<close>

record VfioDevice =
  dev_device :: fd
  dev_flags :: u32
  dev_regions :: "VfioRegion list"
  dev_irqs :: "(u32, VfioIrq) hm"
  dev_group :: arc
  dev_container :: VfioContainer

section \<open>Opening a device\<close>

text \<open>Under \<open>cfg(test)\<close> the function is replaced by one that returns 3.\<close>

definition get_group_id_from_path :: "'k env \<Rightarrow> string \<Rightarrow> ('k, u32) io" where
  "get_group_id_from_path E sysfspath k =
     (if feat_test (env_feat E) then (Ok 3, k)
      else (case k_read_link (env_kernel E) (path_join sysfspath ''iommu_group'') k of
        (Inl _, k') \<Rightarrow> (Err InvalidPath, k')
      | (Inr group_path, k') \<Rightarrow>
          (res_bind (ok_or InvalidPath (file_name group_path)) (\<lambda>group_osstr.
           res_bind (ok_or InvalidPath (to_str group_osstr)) (\<lambda>group_str.
           ok_or InvalidPath (parse_u32 group_str))), k')))"

text \<open>Early returns drop \<open>device_info\<close>, which closes the device, and then \<open>group\<close>.\<close>

definition fail_with_group :: "'k env \<Rightarrow> arc \<Rightarrow> VfioError \<Rightarrow> ('k world, 'a) io" where
  "fail_with_group E a e = bind (arc_drop E a) (\<lambda>_. throw e)"

definition fail_with_device :: "'k env \<Rightarrow> arc \<Rightarrow> VfioDeviceInfo \<Rightarrow> VfioError \<Rightarrow> ('k world, 'a) io" where
  "fail_with_device E a info e =
     bind (on_kernel (close_file E (vdi_device info))) (\<lambda>_. fail_with_group E a e)"

definition read_device :: "'k env \<Rightarrow> VfioContainer \<Rightarrow> arc \<Rightarrow> VfioDeviceInfo \<Rightarrow> ('k world, VfioDevice) io" where
  "read_device E C a info =
     bind (attempt (on_kernel (get_regions (overflow_checks (env_feat E)) (env_sys E) info))) (\<lambda>r. case r of
       Inl e \<Rightarrow> fail_with_device E a info e
     | Inr regions \<Rightarrow>
     bind (attempt (on_kernel (get_irqs (env_sys E) info))) (\<lambda>r. case r of
       Inl e \<Rightarrow> fail_with_device E a info e
     | Inr irqs \<Rightarrow>
     ret \<lparr>dev_device = vdi_device info, dev_flags = vdi_flags info, dev_regions = regions,
          dev_irqs = irqs, dev_group = a, dev_container = C\<rparr>))"

definition VfioDevice_new :: "'k env \<Rightarrow> string \<Rightarrow> VfioContainer \<Rightarrow> ('k world, VfioDevice) io" where
  "VfioDevice_new E sysfspath C =
     bind (on_kernel (get_group_id_from_path E sysfspath)) (\<lambda>group_id.
     bind (get_group E C group_id) (\<lambda>a.
     bind (arc_get a) (\<lambda>g.
     bind (attempt (on_kernel (get_device E g sysfspath))) (\<lambda>r. case r of
       Inl e \<Rightarrow> fail_with_group E a e
     | Inr device_info \<Rightarrow> read_device E C a device_info))))"

section \<open>Reset and accessors\<close>

definition reset :: "'k env \<Rightarrow> VfioDevice \<Rightarrow> ('k, unit) io" where
  "reset E dev =
     (if dev_flags dev AND VFIO_DEVICE_FLAGS_RESET \<noteq> 0
      then bind (sys_reset (env_sys E) (dev_device dev)) (\<lambda>_. ret ())
      else ret ())"

definition get_irq_info :: "VfioDevice \<Rightarrow> u32 \<Rightarrow> VfioIrq option" where
  "get_irq_info dev irq_idx = hm_get (dev_irqs dev) irq_idx"

definition get_region_flags :: "VfioDevice \<Rightarrow> u32 \<Rightarrow> u32" where
  "get_region_flags dev index =
     (case slice_get (dev_regions dev) (unat index) of Some v \<Rightarrow> reg_flags v | None \<Rightarrow> 0)"

definition get_region_offset :: "VfioDevice \<Rightarrow> u32 \<Rightarrow> u64" where
  "get_region_offset dev index =
     (case slice_get (dev_regions dev) (unat index) of Some v \<Rightarrow> reg_offset v | None \<Rightarrow> 0)"

definition get_region_size :: "VfioDevice \<Rightarrow> u32 \<Rightarrow> u64" where
  "get_region_size dev index =
     (case slice_get (dev_regions dev) (unat index) of Some v \<Rightarrow> reg_size v | None \<Rightarrow> 0)"

definition get_region_caps :: "VfioDevice \<Rightarrow> u32 \<Rightarrow> VfioRegionInfoCap list" where
  "get_region_caps dev index =
     (case slice_get (dev_regions dev) (unat index) of Some v \<Rightarrow> reg_caps v | None \<Rightarrow> [])"

fun max_interrupts_loop :: "(u32, VfioIrq) hm \<Rightarrow> u32 list \<Rightarrow> u32 \<Rightarrow> u32" where
  "max_interrupts_loop irqs [] m = m"
| "max_interrupts_loop irqs (index # rest) m =
     max_interrupts_loop irqs rest
       (case hm_get irqs index of
          None \<Rightarrow> m
        | Some irq_info \<Rightarrow> if m < irq_count irq_info then irq_count irq_info else m)"

definition max_interrupts :: "VfioDevice \<Rightarrow> u32" where
  "max_interrupts dev =
     max_interrupts_loop (dev_irqs dev)
       [VFIO_PCI_INTX_IRQ_INDEX, VFIO_PCI_MSI_IRQ_INDEX, VFIO_PCI_MSIX_IRQ_INDEX] 0"

section \<open>Drop\<close>

text \<open>The body of \<open>Drop::drop\<close>, and dropping a device: the body, then the field \<open>group\<close>.\<close>

definition device_drop :: "'k env \<Rightarrow> VfioDevice \<Rightarrow> ('k world, unit) io" where
  "device_drop E dev =
     bind (on_kernel (close_file E (dev_device dev))) (\<lambda>_.
     bind (arc_clone (dev_group dev)) (\<lambda>a. put_group E (dev_container dev) a))"

definition drop_device :: "'k env \<Rightarrow> VfioDevice \<Rightarrow> ('k world, unit) io" where
  "drop_device E dev = bind (device_drop E dev) (\<lambda>_. arc_drop E (dev_group dev))"

section \<open>Reference counts\<close>

lemma triple_fail_with_group:
  assumes "refs_ok (h(a := Suc (h a))) w"
  shows "triple (fail_with_group E a e) w Q (\<lambda>_ w'. refs_ok h w' \<and> groups w' = groups w)"
  unfolding fail_with_group_def
proof (rule triple_bind)
  show "triple (arc_drop E a) w (\<lambda>_ w'. refs_ok h w' \<and> groups w' = groups w) (\<lambda>_ w'. refs_ok h w' \<and> groups w' = groups w)"
    using arc_drop_held [OF assms, of a E] by (auto simp: triple_def)
qed (simp add: triple_throw)

lemma triple_fail_with_device:
  assumes "refs_ok (h(a := Suc (h a))) w"
  shows "triple (fail_with_device E a info e) w Q (\<lambda>_ w'. refs_ok h w' \<and> groups w' = groups w)"
  unfolding fail_with_device_def
proof (rule triple_bind)
  show "triple (on_kernel (close_file E (vdi_device info))) w (\<lambda>_. same_heap w) (\<lambda>_ w'. refs_ok h w' \<and> groups w' = groups w)"
    by (simp add: triple_def on_kernel_def close_file_def same_heap_def)
next
  fix u w1
  assume s: "same_heap w w1"
  then have "refs_ok (h(a := Suc (h a))) w1" using assms refs_ok_same_heap by blast
  from triple_fail_with_group [OF this] s
  show "triple (fail_with_group E a e) w1 Q (\<lambda>_ w'. refs_ok h w' \<and> groups w' = groups w)"
    by (simp add: same_heap_def)
qed

lemma triple_read_device:
  fixes w :: "'k world"
  assumes "refs_ok (h(a := Suc (h a))) w"
  shows "triple (read_device E C a info) w
    (\<lambda>dev w'. same_heap w w' \<and> dev_group dev = a \<and> dev_container dev = C \<and> dev_device dev = vdi_device info)
    (\<lambda>_ w'. refs_ok h w' \<and> groups w' = groups w)"
proof -
  have fd: "triple (fail_with_device E a info e) w2 Q (\<lambda>_ w'. refs_ok h w' \<and> groups w' = groups w)"
    if "same_heap w w2" for w2 :: "'k world" and e Q
  proof -
    have "refs_ok (h(a := Suc (h a))) w2" using assms refs_ok_same_heap [OF that] by blast
    from triple_fail_with_device [OF this, of E info e Q] that show ?thesis by (simp add: same_heap_def)
  qed
  have trans: "same_heap w w2" if "same_heap w w1" "same_heap w1 w2" for w1 w2 :: "'k world"
    using that by (simp add: same_heap_def)
  show ?thesis
    unfolding read_device_def
  proof (rule triple_bind [OF triple_attempt_kernel], rule triple_sum, goal_cases)
    case (1 r w1 e)
    then show ?case by (intro fd)
  next
    case (2 r w1 regions)
    show ?case
    proof (rule triple_bind [OF triple_attempt_kernel], rule triple_sum, goal_cases)
      case (1 r w2 e)
      then show ?case using 2 trans by (intro fd) blast
    next
      case (2 r' w2 irqs)
      then show ?case using \<open>same_heap w w1\<close> trans by (intro triple_ret) simp
    qed
  qed
qed

lemma triple_open_in_group:
  fixes w :: "'k world"
  assumes "refs_ok (h(a := Suc (h a))) w"
  shows "triple (bind (arc_get a) (\<lambda>g.
       bind (attempt (on_kernel (get_device E g path))) (\<lambda>r. case r of
         Inl e \<Rightarrow> fail_with_group E a e
       | Inr device_info \<Rightarrow> read_device E C a device_info))) w
    (\<lambda>dev w'. same_heap w w' \<and> dev_group dev = a \<and> dev_container dev = C)
    (\<lambda>_ w'. refs_ok h w' \<and> groups w' = groups w)"
proof -
  have arc: "triple (arc_get a) w (\<lambda>_ w1. w1 = w) X" for X
    using refs_ok_alive [OF assms, of a] by (auto simp: triple_def arc_get_def)
  show ?thesis
  proof (rule triple_bind [OF arc], rule triple_bind, simp only:, rule triple_attempt_kernel,
      rule triple_sum, goal_cases)
    case (1 g w1 r w2 e)
    then have r2: "refs_ok (h(a := Suc (h a))) w2" and g2: "groups w2 = groups w"
      using assms refs_ok_same_heap by (blast, simp add: same_heap_def)
    show ?case
      by (rule triple_conseq [OF triple_fail_with_group [OF r2]]) (simp_all add: g2)
  next
    case (2 g w1 r w2 info)
    then have r2: "refs_ok (h(a := Suc (h a))) w2" and s2: "same_heap w w2"
      using assms refs_ok_same_heap by blast+
    show ?case
      by (rule triple_conseq [OF triple_read_device [OF r2]]) (use s2 in \<open>simp_all add: same_heap_def\<close>)
  qed
qed

lemma triple_VfioDevice_new:
  fixes w :: "'k world"
  assumes "refs_ok h w"
  shows "triple (VfioDevice_new E path C) w
    (\<lambda>dev w'. refs_ok (h(dev_group dev := Suc (h (dev_group dev)))) w' \<and> dev_container dev = C \<and>
       (\<exists>gid. hm_get (groups w') = (hm_get (groups w))(gid \<mapsto> dev_group dev)))
    (\<lambda>_ w'. refs_ok h w')" (is "triple _ _ ?Q ?X")
  unfolding VfioDevice_new_def
proof (rule triple_bind, rule triple_conseq [OF triple_kernel], assumption, goal_cases)
  case (1 e w1)
  then show ?case using assms refs_ok_same_heap by blast
next
  case (2 gid w1)
  then have r1: "refs_ok h w1" and g1: "groups w1 = groups w"
    using assms refs_ok_same_heap by (blast, simp add: same_heap_def)
  show ?case
  proof (rule triple_bind, rule triple_conseq [OF triple_get_group [OF r1]], assumption, blast, goal_cases)
    case (1 a w2)
    then have r2: "refs_ok (h(a := Suc (h a))) w2"
      and g2: "hm_get (groups w2) = (hm_get (groups w))(gid \<mapsto> a)" by (blast, simp add: g1)
    show ?case
    proof (rule triple_conseq [OF triple_open_in_group [OF r2]], goal_cases)
      case (1 dev w3)
      then have "refs_ok (h(a := Suc (h a))) w3" "groups w3 = groups w2"
        using r2 refs_ok_same_heap by (blast, simp add: same_heap_def)
      then show ?case using 1 g2 by (simp only:) blast
    qed blast
  qed
qed

section \<open>Dropping a device\<close>

context vfio_syscalls
begin

lemma drop_device_returns:
  assumes "env_sys E = S" "refs_ok h w" "0 < h (dev_group dev)"
  shows "\<exists>w'. drop_device E dev w = (Ok (), w') \<and>
    refs_ok (h(dev_group dev := h (dev_group dev) - 1)) w'"
proof -
  let ?a = "dev_group dev"
  define w0 where "w0 = w\<lparr>kst := k_close (env_kernel E) (dev_device dev) (kst w)\<rparr>"
  have r0: "refs_ok h w0" using assms(2) by (simp add: w0_def refs_ok_def)
  obtain g n where g: "arcs w0 ?a = Some (g, n)" using refs_ok_alive [OF r0 assms(3)] by blast
  define w1 where "w1 = w0\<lparr>arcs := (arcs w0)(?a \<mapsto> (g, Suc n))\<rparr>"
  have c1: "arc_clone ?a w0 = (Ok ?a, w1)" using g by (simp add: arc_clone_def w1_def)
  have r1: "refs_ok (h(?a := Suc (h ?a))) w1"
    using triple_OkD [OF triple_arc_clone [OF r0 g] c1] by blast
  obtain w2 where w2: "put_group E (dev_container dev) ?a w1 = (Ok (), w2)" "refs_ok h w2"
    using put_group_returns [of E "h(?a := Suc (h ?a))" w1 ?a "dev_container dev"] r1 assms(1) vfio_syscalls_axioms
    by auto
  obtain w3 where "arc_drop E ?a w2 = (Ok (), w3)" "refs_ok (h(?a := h ?a - 1)) w3"
    using arc_drop_held [OF w2(2) assms(3)] by blast
  then show ?thesis using c1 w2(1)
    by (auto simp: drop_device_def device_drop_def bind_def on_kernel_def close_file_def w0_def)
qed

end

lemma drop_device_last:
  assumes "refs_ok h w" "dev_group dev = a" "hm_get (groups w) (grp_id g) = Some a" "arcs w a = Some (g, 2)"
    "(if hypervisor E then device_del_group E (dev_container dev) g (k_close (env_kernel E) (dev_device dev) (kst w))
      else (Ok (), k_close (env_kernel E) (dev_device dev) (kst w))) = (Ok (), k1)"
    "sys_unset_group_container (env_sys E) (grp_group g) (ct_container (dev_container dev)) k1 = (Ok (), k2)"
  shows "\<exists>w'. drop_device E dev w = (Ok (), w') \<and>
    hm_get (groups w') = (hm_get (groups w))(grp_id g := None) \<and> arcs w' a = None \<and>
    kst w' = k_close (env_kernel E) (grp_group g) k2"
proof -
  let ?k0 = "k_close (env_kernel E) (dev_device dev) (kst w)"
  define w1 where "w1 = w\<lparr>kst := ?k0, arcs := (arcs w)(a \<mapsto> (g, 3))\<rparr>"
  have h: "h a = 1" using refs_ok_listed [OF assms(1,3)] assms(4) by auto
  have w1: "kst w1 = ?k0" "groups w1 = groups w" "arcs w1 a = Some (g, 3)" by (simp_all add: w1_def)
  have "refs_ok (h(a := 2)) w1"
    using refs_ok_recount [OF assms(1,4), of 3 2 w1] by (simp add: w1_def h)
  from put_group_last [OF this, of g a E "dev_container dev" k1 k2, unfolded w1, OF assms(3) refl assms(5,6)]
  obtain w2 where w2: "put_group E (dev_container dev) a w1 = (Ok (), w2)" "kst w2 = k2"
    "hm_get (groups w2) = (hm_get (groups w))(grp_id g := None)" "arcs w2 a = Some (g, 1)"
    by blast
  have "arc_clone a (w\<lparr>kst := ?k0\<rparr>) = (Ok a, w1)" using assms(4) by (simp add: arc_clone_def w1_def)
  then show ?thesis using assms(2) w2
    by (simp add: drop_device_def device_drop_def bind_def on_kernel_def close_file_def arc_drop_def)
qed

lemma max_interrupts_loop_eq:
  "max_interrupts_loop irqs is m =
     Max (insert m (irq_count ` (\<Union>i\<in>set is. set_option (hm_get irqs i))))"
proof (induction "is" arbitrary: m)
  case (Cons i "is")
  let ?S = "irq_count ` (\<Union>i\<in>set is. set_option (hm_get irqs i))"
  let ?A = "irq_count ` set_option (hm_get irqs i)"
  have m: "(case hm_get irqs i of None \<Rightarrow> m | Some v \<Rightarrow> if m < irq_count v then irq_count v else m) =
      Max (insert m ?A)"
    by (cases "hm_get irqs i") (auto simp: max_def)
  have "Max (insert m ?A \<union> ?S) = max (Max (insert m ?A)) (Max ?S)" if "?S \<noteq> {}"
    by (rule Max_Un) (use that in auto)
  moreover have "Max (insert x ?S) = max x (Max ?S)" if "?S \<noteq> {}" for x
    by (rule Max_insert) (use that in auto)
  ultimately have "Max (insert (Max (insert m ?A)) ?S) = Max (insert m ?A \<union> ?S)"
    by (cases "?S = {}") (simp only: Max_singleton Un_empty_right, simp only: simp_thms)
  moreover have "irq_count ` (\<Union>i\<in>set (i # is). set_option (hm_get irqs i)) = ?A \<union> ?S" by (simp add: image_Un)
  ultimately show ?case by (simp only: max_interrupts_loop.simps Cons.IH m Un_insert_left)
qed simp

section \<open>Properties\<close>

text \<open>
  C15: opening and dropping a device is balanced: a device that was opened can be dropped, dropping it
  always returns, and the reference counts are right again for the references held before.
\<close>

theorem new_drop_balanced:
  assumes "vfio_syscalls (env_sys E)" "refs_ok h w" "VfioDevice_new E path C w = (Ok dev, w1)"
  shows "\<exists>w2. drop_device E dev w1 = (Ok (), w2) \<and> refs_ok h w2"
proof -
  have "refs_ok (h(dev_group dev := Suc (h (dev_group dev)))) w1"
    using triple_OkD [OF triple_VfioDevice_new [OF assms(2)] assms(3)] by blast
  from vfio_syscalls.drop_device_returns [OF assms(1) refl this, of dev] show ?thesis by simp
qed

text \<open>
  C12: dropping the last device of a group gives everything back in order: the device file is closed
  first, then the group leaves the hypervisor device and the container, it disappears from the table,
  and finally its file is closed. Afterwards the group is no longer allocated.
\<close>

theorem drop_last_device_releases_group:
  assumes "refs_ok h w" "dev_group dev = a" "hm_get (groups w) (grp_id g) = Some a" "arcs w a = Some (g, 2)"
    "(if hypervisor E then device_del_group E (dev_container dev) g (k_close (env_kernel E) (dev_device dev) (kst w))
      else (Ok (), k_close (env_kernel E) (dev_device dev) (kst w))) = (Ok (), k1)"
    "sys_unset_group_container (env_sys E) (grp_group g) (ct_container (dev_container dev)) k1 = (Ok (), k2)"
  shows "\<exists>w'. drop_device E dev w = (Ok (), w') \<and>
    hm_get (groups w') = (hm_get (groups w))(grp_id g := None) \<and> arcs w' a = None \<and>
    kst w' = k_close (env_kernel E) (grp_group g) k2"
  using assms by (rule drop_device_last)

text \<open>
  C20: a device that cannot be opened leaves its group behind. When the group had to be attached and
  \<open>get_device\<close> fails, \<open>VfioDevice::new\<close> reports the error, but the table keeps the group with the table's
  own reference as the only one: no device holds it, and it stays bound to the container.
\<close>

theorem failed_new_keeps_group:
  assumes "refs_ok h w" "get_group_id_from_path E path (kst w) = (Ok gid, k0)"
    "hm_get (groups w) gid = None"
    "get_group E C gid (w\<lparr>kst := k0\<rparr>) = (Ok a, w1)" "arcs w1 a = Some (g, 2)"
    "get_device E g path (kst w1) = (Err e, k2)"
  shows "\<exists>w'. VfioDevice_new E path C w = (Err e, w') \<and> hm_get (groups w') gid = Some a \<and>
    strong_count a w' = 1 \<and> h a = 0 \<and> kst w' = k2"
proof -
  have "refs_ok h (w\<lparr>kst := k0\<rparr>)" using assms(1) by (simp add: refs_ok_def)
  from triple_OkD [OF triple_get_group [OF this] assms(4)] assms(3)
  have "hm_get (groups w1) gid = Some a" "h a = 0" by simp_all
  then show ?thesis using assms(2,4-6)
    by (simp add: VfioDevice_new_def fail_with_group_def bind_def throw_def on_kernel_def arc_get_def
        attempt_def arc_drop_def strong_count_def)
qed

text \<open>
  C35: the group id is read from the name of the directory the \<open>iommu_group\<close> link points to; every
  32-bit group number is recovered.
\<close>

theorem group_id_from_link:
  assumes "\<not> feat_test (env_feat E)"
    "k_read_link (env_kernel E) (path_join path ''iommu_group'') k = (Inr (path_join dir (u32_to_string gid)), k')"
  shows "get_group_id_from_path E path k = (Ok gid, k')"
  using assms file_name_path_join [OF u32_to_string_component(1,2) [of gid]]
  by (simp add: get_group_id_from_path_def u32_to_string_component(3) parse_u32_to_string)

text \<open>
  \<open>max_interrupts\<close> is the largest number of vectors among the INTx, MSI and MSI-X indexes the
  device has, and 0 when it has none of them.
\<close>

theorem max_interrupts_is_maximum:
  "max_interrupts dev = Max (insert 0 (irq_count `
     (\<Union>i\<in>{VFIO_PCI_INTX_IRQ_INDEX, VFIO_PCI_MSI_IRQ_INDEX, VFIO_PCI_MSIX_IRQ_INDEX}.
        set_option (get_irq_info dev i))))"
  unfolding max_interrupts_def max_interrupts_loop_eq get_irq_info_def by simp
end
