(* ===== verification/Device_Irq.thy ===== *)
theory Device_Irq
  imports Device
begin

text \<open>
  The interrupt operations of \<open>VfioDevice\<close>: each checks its arguments against the interrupts the device
  reported, builds a \<open>vfio_irq_set\<close> with its trailing data in a vector, and passes it to the kernel.
\<close>

section \<open>Operations\<close>

text \<open>
  \<open>vec_with_array_field::<vfio_irq_set, u32>(n)\<close> and the assignments to the fields of its first
  element, which is the header of the request.
\<close>

definition irq_set_vec :: "'k env \<Rightarrow> nat \<Rightarrow> u8 list res" where
  "irq_set_vec E n =
     res_bind (vec_with_array_field (overflow_checks (env_feat E)) (word_of_nat size_irq_set)
       (replicate size_irq_set 0) 4 (word_of_nat n)) (\<lambda>v.
     if v = [] then Panic ''index out of bounds'' else Ok (concat v))"

definition set_irqs_header ::
  "'k env \<Rightarrow> VfioDevice \<Rightarrow> vfio_irq_set \<Rightarrow> VfioError \<Rightarrow> ('k, unit) io" where
  "set_irqs_header E dev hdr err =
     bind (lift (irq_set_vec E 0)) (\<lambda>mem.
     map_err (\<lambda>_. err) (sys_set_device_irqs (env_sys E) (dev_device dev)
       (write_bytes 0 (enc_vfio_irq_set hdr) mem)))"

definition trigger_irq :: "'k env \<Rightarrow> VfioDevice \<Rightarrow> u32 \<Rightarrow> u32 \<Rightarrow> ('k, unit) io" where
  "trigger_irq E dev irq_idx vector =
     bind (lift (ok_or VfioDeviceTriggerIrq (hm_get (dev_irqs dev) irq_idx))) (\<lambda>irq.
     if irq_count irq \<le> vector then throw VfioDeviceTriggerIrq
     else set_irqs_header E dev
       \<lparr>is_argsz = word_of_nat size_irq_set,
        is_flags = VFIO_IRQ_SET_DATA_NONE OR VFIO_IRQ_SET_ACTION_TRIGGER,
        is_index = irq_idx, is_start = vector, is_count = 1\<rparr> VfioDeviceTriggerIrq)"

text \<open>
  The loop that stores the descriptors in \<open>data\<close>, the flexible array behind the header; \<open>as_mut_slice\<close>
  makes a slice of it that must lie within the vector.
\<close>

fun write_fds :: "nat \<Rightarrow> fd list \<Rightarrow> u8 list \<Rightarrow> u8 list" where
  "write_fds index [] mem = mem"
| "write_fds index (event_fd # rest) mem =
     write_fds (Suc index) rest (write_u32 (size_irq_set + index * 4) event_fd mem)"

definition enable_irq :: "'k env \<Rightarrow> VfioDevice \<Rightarrow> u32 \<Rightarrow> fd list \<Rightarrow> ('k, unit) io" where
  "enable_irq E dev irq_idx event_fds =
     bind (lift (ok_or VfioDeviceEnableIrq (hm_get (dev_irqs dev) irq_idx))) (\<lambda>irq.
     if irq_count irq = 0 \<or> unat (irq_count irq) < length event_fds then throw VfioDeviceEnableIrq
     else
     let oc = overflow_checks (env_feat E); n = length event_fds in
     bind (lift (irq_set_vec E n)) (\<lambda>mem.
     bind (lift (mul_usize oc (word_of_nat n :: usize) 4)) (\<lambda>data_len.
     bind (lift (add_usize oc (word_of_nat size_irq_set :: u32) (ucast data_len))) (\<lambda>argsz.
     if length mem < size_irq_set + unat data_len then lift (UB ''irq_set.data outside the vector'')
     else map_err (\<lambda>_. VfioDeviceEnableIrq) (sys_set_device_irqs (env_sys E) (dev_device dev)
       (write_fds 0 event_fds (write_bytes 0 (enc_vfio_irq_set
         \<lparr>is_argsz = argsz,
          is_flags = VFIO_IRQ_SET_DATA_EVENTFD OR VFIO_IRQ_SET_ACTION_TRIGGER,
          is_index = irq_idx, is_start = 0, is_count = word_of_nat n\<rparr>) mem)))))))"

definition disable_irq :: "'k env \<Rightarrow> VfioDevice \<Rightarrow> u32 \<Rightarrow> ('k, unit) io" where
  "disable_irq E dev irq_idx =
     bind (lift (ok_or VfioDeviceDisableIrq (hm_get (dev_irqs dev) irq_idx))) (\<lambda>irq.
     if irq_count irq = 0 then throw VfioDeviceDisableIrq
     else set_irqs_header E dev
       \<lparr>is_argsz = word_of_nat size_irq_set,
        is_flags = VFIO_IRQ_SET_DATA_NONE OR VFIO_IRQ_SET_ACTION_TRIGGER,
        is_index = irq_idx, is_start = 0, is_count = 0\<rparr> VfioDeviceDisableIrq)"

definition unmask_irq :: "'k env \<Rightarrow> VfioDevice \<Rightarrow> u32 \<Rightarrow> ('k, unit) io" where
  "unmask_irq E dev irq_idx =
     bind (lift (ok_or VfioDeviceUnmaskIrq (hm_get (dev_irqs dev) irq_idx))) (\<lambda>irq.
     if irq_count irq = 0 \<or> irq_count irq \<noteq> 1 \<or> irq_index irq \<noteq> VFIO_PCI_INTX_IRQ_INDEX
     then throw VfioDeviceUnmaskIrq
     else set_irqs_header E dev
       \<lparr>is_argsz = word_of_nat size_irq_set,
        is_flags = VFIO_IRQ_SET_DATA_NONE OR VFIO_IRQ_SET_ACTION_UNMASK,
        is_index = irq_idx, is_start = 0, is_count = 1\<rparr> VfioDeviceUnmaskIrq)"

definition enable_msi :: "'k env \<Rightarrow> VfioDevice \<Rightarrow> fd list \<Rightarrow> ('k, unit) io" where
  "enable_msi E dev fds = enable_irq E dev VFIO_PCI_MSI_IRQ_INDEX fds"

definition disable_msi :: "'k env \<Rightarrow> VfioDevice \<Rightarrow> ('k, unit) io" where
  "disable_msi E dev = disable_irq E dev VFIO_PCI_MSI_IRQ_INDEX"

definition enable_msix :: "'k env \<Rightarrow> VfioDevice \<Rightarrow> fd list \<Rightarrow> ('k, unit) io" where
  "enable_msix E dev fds = enable_irq E dev VFIO_PCI_MSIX_IRQ_INDEX fds"

definition disable_msix :: "'k env \<Rightarrow> VfioDevice \<Rightarrow> ('k, unit) io" where
  "disable_msix E dev = disable_irq E dev VFIO_PCI_MSIX_IRQ_INDEX"

section \<open>The memory passed to the kernel\<close>

lemma irq_set_vec_eq:
  assumes "n < 2 ^ 32"
  obtains m where "irq_set_vec E n = Ok (replicate m 0)" "20 dvd m" "20 + 4 * n \<le> m" "m < 40 + 4 * n"
proof -
  let ?k = "(n * 4 + 20 + 20 - 1) div 20"
  have un: "unat (word_of_nat n :: usize) = n" using assms by (simp add: unat_u64_of_nat)
  have "unat (word_of_nat n :: usize) * unat (4 :: usize) + 2 * unat (20 :: usize) \<le> isize_max"
    using assms by (simp add: un isize_max_def)
  note v = vec_with_array_field_eq [of "20 :: usize" "word_of_nat n" 4, OF _ this]
  have k: "20 + n * 4 \<le> ?k * 20" "?k * 20 < 40 + n * 4"
    using v(2,3) by (simp_all add: un)
  have "irq_set_vec E n = Ok (concat (replicate ?k (replicate 20 0)))"
    using v(1) [of "overflow_checks (env_feat E)" "replicate 20 (0 :: u8)"] k(1)
    by (cases ?k) (simp_all add: irq_set_vec_def un)
  moreover have "concat (replicate ?k (replicate 20 (0 :: u8))) = replicate (?k * 20) 0"
    by (rule concat_replicate_replicate)
  ultimately show thesis using that [of "?k * 20"] k by (simp add: mult.commute)
qed

definition fd_bytes :: "fd \<Rightarrow> u8 list" where
  "fd_bytes f = le_bytes 4 (unat f)"

lemma length_fds [simp]: "length (concat (map fd_bytes fds)) = 4 * length fds"
  by (induction fds) (simp_all add: fd_bytes_def)

lemma write_fds_eq:
  "length pre = 20 + i * 4 \<Longrightarrow> 4 * length fds \<le> length z \<Longrightarrow>
   write_fds i fds (pre @ z) = pre @ concat (map fd_bytes fds) @ drop (4 * length fds) z"
proof (induction fds arbitrary: i pre z)
  case (Cons f fds)
  have "write_u32 (20 + i * 4) f (pre @ z) = (pre @ fd_bytes f) @ drop 4 z"
    using Cons.prems by (simp add: write_bytes_def fd_bytes_def)
  then show ?case
    using Cons.IH [of "pre @ fd_bytes f" "Suc i" "drop 4 z"] Cons.prems
    by (simp add: fd_bytes_def add.commute)
qed simp

lemma set_irqs_header_eq:
  "set_irqs_header E dev hdr err k =
     map_err (\<lambda>_. err) (sys_set_device_irqs (env_sys E) (dev_device dev) (enc_vfio_irq_set hdr)) k"
proof -
  obtain m where m: "irq_set_vec E 0 = Ok (replicate m 0)" "20 dvd m" "20 \<le> m" "m < 40"
    using irq_set_vec_eq [of 0 E] by auto
  then have "m = 20" by presburger
  then show ?thesis using m(1)
    by (simp add: set_irqs_header_def write_bytes_def is_codec.length_enc io_defs)
qed

text \<open>A header alone, and a header with data, pass the length check of \<open>set_device_irqs\<close>.\<close>

lemma irq_set_long_enough:
  assumes "20 dvd 20 + length data" "unat (is_argsz hdr) \<le> 20 + length data"
  shows "\<not> fam_too_short size_irq_set (enc_vfio_irq_set hdr @ data)"
proof -
  have "read_u32 0 (enc_vfio_irq_set hdr @ data) = Some (is_argsz hdr)"
    by (simp add: enc_vfio_irq_set_def)
  moreover have "(20 + length data) div 20 * 20 = 20 + length data" using assms(1) by (rule dvd_div_mult_self)
  ultimately show ?thesis using assms(2)
    using is_codec.length_enc [of hdr]
    by (auto simp: fam_too_short_def mem_argsz_def simp del: length_0_conv)
qed

section \<open>Properties\<close>

text \<open>The request of \<open>enable_irq\<close>: header, descriptors, and zeros up to the end of the vector.\<close>

definition enable_request :: "u32 \<Rightarrow> fd list \<Rightarrow> nat \<Rightarrow> u8 list" where
  "enable_request idx fds pad =
     enc_vfio_irq_set
       \<lparr>is_argsz = word_of_nat (20 + 4 * length fds),
        is_flags = VFIO_IRQ_SET_DATA_EVENTFD OR VFIO_IRQ_SET_ACTION_TRIGGER,
        is_index = idx, is_start = 0, is_count = word_of_nat (length fds)\<rparr> @
     concat (map fd_bytes fds) @ replicate pad 0"

lemma enable_irq_image:
  assumes "hm_get (dev_irqs dev) idx = Some irq" "irq_count irq \<noteq> 0"
    "length fds \<le> unat (irq_count irq)" "length fds < 2 ^ 30 - 5"
  obtains pad where "pad < 20" "20 dvd 4 * length fds + pad"
    "\<not> fam_too_short size_irq_set (enable_request idx fds pad)"
    "enable_irq E dev idx fds k = map_err (\<lambda>_. VfioDeviceEnableIrq)
       (sys_set_device_irqs (env_sys E) (dev_device dev) (enable_request idx fds pad)) k"
proof -
  let ?n = "length fds" and ?oc = "overflow_checks (env_feat E)"
  let ?hdr = "\<lparr>is_argsz = word_of_nat (20 + 4 * ?n),
     is_flags = VFIO_IRQ_SET_DATA_EVENTFD OR VFIO_IRQ_SET_ACTION_TRIGGER,
     is_index = idx, is_start = 0, is_count = word_of_nat ?n\<rparr>"
  obtain m where m: "irq_set_vec E ?n = Ok (replicate m 0)" "20 dvd m" "20 + 4 * ?n \<le> m" "m < 40 + 4 * ?n"
    using irq_set_vec_eq [of ?n E] assms(4) by auto
  have mul: "mul_usize ?oc (word_of_nat ?n :: usize) 4 = Ok (word_of_nat (4 * ?n))"
    using assms(4) by (simp add: mul_usize_def unat_u64_of_nat)
  have len: "unat (word_of_nat (4 * ?n) :: usize) = 4 * ?n"
    using assms(4) by (intro unat_u64_of_nat) simp
  have add: "add_usize ?oc 20 (ucast (word_of_nat (4 * ?n) :: usize) :: u32) = Ok (word_of_nat (20 + 4 * ?n))"
    using assms(4) by (simp add: add_usize_def ucast_u64_u32_of_nat unat_u32_of_nat del: of_nat_mult)
  have argsz: "unat (word_of_nat (20 + 4 * ?n) :: u32) = 20 + 4 * ?n"
    using assms(4) by (intro unat_u32_of_nat) simp
  have img: "write_fds 0 fds (write_bytes 0 (enc_vfio_irq_set ?hdr) (replicate m 0)) =
      enc_vfio_irq_set ?hdr @ concat (map fd_bytes fds) @ replicate (m - 20 - 4 * ?n) 0"
    using write_fds_eq [of "enc_vfio_irq_set ?hdr" 0 fds "replicate (m - 20) 0"] m(3)
    by (simp add: write_bytes_def is_codec.length_enc)
  have "\<not> fam_too_short size_irq_set
      (enc_vfio_irq_set ?hdr @ concat (map fd_bytes fds) @ replicate (m - 20 - 4 * ?n) 0)"
    using m(2,3) by (intro irq_set_long_enough) (simp_all add: argsz del: of_nat_add of_nat_mult)
  moreover have "enable_irq E dev idx fds k = map_err (\<lambda>_. VfioDeviceEnableIrq)
      (sys_set_device_irqs (env_sys E) (dev_device dev)
        (enc_vfio_irq_set ?hdr @ concat (map fd_bytes fds) @ replicate (m - 20 - 4 * ?n) 0)) k"
    using assms(1-3) m(1,3) img mul add len by (simp add: enable_irq_def Let_def lift_def bind_def)
  ultimately show thesis
    using that [of "m - 20 - 4 * ?n"] m(2-4) by (simp add: enable_request_def dvd_diff_nat)
qed


text \<open>
  The request for an interrupt operation without data: a bare header, whose size is 20 bytes.
\<close>

definition header_request ::
  "'k env \<Rightarrow> VfioDevice \<Rightarrow> u32 \<Rightarrow> u32 \<Rightarrow> u32 \<Rightarrow> u32 \<Rightarrow> VfioError \<Rightarrow> ('k, unit) io" where
  "header_request E dev flags index start count err =
     map_err (\<lambda>_. err) (sys_set_device_irqs (env_sys E) (dev_device dev) (enc_vfio_irq_set
       \<lparr>is_argsz = 20, is_flags = flags, is_index = index, is_start = start, is_count = count\<rparr>))"

lemma set_irqs_header_request:
  "set_irqs_header E dev \<lparr>is_argsz = 20, is_flags = flags, is_index = index, is_start = start, is_count = count\<rparr> err =
     header_request E dev flags index start count err"
  by (simp add: fun_eq_iff set_irqs_header_eq header_request_def)

lemma trigger_irq_eq:
  "trigger_irq E dev idx vector =
     (if \<exists>irq. hm_get (dev_irqs dev) idx = Some irq \<and> vector < irq_count irq
      then header_request E dev (VFIO_IRQ_SET_DATA_NONE OR VFIO_IRQ_SET_ACTION_TRIGGER) idx vector 1
        VfioDeviceTriggerIrq
      else throw VfioDeviceTriggerIrq)"
  by (cases "hm_get (dev_irqs dev) idx") (auto simp: trigger_irq_def set_irqs_header_request word_gt_0 not_le)

lemma disable_irq_eq:
  "disable_irq E dev idx =
     (if \<exists>irq. hm_get (dev_irqs dev) idx = Some irq \<and> 0 < irq_count irq
      then header_request E dev (VFIO_IRQ_SET_DATA_NONE OR VFIO_IRQ_SET_ACTION_TRIGGER) idx 0 0
        VfioDeviceDisableIrq
      else throw VfioDeviceDisableIrq)"
  by (cases "hm_get (dev_irqs dev) idx") (auto simp: disable_irq_def set_irqs_header_request word_gt_0 not_le)

lemma unmask_irq_eq:
  "unmask_irq E dev idx =
     (if \<exists>irq. hm_get (dev_irqs dev) idx = Some irq \<and> irq_count irq = 1 \<and>
           irq_index irq = VFIO_PCI_INTX_IRQ_INDEX
      then header_request E dev (VFIO_IRQ_SET_DATA_NONE OR VFIO_IRQ_SET_ACTION_UNMASK) idx 0 1
        VfioDeviceUnmaskIrq
      else throw VfioDeviceUnmaskIrq)"
  by (cases "hm_get (dev_irqs dev) idx") (auto simp: unmask_irq_def set_irqs_header_request word_gt_0 not_le)

text \<open>
  C24: the other three interrupt operations, on every branch. \<open>trigger_irq\<close> fires one vector of an index
  the device has, \<open>disable_irq\<close> tears down a whole index that has vectors, \<open>unmask_irq\<close> unmasks the INTx
  line when it is the only vector of its index; each passes the kernel exactly one bare header and
  never panics. With other arguments each returns its own error without any system call.
\<close>

theorem irq_operations_without_data:
  "trigger_irq E dev idx vector =
     (if \<exists>irq. hm_get (dev_irqs dev) idx = Some irq \<and> vector < irq_count irq
      then header_request E dev (VFIO_IRQ_SET_DATA_NONE OR VFIO_IRQ_SET_ACTION_TRIGGER) idx vector 1
        VfioDeviceTriggerIrq
      else throw VfioDeviceTriggerIrq) \<and>
   disable_irq E dev idx =
     (if \<exists>irq. hm_get (dev_irqs dev) idx = Some irq \<and> 0 < irq_count irq
      then header_request E dev (VFIO_IRQ_SET_DATA_NONE OR VFIO_IRQ_SET_ACTION_TRIGGER) idx 0 0
        VfioDeviceDisableIrq
      else throw VfioDeviceDisableIrq) \<and>
   unmask_irq E dev idx =
     (if \<exists>irq. hm_get (dev_irqs dev) idx = Some irq \<and> irq_count irq = 1 \<and>
           irq_index irq = VFIO_PCI_INTX_IRQ_INDEX
      then header_request E dev (VFIO_IRQ_SET_DATA_NONE OR VFIO_IRQ_SET_ACTION_UNMASK) idx 0 1
        VfioDeviceUnmaskIrq
      else throw VfioDeviceUnmaskIrq)"
  by (intro conjI trigger_irq_eq disable_irq_eq unmask_irq_eq)

text \<open>
  \<open>enable_irq\<close> refuses without any system call an index the device does not have, an index without
  vectors, and more descriptors than the index has vectors.
\<close>

lemma enable_irq_reject:
  assumes "\<And>irq. hm_get (dev_irqs dev) idx = Some irq \<Longrightarrow>
      irq_count irq = 0 \<or> unat (irq_count irq) < length fds"
  shows "enable_irq E dev idx fds k = (Err VfioDeviceEnableIrq, k)"
  using assms
  by (cases "hm_get (dev_irqs dev) idx") (auto simp: enable_irq_def throw_def)

lemma fds_as_slice:
  "as_slice (read_u32 0) 4 (length fds) (concat (map fd_bytes fds) @ rest) = Some fds"
  by (induction fds) (simp_all add: fd_bytes_def)

lemma enable_request_decodes:
  "dec_vfio_irq_set (enable_request idx fds pad) = Some
     \<lparr>is_argsz = word_of_nat (20 + 4 * length fds),
      is_flags = VFIO_IRQ_SET_DATA_EVENTFD OR VFIO_IRQ_SET_ACTION_TRIGGER,
      is_index = idx, is_start = 0, is_count = word_of_nat (length fds)\<rparr>"
  "as_slice (read_u32 0) 4 (length fds) (drop 20 (enable_request idx fds pad)) = Some fds"
  by (simp_all add: enable_request_def is_codec.dec_enc is_codec.length_enc fds_as_slice del: of_nat_add of_nat_mult)

section \<open>Errors\<close>

context vfio_syscalls
begin

lemma header_request_err:
  "env_sys E = S \<Longrightarrow> only_err (\<lambda>e. e = err) (header_request E dev flags index start count err)"
  by (simp add: header_request_def only_err_map_err [OF irqs_err])

lemma irq_ops_err:
  assumes "env_sys E = S"
  shows "only_err (\<lambda>e. e = VfioDeviceTriggerIrq) (trigger_irq E dev idx vector)"
    and "only_err (\<lambda>e. e = VfioDeviceDisableIrq) (disable_irq E dev idx)"
    and "only_err (\<lambda>e. e = VfioDeviceUnmaskIrq) (unmask_irq E dev idx)"
  using assms
  by (simp_all add: trigger_irq_eq disable_irq_eq unmask_irq_eq header_request_err only_err_throw)

lemma enable_irq_err:
  assumes "env_sys E = S" "length fds < 2 ^ 30 - 5"
  shows "only_err (\<lambda>e. e = VfioDeviceEnableIrq) (enable_irq E dev idx fds)"
proof (rule only_errI)
  fix k
  show "(\<exists>a. fst (enable_irq E dev idx fds k) = Ok a) \<or>
    (\<exists>e. fst (enable_irq E dev idx fds k) = Err e \<and> e = VfioDeviceEnableIrq)"
  proof (cases "\<exists>irq. hm_get (dev_irqs dev) idx = Some irq \<and> irq_count irq \<noteq> 0 \<and> length fds \<le> unat (irq_count irq)")
    case True
    then obtain mem where "enable_irq E dev idx fds k =
        map_err (\<lambda>_. VfioDeviceEnableIrq) (sys_set_device_irqs S (dev_device dev) mem) k"
      using enable_irq_image [OF _ _ _ assms(2), of dev idx _ E k] assms(1) by blast
    then show ?thesis
      using only_err_outcome [OF only_err_map_err [OF irqs_err], of VfioDeviceEnableIrq "dev_device dev" mem k]
      by simp
  next
    case False
    then show ?thesis
      using enable_irq_reject [of dev idx fds E k] by (auto simp: not_le)
  qed
qed

end

text \<open>
  C25: an interrupt operation returns or fails with its own error, whatever the system calls do within
  their contract: it never panics and never touches memory outside its request.
\<close>

theorem irq_operations_errors:
  assumes "vfio_syscalls (env_sys E)" "length fds < 2 ^ 30 - 5"
  shows "only_err (\<lambda>e. e = VfioDeviceEnableIrq) (enable_irq E dev idx fds) \<and>
    only_err (\<lambda>e. e = VfioDeviceTriggerIrq) (trigger_irq E dev idx vector) \<and>
    only_err (\<lambda>e. e = VfioDeviceDisableIrq) (disable_irq E dev idx) \<and>
    only_err (\<lambda>e. e = VfioDeviceUnmaskIrq) (unmask_irq E dev idx)"
  using vfio_syscalls.irq_ops_err [OF assms(1) refl] vfio_syscalls.enable_irq_err [OF assms(1) refl assms(2)]
  by blast

end
