(* ===== verification/Region_Io.thy ===== *)
theory Region_Io
  imports Device
begin

text \<open>
  \<open>region_read\<close> and \<open>region_write\<close> of \<open>VfioDevice\<close>, with the loops of the standard library's
  \<open>FileExt::read_exact_at\<close> and \<open>write_all_at\<close> they call: those retry after a short transfer and after
  an interrupted call, so they may run forever, which is \<^term>\<open>None\<close> below and \<open>Diverges\<close> in the
  result of an operation.
\<close>

section \<open>Transfers\<close>

definition EINTR :: io_error where
  "EINTR = 4"

text \<open>How a transfer ended: complete, with an error of the kernel, or at the end of the file.\<close>

datatype xfer = Done | IoErr io_error | Eof

text \<open>
  \<open>got\<close> is the filled front of the buffer and \<open>rest\<close> what is left of it, with its old contents; both
  are in the result, since the caller keeps its buffer after an error. Advancing past the end of the
  buffer would panic.
\<close>

partial_function (option) read_exact_at ::
  "'k kernel \<Rightarrow> fd \<Rightarrow> u8 list \<Rightarrow> u8 list \<Rightarrow> u64 \<Rightarrow> 'k \<Rightarrow> ((xfer \<times> u8 list) res \<times> 'k) option" where
  "read_exact_at K f got rest off k =
     (if rest = [] then Some (Ok (Done, got), k)
      else (case k_pread K f (length rest) off k of
        (Inl e, k') \<Rightarrow>
          if e = EINTR then read_exact_at K f got rest off k'
          else Some (Ok (IoErr e, got @ rest), k')
      | (Inr bs, k') \<Rightarrow>
          if bs = [] then Some (Ok (Eof, got @ rest), k')
          else if length rest < length bs then Some (Panic ''range start index out of range'', k')
          else read_exact_at K f (got @ bs) (drop (length bs) rest) (off + word_of_nat (length bs)) k'))"

partial_function (option) write_all_at ::
  "'k kernel \<Rightarrow> fd \<Rightarrow> u8 list \<Rightarrow> u64 \<Rightarrow> 'k \<Rightarrow> (xfer res \<times> 'k) option" where
  "write_all_at K f buf off k =
     (if buf = [] then Some (Ok Done, k)
      else (case k_pwrite K f buf off k of
        (Inl e, k') \<Rightarrow>
          if e = EINTR then write_all_at K f buf off k' else Some (Ok (IoErr e), k')
      | (Inr n, k') \<Rightarrow>
          if n = 0 then Some (Ok Eof, k')
          else if length buf < n then Some (Panic ''range start index out of range'', k')
          else write_all_at K f (drop n buf) (off + word_of_nat n) k'))"

definition or_diverge :: "('a res \<times> 'k) option \<Rightarrow> 'k \<Rightarrow> 'a res \<times> 'k" where
  "or_diverge x k = (case x of None \<Rightarrow> (Diverges, k) | Some r \<Rightarrow> r)"

section \<open>Operations\<close>

text \<open>
  Both only log their errors. The sums \<open>addr + size\<close> and \<open>region.offset + addr\<close> are unchecked \<open>u64\<close>
  additions, and the first is evaluated only when \<open>size\<close> is at most the size of the region.
\<close>

definition region_guard :: "bool \<Rightarrow> u64 \<Rightarrow> u64 \<Rightarrow> VfioRegion \<Rightarrow> bool res" where
  "region_guard oc sz addr region =
     (if reg_size region < sz then Ok True
      else res_bind (add_usize oc addr sz) (\<lambda>last. Ok (reg_size region < last)))"

definition region_read :: "'k env \<Rightarrow> VfioDevice \<Rightarrow> u32 \<Rightarrow> u8 list \<Rightarrow> u64 \<Rightarrow> ('k, u8 list) io" where
  "region_read E dev index buf addr =
     (let oc = overflow_checks (env_feat E) in
      case slice_get (dev_regions dev) (unat index) of
        None \<Rightarrow> ret buf
      | Some region \<Rightarrow>
          bind (lift (region_guard oc (word_of_nat (length buf)) addr region)) (\<lambda>invalid.
          if invalid then ret buf
          else bind (lift (add_usize oc (reg_offset region) addr)) (\<lambda>off.
            bind (\<lambda>k. or_diverge (read_exact_at (env_kernel E) (dev_device dev) [] buf off k) k)
              (\<lambda>(_, buf'). ret buf'))))"

definition region_write :: "'k env \<Rightarrow> VfioDevice \<Rightarrow> u32 \<Rightarrow> u8 list \<Rightarrow> u64 \<Rightarrow> ('k, unit) io" where
  "region_write E dev index buf addr =
     (let oc = overflow_checks (env_feat E) in
      case slice_get (dev_regions dev) (unat index) of
        None \<Rightarrow> ret ()
      | Some stub \<Rightarrow>
          bind (lift (region_guard oc (word_of_nat (length buf)) addr stub)) (\<lambda>invalid.
          if invalid \<or> reg_flags stub AND VFIO_REGION_INFO_FLAG_WRITE = 0 then ret ()
          else bind (lift (add_usize oc (reg_offset stub) addr)) (\<lambda>off.
            bind (\<lambda>k. or_diverge (write_all_at (env_kernel E) (dev_device dev) buf off k) k)
              (\<lambda>_. ret ()))))"

section \<open>Which accesses reach the device\<close>

text \<open>An access that stays in the region, in unbounded arithmetic.\<close>

definition in_region :: "VfioRegion \<Rightarrow> u64 \<Rightarrow> nat \<Rightarrow> bool" where
  "in_region region addr n \<longleftrightarrow> unat addr + n \<le> unat (reg_size region)"

lemma region_guard_eq:
  assumes "unat addr + n < 2 ^ 64"
  shows "region_guard oc (word_of_nat n) addr region = Ok (\<not> in_region region addr n)"
proof -
  have n: "unat (word_of_nat n :: u64) = n" using assms by (intro unat_u64_of_nat) simp
  have "add_usize oc addr (word_of_nat n) = Ok (addr + word_of_nat n)"
    "unat (addr + word_of_nat n) = unat addr + n"
    using add_usize_fits [of addr "word_of_nat n"] n assms by simp_all
  then show ?thesis using n
    by (auto simp: region_guard_def in_region_def word_less_nat_alt)
qed

lemma region_offset_add:
  assumes "unat (reg_offset region) + unat addr < 2 ^ 64"
  shows "add_usize oc (reg_offset region) addr = Ok (reg_offset region + addr)"
  using add_usize_fits(1) [of "reg_offset region" addr] assms by simp

lemma region_read_eq:
  assumes "slice_get (dev_regions dev) (unat index) = Some region"
    "unat addr + length buf < 2 ^ 64" "unat (reg_offset region) + unat addr < 2 ^ 64"
  shows "region_read E dev index buf addr =
    (if in_region region addr (length buf)
     then bind (\<lambda>k. or_diverge (read_exact_at (env_kernel E) (dev_device dev) [] buf
                 (reg_offset region + addr) k) k) (\<lambda>(_, buf'). ret buf')
     else ret buf)"
  using assms by (simp add: region_read_def region_guard_eq region_offset_add Let_def)

lemma region_write_eq:
  assumes "slice_get (dev_regions dev) (unat index) = Some region"
    "unat addr + length buf < 2 ^ 64" "unat (reg_offset region) + unat addr < 2 ^ 64"
  shows "region_write E dev index buf addr =
    (if in_region region addr (length buf) \<and> reg_flags region AND VFIO_REGION_INFO_FLAG_WRITE \<noteq> 0
     then bind (\<lambda>k. or_diverge (write_all_at (env_kernel E) (dev_device dev) buf
                 (reg_offset region + addr) k) k) (\<lambda>_. ret ())
     else ret ())"
  using assms by (simp add: region_write_def region_guard_eq region_offset_add Let_def)

section \<open>Complete transfers\<close>

text \<open>
  When a transfer can be complete: the part of the device file between \<open>lo\<close> and \<open>hi\<close> behaves as
  memory, whose contents in state \<open>k\<close> are \<open>mem k\<close>. A call that stays between \<open>lo\<close> and \<open>hi\<close> transfers a
  nonempty prefix of what was asked for, or is interrupted; \<open>budget k\<close> bounds the number of
  interruptions still to come. Nothing is said of the rest of the file: other registers may refuse an
  access, or react to it in their own way.
\<close>

definition load :: "u64 \<Rightarrow> nat \<Rightarrow> (u64 \<Rightarrow> u8) \<Rightarrow> u8 list" where
  "load off n m = map (\<lambda>i. m (off + word_of_nat i)) [0 ..< n]"

fun store :: "u64 \<Rightarrow> u8 list \<Rightarrow> (u64 \<Rightarrow> u8) \<Rightarrow> u64 \<Rightarrow> u8" where
  "store off [] m = m"
| "store off (b # bs) m = store (off + 1) bs (m(off := b))"

definition pread_law :: "'k kernel \<Rightarrow> fd \<Rightarrow> nat \<Rightarrow> nat \<Rightarrow> ('k \<Rightarrow> u64 \<Rightarrow> u8) \<Rightarrow> ('k \<Rightarrow> nat) \<Rightarrow> bool" where
  "pread_law K f lo hi mem budget \<longleftrightarrow>
     (\<forall>n off k r k'. 0 < n \<longrightarrow> lo \<le> unat off \<longrightarrow> unat off + n \<le> hi \<longrightarrow> k_pread K f n off k = (r, k') \<longrightarrow>
       (case r of
          Inl e \<Rightarrow> e = EINTR \<and> mem k' = mem k \<and> budget k' < budget k
        | Inr bs \<Rightarrow> mem k' = mem k \<and> budget k' \<le> budget k \<and> bs \<noteq> [] \<and> length bs \<le> n \<and>
            bs = load off (length bs) (mem k)))"

definition pwrite_law :: "'k kernel \<Rightarrow> fd \<Rightarrow> nat \<Rightarrow> nat \<Rightarrow> ('k \<Rightarrow> u64 \<Rightarrow> u8) \<Rightarrow> ('k \<Rightarrow> nat) \<Rightarrow> bool" where
  "pwrite_law K f lo hi mem budget \<longleftrightarrow>
     (\<forall>buf off k r k'. buf \<noteq> [] \<longrightarrow> lo \<le> unat off \<longrightarrow> unat off + length buf \<le> hi \<longrightarrow> k_pwrite K f buf off k = (r, k') \<longrightarrow>
       (case r of
          Inl e \<Rightarrow> e = EINTR \<and> mem k' = mem k \<and> budget k' < budget k
        | Inr n \<Rightarrow> mem k' = store off (take n buf) (mem k) \<and> budget k' \<le> budget k \<and>
            0 < n \<and> n \<le> length buf))"

lemma load_split: "a \<le> n \<Longrightarrow> load off n m = load off a m @ load (off + word_of_nat a) (n - a) m"
proof -
  assume "a \<le> n"
  then have "[0 ..< n] = [0 ..< a] @ map (\<lambda>i. i + a) [0 ..< n - a]"
    using upt_add_eq_append [of 0 a "n - a"] map_add_upt [of a "n - a"] by simp
  then show ?thesis by (simp add: load_def comp_def ac_simps)
qed

lemma length_load [simp]: "length (load off n m) = n"
  by (simp add: load_def)

lemma advance_offset:
  "unat off + n < 2 ^ 64 \<Longrightarrow> unat (off + word_of_nat n :: u64) = unat off + n"
  using add_usize_fits(2) [of off "word_of_nat n"] by (simp add: unat_u64_of_nat)

lemma read_exact_at_complete:
  assumes "pread_law K f lo hi mem budget" "hi < 2 ^ 64" "lo \<le> unat off" "unat off + length rest \<le> hi"
  shows "\<exists>k'. read_exact_at K f got rest off k = Some (Ok (Done, got @ load off (length rest) (mem k)), k') \<and>
    mem k' = mem k"
  using assms(3,4)
proof (induction "length rest + budget k" arbitrary: got rest off k rule: less_induct)
  case less
  show ?case
  proof (cases "rest = []")
    case True
    then show ?thesis by (subst read_exact_at.simps) (simp add: load_def)
  next
    case ne: False
    obtain r k1 where r: "k_pread K f (length rest) off k = (r, k1)" by fastforce
    note law = assms(1) [unfolded pread_law_def, rule_format, OF _ less.prems r]
    show ?thesis
    proof (cases r)
      case (Inl e)
      then have e: "e = EINTR" "mem k1 = mem k" "budget k1 < budget k" using law ne by auto
      have "read_exact_at K f got rest off k = read_exact_at K f got rest off k1"
        using r Inl e(1) ne by (subst read_exact_at.simps) simp
      then show ?thesis using less.hyps [of rest k1 off got] less.prems e by simp
    next
      case (Inr bs)
      then have b: "mem k1 = mem k" "budget k1 \<le> budget k" "bs \<noteq> []" "length bs \<le> length rest"
        "bs = load off (length bs) (mem k)" using law ne by auto
      have step: "read_exact_at K f got rest off k =
          read_exact_at K f (got @ bs) (drop (length bs) rest) (off + word_of_nat (length bs)) k1"
        using r Inr b(3,4) ne by (subst read_exact_at.simps) simp
      have dec: "length (drop (length bs) rest) + budget k1 < length rest + budget k"
        using b(2-4) by (cases bs) auto
      have adv: "unat (off + word_of_nat (length bs)) = unat off + length bs"
        using advance_offset less.prems(2) assms(2) b(4) by simp
      from less.hyps [OF dec, of "off + word_of_nat (length bs)" "got @ bs"] less.prems b(4) obtain k' where
        "read_exact_at K f (got @ bs) (drop (length bs) rest) (off + word_of_nat (length bs)) k1 =
           Some (Ok (Done, (got @ bs) @ load (off + word_of_nat (length bs)) (length rest - length bs) (mem k1)), k')"
        "mem k' = mem k1" unfolding adv by auto
      moreover have "load off (length rest) (mem k) =
          bs @ load (off + word_of_nat (length bs)) (length rest - length bs) (mem k)"
        using load_split [OF b(4), of off "mem k"] b(5) by simp
      ultimately show ?thesis using step b(1) by simp
    qed
  qed
qed

lemma store_append: "store off (xs @ ys) m = store (off + word_of_nat (length xs)) ys (store off xs m)"
  by (induction xs arbitrary: off m) (simp_all add: add.assoc add.commute)

lemma write_all_at_complete:
  assumes "pwrite_law K f lo hi mem budget" "hi < 2 ^ 64" "lo \<le> unat off" "unat off + length buf \<le> hi"
  shows "\<exists>k'. write_all_at K f buf off k = Some (Ok Done, k') \<and> mem k' = store off buf (mem k)"
  using assms(3,4)
proof (induction "length buf + budget k" arbitrary: buf off k rule: less_induct)
  case less
  show ?case
  proof (cases "buf = []")
    case True
    then show ?thesis by (subst write_all_at.simps) simp
  next
    case ne: False
    obtain r k1 where r: "k_pwrite K f buf off k = (r, k1)" by fastforce
    note law = assms(1) [unfolded pwrite_law_def, rule_format, OF ne less.prems r]
    show ?thesis
    proof (cases r)
      case (Inl e)
      then have e: "e = EINTR" "mem k1 = mem k" "budget k1 < budget k" using law by auto
      have "write_all_at K f buf off k = write_all_at K f buf off k1"
        using r Inl e(1) ne by (subst write_all_at.simps) simp
      then show ?thesis using less.hyps [of buf k1 off] less.prems e by simp
    next
      case (Inr n)
      then have b: "mem k1 = store off (take n buf) (mem k)" "budget k1 \<le> budget k" "0 < n" "n \<le> length buf"
        using law by auto
      have step: "write_all_at K f buf off k = write_all_at K f (drop n buf) (off + word_of_nat n) k1"
        using r Inr b(3,4) ne by (subst write_all_at.simps) simp
      have dec: "length (drop n buf) + budget k1 < length buf + budget k" using b(2-4) by auto
      have "unat (off + word_of_nat n) = unat off + n"
        using advance_offset less.prems(2) assms(2) b(4) by simp
      then have "lo \<le> unat (off + word_of_nat n)" "unat (off + word_of_nat n) + length (drop n buf) \<le> hi"
        using less.prems b(4) by simp_all
      from less.hyps [OF dec this] obtain k' where "write_all_at K f (drop n buf) (off + word_of_nat n) k1 = Some (Ok Done, k')"
        "mem k' = store (off + word_of_nat n) (drop n buf) (mem k1)" by blast
      then show ?thesis
        using step b(1,4) store_append [of off "take n buf" "drop n buf" "mem k"] by simp
    qed
  qed
qed

lemma store_outside:
  "(\<And>i. i < length bs \<Longrightarrow> x \<noteq> off + word_of_nat i) \<Longrightarrow> store off bs m x = m x"
proof (induction bs arbitrary: off m)
  case (Cons b bs)
  have "x \<noteq> off + 1 + word_of_nat i" if "i < length bs" for i
    using Cons.prems [of "Suc i"] that by (simp add: add.assoc)
  then show ?case using Cons.IH [of "off + 1"] Cons.prems [of 0] by simp
qed simp

lemma load_store: "length bs < 2 ^ 64 \<Longrightarrow> load off (length bs) (store off bs m) = bs"
proof (induction bs arbitrary: off m)
  case (Cons b bs)
  have "off \<noteq> off + 1 + word_of_nat i" if "i < length bs" for i
  proof
    assume "off = off + 1 + word_of_nat i"
    then have "(0 :: u64) = word_of_nat (Suc i)" by (simp add: add.assoc)
    then have "unat (word_of_nat (Suc i) :: u64) = 0" by (metis unat_0)
    then show False using unat_u64_of_nat [of "Suc i"] that Cons.prems by simp
  qed
  then have "store (off + 1) bs (m(off := b)) off = b" by (simp add: store_outside)
  moreover have "load off (Suc (length bs)) (store (off + 1) bs (m(off := b))) =
      store (off + 1) bs (m(off := b)) off # load (off + 1) (length bs) (store (off + 1) bs (m(off := b)))"
    using load_split [of 1 "Suc (length bs)" off] by (simp add: load_def)
  ultimately show ?case using Cons by simp
qed (simp add: load_def)

text \<open>Addresses outside a region are not addresses inside it, when the region does not wrap around.\<close>

lemma region_address:
  assumes "in_region region addr n" "unat (reg_offset region) + unat (reg_size region) < 2 ^ 64"
  shows "unat (reg_offset region + addr) = unat (reg_offset region) + unat addr"
  using assms add_usize_fits(2) [of "reg_offset region" addr] by (simp add: in_region_def)

lemma in_region_address:
  assumes "in_region region addr n" "unat (reg_offset region) + unat (reg_size region) < 2 ^ 64" "i < n"
  shows "unat (reg_offset region + addr + word_of_nat i) = unat (reg_offset region) + unat addr + i"
proof -
  have "unat (reg_offset region + addr) + i < 2 ^ 64"
    using assms region_address [OF assms(1,2)] by (simp add: in_region_def)
  then show ?thesis using advance_offset region_address [OF assms(1,2)] by simp
qed

lemma region_read_runs:
  assumes "slice_get (dev_regions dev) (unat index) = Some region" "in_region region addr (length buf)"
    "unat (reg_offset region) + unat (reg_size region) < 2 ^ 64"
    "pread_law (env_kernel E) (dev_device dev) (unat (reg_offset region) + unat addr)
       (unat (reg_offset region) + unat addr + length buf) mem budget"
  shows "\<exists>k'. region_read E dev index buf addr k =
      (Ok (load (reg_offset region + addr) (length buf) (mem k)), k') \<and> mem k' = mem k"
proof -
  have "unat addr + length buf < 2 ^ 64" "unat (reg_offset region) + unat addr < 2 ^ 64"
    using assms(2,3) by (simp_all add: in_region_def)
  then show ?thesis
    using read_exact_at_complete [OF assms(4), of "reg_offset region + addr" buf "[]" k] assms(1-3)
      region_address [OF assms(2,3)]
    by (auto simp: region_read_eq bind_def or_diverge_def ret_def in_region_def)
qed

lemma region_write_runs:
  assumes "slice_get (dev_regions dev) (unat index) = Some region" "in_region region addr (length buf)"
    "unat (reg_offset region) + unat (reg_size region) < 2 ^ 64"
    "reg_flags region AND VFIO_REGION_INFO_FLAG_WRITE \<noteq> 0"
    "pwrite_law (env_kernel E) (dev_device dev) (unat (reg_offset region) + unat addr)
       (unat (reg_offset region) + unat addr + length buf) mem budget"
  shows "\<exists>k'. region_write E dev index buf addr k = (Ok (), k') \<and>
      mem k' = store (reg_offset region + addr) buf (mem k)"
proof -
  have "unat addr + length buf < 2 ^ 64" "unat (reg_offset region) + unat addr < 2 ^ 64"
    using assms(2,3) by (simp_all add: in_region_def)
  then show ?thesis
    using write_all_at_complete [OF assms(5), of "reg_offset region + addr" buf k] assms(1-4)
      region_address [OF assms(2,3)]
    by (auto simp: region_write_eq bind_def or_diverge_def ret_def in_region_def)
qed

section \<open>Properties\<close>

text \<open>
  C9: a read inside a region returns, and fills the whole buffer with the contents of the device file
  at the region's offset plus the address, through short reads and interruptions; the device is not
  changed. The device file has to behave as memory only at the addresses that are read.
\<close>

theorem region_read_correct:
  assumes "slice_get (dev_regions dev) (unat index) = Some region" "in_region region addr (length buf)"
    "unat (reg_offset region) + unat (reg_size region) < 2 ^ 64"
    "pread_law (env_kernel E) (dev_device dev) (unat (reg_offset region) + unat addr)
       (unat (reg_offset region) + unat addr + length buf) mem budget"
  shows "\<exists>k'. region_read E dev index buf addr k =
      (Ok (map (\<lambda>i. mem k (reg_offset region + addr + word_of_nat i)) [0 ..< length buf]), k') \<and>
    mem k' = mem k"
  using region_read_runs [OF assms] by (simp add: load_def)

text \<open>
  C10: a write inside a writable region returns, stores the buffer at the region's offset plus the
  address, and leaves every other byte as it was, those of the same region before and behind the
  buffer included. The device file has to behave as memory only at the addresses that are written.
\<close>

theorem region_write_correct:
  assumes "slice_get (dev_regions dev) (unat index) = Some region" "in_region region addr (length buf)"
    "unat (reg_offset region) + unat (reg_size region) < 2 ^ 64"
    "reg_flags region AND VFIO_REGION_INFO_FLAG_WRITE \<noteq> 0"
    "pwrite_law (env_kernel E) (dev_device dev) (unat (reg_offset region) + unat addr)
       (unat (reg_offset region) + unat addr + length buf) mem budget"
  shows "\<exists>k'. region_write E dev index buf addr k = (Ok (), k') \<and>
    map (\<lambda>i. mem k' (reg_offset region + addr + word_of_nat i)) [0 ..< length buf] = buf \<and>
    (\<forall>x. unat x < unat (reg_offset region) + unat addr \<or>
        unat (reg_offset region) + unat addr + length buf \<le> unat x \<longrightarrow> mem k' x = mem k x)"
proof -
  have "length buf < 2 ^ 64" using assms(2,3) by (simp add: in_region_def)
  then have "load (reg_offset region + addr) (length buf) (store (reg_offset region + addr) buf (mem k)) = buf"
    by (rule load_store)
  moreover have "store (reg_offset region + addr) buf (mem k) x = mem k x"
    if "unat x < unat (reg_offset region) + unat addr \<or>
      unat (reg_offset region) + unat addr + length buf \<le> unat x" for x
    using that in_region_address [OF assms(2,3)] by (intro store_outside) fastforce
  ultimately show ?thesis using region_write_runs [OF assms, of k] by (auto simp: load_def)
qed

text \<open>
  What the bounds check makes of an access that leaves its region, in the three cases of the sum
  \<open>addr + size\<close>: the check sees the access, the sum panics, or the sum wraps around and the check
  misses the access.
\<close>

definition guard_wraps :: "VfioRegion \<Rightarrow> u64 \<Rightarrow> nat \<Rightarrow> bool" where
  "guard_wraps region addr n \<longleftrightarrow> n \<le> unat (reg_size region) \<and> 2 ^ 64 \<le> unat addr + n"

lemma region_guard_outside:
  assumes "n < 2 ^ 64" "\<not> in_region region addr n"
  shows "region_guard oc (word_of_nat n) addr region =
    (if \<not> guard_wraps region addr n then Ok True
     else if oc then Panic ''attempt to add with overflow'' else Ok False)"
proof (cases "guard_wraps region addr n")
  case False
  have "unat (word_of_nat n :: u64) = n" using assms(1) by (intro unat_u64_of_nat) simp
  then show ?thesis using False assms region_guard_eq [of addr n oc region]
    by (cases "unat addr + n < 2 ^ 64") (auto simp: region_guard_def guard_wraps_def word_less_nat_alt)
next
  case True
  have n: "unat (word_of_nat n :: u64) = n" using assms(1) by (intro unat_u64_of_nat) simp
  have "unat (addr + word_of_nat n) = unat addr + n - 2 ^ 64"
    using True assms(1) unat_lt_u64 [of addr] by (simp add: unat_word_ariths n mod_if guard_wraps_def)
  then have "\<not> reg_size region < word_of_nat n" "\<not> reg_size region < addr + word_of_nat n"
    using True n unat_lt_u64 [of addr] by (auto simp: word_less_nat_alt guard_wraps_def)
  then show ?thesis using True n by (simp add: region_guard_def add_usize_def guard_wraps_def)
qed

text \<open>
  C26: what happens to every access that is not inside a region of the device. With an index the device
  does not have nothing happens: no system call is made and the buffer keeps its contents. The same holds
  for an access that leaves its region, unless the length fits in the region while the sum of address and
  length exceeds the range of \<open>u64\<close>; then a build with overflow checks panics before any system call, and
  a build without them goes on to the device, a write as well as a read. A write to a region that is not
  writable never reaches the device, and returns unless that sum panics. The length of a slice is at
  most \<open>isize::MAX\<close>.
\<close>

theorem region_access_rejected:
  assumes "length buf \<le> isize_max"
  shows "case slice_get (dev_regions dev) (unat index) of
      None \<Rightarrow> region_read E dev index buf addr k = (Ok buf, k) \<and> region_write E dev index buf addr k = (Ok (), k)
    | Some region \<Rightarrow>
        (\<not> in_region region addr (length buf) \<longrightarrow>
          (if \<not> guard_wraps region addr (length buf) then
             region_read E dev index buf addr k = (Ok buf, k) \<and> region_write E dev index buf addr k = (Ok (), k)
           else if overflow_checks (env_feat E) then
             region_read E dev index buf addr k = (Panic ''attempt to add with overflow'', k) \<and>
             region_write E dev index buf addr k = (Panic ''attempt to add with overflow'', k)
           else
             region_read E dev index buf addr k =
               bind (\<lambda>k. or_diverge (read_exact_at (env_kernel E) (dev_device dev) [] buf (reg_offset region + addr) k) k)
                 (\<lambda>(_, buf'). ret buf') k \<and>
             (reg_flags region AND VFIO_REGION_INFO_FLAG_WRITE \<noteq> 0 \<longrightarrow>
               region_write E dev index buf addr k =
                 bind (\<lambda>k. or_diverge (write_all_at (env_kernel E) (dev_device dev) buf (reg_offset region + addr) k) k)
                   (\<lambda>_. ret ()) k))) \<and>
        (reg_flags region AND VFIO_REGION_INFO_FLAG_WRITE = 0 \<longrightarrow>
          region_write E dev index buf addr k =
            (if guard_wraps region addr (length buf) \<and> overflow_checks (env_feat E)
             then Panic ''attempt to add with overflow'' else Ok (), k))"
proof (cases "slice_get (dev_regions dev) (unat index)")
  case None
  then show ?thesis by (simp add: region_write_def region_read_def ret_def Let_def)
next
  case (Some region)
  have len: "length buf < 2 ^ 64" using assms by (simp add: isize_max_def)
  note eval = region_read_def region_write_def Let_def lift_def bind_def ret_def add_usize_def Some
  show ?thesis
  proof (cases "in_region region addr (length buf)")
    case True
    then have "unat addr + length buf < 2 ^ 64"
      using unat_lt_u64 [of "reg_size region"] by (simp add: in_region_def)
    then have "region_guard (overflow_checks (env_feat E)) (word_of_nat (length buf)) addr region = Ok False"
      "\<not> guard_wraps region addr (length buf)"
      using True region_guard_eq by (auto simp: guard_wraps_def)
    then show ?thesis using True by (simp add: eval)
  next
    case False
    then show ?thesis using region_guard_outside [OF len False]
      by (simp add: eval)
  qed
qed


end
