(* ===== verification/Lifecycle.thy ===== *)
theory Lifecycle
  imports Device
begin

text \<open>
  Concurrent use of one container. \<open>VfioContainer\<close> is shared behind an \<open>Arc\<close>, so threads open and drop
  devices at the same time; the lock of the table makes \<open>get_group\<close> and the locked part of \<open>put_group\<close>
  atomic, and everything else interleaves. A process is in one of the phases below; a step takes one
  process from one phase to the next and runs one call of the body of \<open>VfioDevice::new\<close> or \<open>Drop::drop\<close>, or
  one of the drops that end their scopes.
\<close>

section \<open>Phases and steps\<close>

text \<open>
  \<^item> \<open>Opening a\<close>: inside \<open>VfioDevice::new\<close>, holding the reference \<open>get_group\<close> returned;
  \<^item> \<open>Reading a info\<close>: the device file is open too, its regions are to be read;
  \<^item> \<open>Probing a info regions\<close>: its interrupts are to be read;
  \<^item> \<open>Abandoning a info\<close>: reading failed, the early return has yet to close the device file;
  \<^item> \<open>Releasing a\<close>: the early return has yet to drop the group;
  \<^item> \<open>Live dev\<close>: the device exists;
  \<^item> \<open>Dropping dev\<close>: inside \<open>Drop::drop\<close>, with the device file closed;
  \<^item> \<open>Closing dev\<close>: the group is cloned, and \<open>put_group\<close> waits for its lock;
  \<^item> \<open>Putting dev\<close>: \<open>put_group\<close> has released the lock and still owns its argument;
  \<^item> \<open>Freeing dev\<close>: \<open>Drop::drop\<close> has returned, the fields of the device are not dropped yet;
  \<^item> \<open>Gone\<close>: the device is dropped.
\<close>

datatype phase =
    Idle
  | Opening arc
  | Reading arc VfioDeviceInfo
  | Probing arc VfioDeviceInfo "VfioRegion list"
  | Abandoning arc VfioDeviceInfo
  | Releasing arc
  | Live VfioDevice
  | Dropping VfioDevice
  | Closing VfioDevice
  | Putting VfioDevice
  | Freeing VfioDevice
  | Gone

inductive proc_step :: "'k env \<Rightarrow> VfioContainer \<Rightarrow> phase \<times> 'k world \<Rightarrow> phase \<times> 'k world \<Rightarrow> bool"
  for E :: "'k env" and C :: VfioContainer where
  acquire: "get_group E C gid w = (Ok a, w') \<Longrightarrow> proc_step E C (Idle, w) (Opening a, w')"
| acquire_fails: "get_group E C gid w = (Err e, w') \<Longrightarrow> proc_step E C (Idle, w) (Idle, w')"
| device: "arc_get a w = (Ok g, w) \<Longrightarrow> on_kernel (get_device E g path) w = (Ok info, w') \<Longrightarrow>
    proc_step E C (Opening a, w) (Reading a info, w')"
| device_fails: "arc_get a w = (Ok g, w) \<Longrightarrow> on_kernel (get_device E g path) w = (Err e, w') \<Longrightarrow>
    proc_step E C (Opening a, w) (Releasing a, w')"
| regions: "on_kernel (get_regions (overflow_checks (env_feat E)) (env_sys E) info) w = (Ok rs, w') \<Longrightarrow>
    proc_step E C (Reading a info, w) (Probing a info rs, w')"
| regions_fail: "on_kernel (get_regions (overflow_checks (env_feat E)) (env_sys E) info) w = (Err e, w') \<Longrightarrow>
    proc_step E C (Reading a info, w) (Abandoning a info, w')"
| irqs: "on_kernel (get_irqs (env_sys E) info) w = (Ok irqs, w') \<Longrightarrow>
    proc_step E C (Probing a info rs, w)
      (Live \<lparr>dev_device = vdi_device info, dev_flags = vdi_flags info, dev_regions = rs,
         dev_irqs = irqs, dev_group = a, dev_container = C\<rparr>, w')"
| irqs_fail: "on_kernel (get_irqs (env_sys E) info) w = (Err e, w') \<Longrightarrow>
    proc_step E C (Probing a info rs, w) (Abandoning a info, w')"
| abandon: "on_kernel (close_file E (vdi_device info)) w = (Ok (), w') \<Longrightarrow>
    proc_step E C (Abandoning a info, w) (Releasing a, w')"
| release: "arc_drop E a w = (Ok (), w') \<Longrightarrow> proc_step E C (Releasing a, w) (Idle, w')"
| close: "on_kernel (close_file E (dev_device dev)) w = (Ok (), w') \<Longrightarrow>
    proc_step E C (Live dev, w) (Dropping dev, w')"
| clone: "arc_clone (dev_group dev) w = (Ok a, w') \<Longrightarrow> proc_step E C (Dropping dev, w) (Closing dev, w')"
| put: "put_group_locked E C (dev_group dev) w = (Ok (), w') \<Longrightarrow>
    proc_step E C (Closing dev, w) (Putting dev, w')"
| drop_argument: "arc_drop E (dev_group dev) w = (Ok (), w') \<Longrightarrow>
    proc_step E C (Putting dev, w) (Freeing dev, w')"
| drop_field: "arc_drop E (dev_group dev) w = (Ok (), w') \<Longrightarrow>
    proc_step E C (Freeing dev, w) (Gone, w')"

inductive step :: "'k env \<Rightarrow> VfioContainer \<Rightarrow> phase list \<times> 'k world \<Rightarrow> phase list \<times> 'k world \<Rightarrow> bool"
  for E :: "'k env" and C :: VfioContainer where
  step: "i < length ps \<Longrightarrow> proc_step E C (ps ! i, w) (p', w') \<Longrightarrow> step E C (ps, w) (ps[i := p'], w')"

inductive reachable :: "'k env \<Rightarrow> VfioContainer \<Rightarrow> nat \<Rightarrow> phase list \<times> 'k world \<Rightarrow> bool"
  for E :: "'k env" and C :: VfioContainer and n :: nat where
  init: "arcs w = (\<lambda>_. None) \<Longrightarrow> groups w = hm_new \<Longrightarrow> reachable E C n (replicate n Idle, w)"
| steps: "reachable E C n s \<Longrightarrow> step E C s s' \<Longrightarrow> reachable E C n s'"

inductive_cases proc_stepE: "proc_step E C (p, w) (p', w')"
inductive_cases stepE: "step E C (ps, w) s'"

section \<open>The invariant\<close>

text \<open>The references a process holds, and the group it relies on being attached.\<close>

fun refs_of :: "phase \<Rightarrow> arc \<Rightarrow> nat" where
  "refs_of (Opening b) a = (if a = b then 1 else 0)"
| "refs_of (Reading b _) a = (if a = b then 1 else 0)"
| "refs_of (Probing b _ _) a = (if a = b then 1 else 0)"
| "refs_of (Abandoning b _) a = (if a = b then 1 else 0)"
| "refs_of (Releasing b) a = (if a = b then 1 else 0)"
| "refs_of (Live dev) a = (if a = dev_group dev then 1 else 0)"
| "refs_of (Dropping dev) a = (if a = dev_group dev then 1 else 0)"
| "refs_of (Closing dev) a = (if a = dev_group dev then 2 else 0)"
| "refs_of (Putting dev) a = (if a = dev_group dev then 2 else 0)"
| "refs_of (Freeing dev) a = (if a = dev_group dev then 1 else 0)"
| "refs_of _ a = 0"

fun needs :: "phase \<Rightarrow> arc option" where
  "needs (Opening b) = Some b"
| "needs (Reading b _) = Some b"
| "needs (Probing b _ _) = Some b"
| "needs (Abandoning b _) = Some b"
| "needs (Releasing b) = Some b"
| "needs (Live dev) = Some (dev_group dev)"
| "needs (Dropping dev) = Some (dev_group dev)"
| "needs (Closing dev) = Some (dev_group dev)"
| "needs _ = None"

definition held :: "phase list \<Rightarrow> arc \<Rightarrow> nat" where
  "held ps a = sum_list (map (\<lambda>p. refs_of p a) ps)"

definition listed :: "'k world \<Rightarrow> arc \<Rightarrow> bool" where
  "listed w a \<longleftrightarrow> (\<exists>gid. hm_get (groups w) gid = Some a)"

definition lc_inv :: "phase list \<times> 'k world \<Rightarrow> bool" where
  "lc_inv s \<longleftrightarrow> (case s of (ps, w) \<Rightarrow>
     refs_ok (held ps) w \<and> (\<forall>i<length ps. \<forall>a. needs (ps ! i) = Some a \<longrightarrow> listed w a))"

lemma held_update:
  "i < length ps \<Longrightarrow> held (ps[i := p]) a + refs_of (ps ! i) a = held ps a + refs_of p a"
proof -
  assume i: "i < length ps"
  have "sum_list ((map (\<lambda>p. refs_of p a) ps)[i := refs_of p a]) + refs_of (ps ! i) a =
      sum_list (map (\<lambda>p. refs_of p a) ps) + refs_of p a"
    using i member_le_sum_list [of "refs_of (ps ! i) a" "map (\<lambda>p. refs_of p a) ps"]
    by (subst sum_list_update) auto
  then show ?thesis using i by (simp add: held_def map_update)
qed

lemma held_ge: "i < length ps \<Longrightarrow> refs_of (ps ! i) a \<le> held ps a"
  unfolding held_def by (rule member_le_sum_list) auto

lemma held_ge2:
  "i < length ps \<Longrightarrow> j < length ps \<Longrightarrow> i \<noteq> j \<Longrightarrow> refs_of (ps ! i) a + refs_of (ps ! j) a \<le> held ps a"
  using held_update [of i ps Idle a] held_ge [of j "ps[i := Idle]" a] by simp

lemma needs_refs: "needs p = Some a \<Longrightarrow> 1 \<le> refs_of p a"
  by (cases p) auto

text \<open>How the holdings change when one process moves.\<close>

lemma held_move:
  assumes "i < length ps" "\<And>b. refs_of p' b + (if b = a then d else 0) = refs_of (ps ! i) b + (if b = a then u else 0)"
  shows "held (ps[i := p']) = (held ps)(a := held ps a + u - d)"
proof
  fix b
  show "held (ps[i := p']) b = ((held ps)(a := held ps a + u - d)) b"
    using held_update [OF assms(1), of p' b] assms(2) [of b] by (cases "b = a") auto
qed

lemma lc_invI:
  assumes "lc_inv (ps, w)" "i < length ps" "refs_ok (held (ps[i := p'])) w'"
    "\<And>a. needs p' = Some a \<Longrightarrow> listed w' a"
    "\<And>j a. j < length ps \<Longrightarrow> j \<noteq> i \<Longrightarrow> needs (ps ! j) = Some a \<Longrightarrow> listed w a \<Longrightarrow> listed w' a"
  shows "lc_inv (ps[i := p'], w')"
proof -
  have "listed w' a" if "j < length ps" "needs (ps[i := p'] ! j) = Some a" for j a
    using that assms(1,4,5) by (cases "j = i") (auto simp: lc_inv_def)
  then show ?thesis using assms(3) by (simp add: lc_inv_def)
qed

lemma lc_inv_refs: "lc_inv (ps, w) \<Longrightarrow> refs_ok (held ps) w"
  and lc_inv_listed: "lc_inv (ps, w) \<Longrightarrow> i < length ps \<Longrightarrow> needs (ps ! i) = Some a \<Longrightarrow> listed w a"
  by (simp_all add: lc_inv_def)

lemma listed_same: "groups w' = groups w \<Longrightarrow> listed w' a = listed w a"
  by (simp add: listed_def)

text \<open>The step of \<open>put_group\<close> unlists a group only when nobody else needs it.\<close>

lemma put_keeps_needed:
  fixes w w' :: "'k world"
  assumes "lc_inv (ps, w)" "i < length ps" "ps ! i = Closing dev"
    "put_group_locked E C (dev_group dev) w = (Ok (), w')"
    "j < length ps" "j \<noteq> i" "needs (ps ! j) = Some b"
  shows "listed w' b"
proof -
  let ?a = "dev_group dev"
  note r = lc_inv_refs [OF assms(1)]
  have la: "listed w ?a" and lb: "listed w b"
    using lc_inv_listed [OF assms(1)] assms(2,3,5,7) by simp_all
  obtain gid where gid: "hm_get (groups w) gid = Some ?a" using la by (auto simp: listed_def)
  obtain g where g: "arcs w ?a = Some (g, Suc (held ps ?a))" "grp_id g = gid"
    using refs_ok_listed [OF r gid] by blast
  have post: "same_heap w w' \<or> Suc (held ps ?a) = 3 \<and> hm_get (groups w') = (hm_get (groups w))(gid := None)"
    using triple_OkD [OF triple_put_group_locked [OF r g(1)] assms(4)] g(2) by blast
  show ?thesis
  proof (cases "same_heap w w'")
    case True
    then show ?thesis using lb by (simp add: same_heap_def listed_def)
  next
    case False
    have "b \<noteq> ?a"
      using held_ge2 [OF assms(2,5) assms(6) [symmetric], of ?a] needs_refs [OF assms(7)] assms(3) post False by auto
    then show ?thesis using lb gid post False by (force simp: listed_def)
  qed
qed

lemma drop_refs:
  assumes "refs_ok h w" "0 < h a" "arc_drop E a w = (Ok (), w')"
  shows "refs_ok (h(a := h a - 1)) w'" "groups w' = groups w"
  using arc_drop_held [OF assms(1,2), of E] assms(3) by simp_all

lemma clone_refs:
  assumes "refs_ok h w" "0 < h a"
  shows "\<exists>w'. arc_clone a w = (Ok a, w') \<and> refs_ok (h(a := Suc (h a))) w' \<and> groups w' = groups w"
proof -
  obtain g n where g: "arcs w a = Some (g, n)" using refs_ok_alive [OF assms] by blast
  obtain w' where "arc_clone a w = (Ok a, w')" using g by (simp add: arc_clone_def)
  then show ?thesis using triple_OkD [OF triple_arc_clone [OF assms(1) g]] by auto
qed

lemma get_group_listed:
  fixes w w' :: "'k world"
  assumes "refs_ok h w" "get_group E C gid w = (Ok a, w')"
  shows "refs_ok (h(a := Suc (h a))) w'" "listed w' a" "listed w b \<Longrightarrow> listed w' b"
proof -
  have post: "refs_ok (h(a := Suc (h a))) w'" "hm_get (groups w') = (hm_get (groups w))(gid \<mapsto> a)"
    "hm_get (groups w) gid = None \<longrightarrow> h a = 0"
    using triple_OkD [OF triple_get_group [OF assms(1)] assms(2)] by blast+
  have same: "hm_get (groups w) gid = Some c \<Longrightarrow> c = a" for c
    using assms(2) by (auto simp: get_group_def arc_clone_def split: option.splits prod.splits)
  show "refs_ok (h(a := Suc (h a))) w'" by (rule post(1))
  show "listed w' a" by (auto simp: listed_def post(2))
  show "listed w b \<Longrightarrow> listed w' b" using same by (fastforce simp: listed_def post(2))
qed

text \<open>
  One process moves from \<open>p\<close> to \<open>p'\<close>, taking up \<open>u\<close> references to \<open>a\<close> and giving up \<open>d\<close>.
\<close>

lemma lc_move:
  assumes "lc_inv (ps, w)" "i < length ps" "p = ps ! i"
    "\<And>b. refs_of p' b + (if b = a then d else 0) = refs_of p b + (if b = a then u else 0)"
    "refs_ok ((held ps)(a := held ps a + u - d)) w'"
    "\<And>a. needs p' = Some a \<Longrightarrow> listed w' a"
    "\<And>j b. j < length ps \<Longrightarrow> j \<noteq> i \<Longrightarrow> needs (ps ! j) = Some b \<Longrightarrow> listed w b \<Longrightarrow> listed w' b"
  shows "lc_inv (ps[i := p'], w')"
  using assms held_move [OF assms(2), of p' a d u] by (intro lc_invI [OF assms(1,2)]) simp_all

text \<open>A step that only calls the kernel keeps the references and the table.\<close>

lemma kernel_step_inv:
  fixes w w' :: "'k world"
  assumes inv: "lc_inv (ps, w)" and i: "i < length ps" and p: "p = ps ! i"
    and run: "on_kernel m w = (r, w')" and p': "refs_of p' = refs_of p" "needs p' = needs p"
  shows "lc_inv (ps[i := p'], w')"
proof -
  have "arcs w' = arcs w" "groups w' = groups w" "next_arc w' = next_arc w"
    using run by (auto simp: on_kernel_def split: prod.splits)
  moreover from this have "refs_ok (held ps) w'" using lc_inv_refs [OF inv] by (simp add: refs_ok_def)
  moreover have "listed w a" if "needs p' = Some a" for a
    using lc_inv_listed [OF inv i, of a] that p p'(2) by simp
  ultimately show ?thesis using p'(1)
    by (intro lc_move [OF inv i p, of _ 0 0 0]) (auto simp: listed_def)
qed

text \<open>A step that drops one reference the process holds, and needs nothing afterwards.\<close>

lemma drop_step_inv:
  fixes w w' :: "'k world"
  assumes inv: "lc_inv (ps, w)" and i: "i < length ps" and p: "p = ps ! i"
    and run: "arc_drop E a w = (Ok (), w')" and p': "\<And>b. refs_of p b = refs_of p' b + (if b = a then 1 else 0)" "needs p' = None"
  shows "lc_inv (ps[i := p'], w')"
proof -
  have "0 < held ps a" using held_ge [OF i, of a] p p'(1) [of a] by simp
  then have "refs_ok ((held ps)(a := held ps a - 1)) w'" "groups w' = groups w"
    using drop_refs [OF lc_inv_refs [OF inv] _ run] by simp_all
  then show ?thesis using p' by (intro lc_move [OF inv i p, of _ a 1 0]) (auto simp: listed_def)
qed

lemma clone_step_inv:
  fixes w w' :: "'k world"
  assumes inv: "lc_inv (ps, w)" and i: "i < length ps" and p: "Dropping dev = ps ! i"
    and run: "arc_clone (dev_group dev) w = (Ok a, w')"
  shows "lc_inv (ps[i := Closing dev], w')"
proof -
  let ?a = "dev_group dev"
  have "0 < held ps ?a" using held_ge [OF i, of ?a] by (simp add: p [symmetric])
  from clone_refs [OF lc_inv_refs [OF inv] this] run
  have "refs_ok ((held ps)(?a := Suc (held ps ?a))) w'" "groups w' = groups w" by simp_all
  then show ?thesis using lc_inv_listed [OF inv i, of ?a]
    by (intro lc_move [OF inv i p, of _ ?a 0 1]) (auto simp: listed_def p [symmetric])
qed

lemma put_step_inv:
  fixes w w' :: "'k world"
  assumes inv: "lc_inv (ps, w)" and i: "i < length ps" and p: "Closing dev = ps ! i"
    and run: "put_group_locked E C (dev_group dev) w = (Ok (), w')"
  shows "lc_inv (ps[i := Putting dev], w')"
proof -
  note r = lc_inv_refs [OF inv]
  have "0 < held ps (dev_group dev)" using held_ge [OF i, of "dev_group dev"] by (simp add: p [symmetric])
  then obtain g n where g: "arcs w (dev_group dev) = Some (g, n)" using refs_ok_alive [OF r] by blast
  have "refs_ok (held ps) w'" using triple_OkD [OF triple_put_group_locked [OF r g] run] by blast
  then show ?thesis using put_keeps_needed [OF inv i p [symmetric] run]
    by (intro lc_move [OF inv i p, of _ "dev_group dev" 0 0]) auto
qed

lemma acquire_step_inv:
  fixes w w' :: "'k world"
  assumes inv: "lc_inv (ps, w)" and i: "i < length ps" and p: "Idle = ps ! i"
  shows "get_group E C gid w = (Ok a, w') \<Longrightarrow> lc_inv (ps[i := Opening a], w')"
    and "get_group E C gid w = (Err e, w') \<Longrightarrow> lc_inv (ps[i := Idle], w')"
proof -
  note r = lc_inv_refs [OF inv]
  show "lc_inv (ps[i := Opening a], w')" if "get_group E C gid w = (Ok a, w')"
    using get_group_listed [OF r that] by (intro lc_move [OF inv i p, of _ a 0 1]) auto
  show "lc_inv (ps[i := Idle], w')" if "get_group E C gid w = (Err e, w')"
    using triple_ErrD [OF triple_get_group [OF r] that]
    by (intro lc_move [OF inv i p, of _ 0 0 0]) (auto simp: listed_def)
qed

lemma step_inv: "step E C s s' \<Longrightarrow> lc_inv s \<Longrightarrow> lc_inv s'"
proof (induction rule: step.induct)
  case (step i ps w p' w')
  note at = step(3,1)
  from step(2) show ?case
  proof (cases rule: proc_step.cases)
    case (acquire gid a)
    then show ?thesis using acquire_step_inv(1) [OF at] by simp
  next
    case (acquire_fails gid e)
    then show ?thesis using acquire_step_inv(2) [OF at] by simp
  next
    case (device a g path info)
    then show ?thesis by (intro kernel_step_inv [OF at _ device(4)]) (auto simp: fun_eq_iff)
  next
    case (device_fails a g path e)
    then show ?thesis by (intro kernel_step_inv [OF at _ device_fails(4)]) (auto simp: fun_eq_iff)
  next
    case (regions info rs a)
    then show ?thesis by (intro kernel_step_inv [OF at _ regions(3)]) (auto simp: fun_eq_iff)
  next
    case (regions_fail info e a)
    then show ?thesis by (intro kernel_step_inv [OF at _ regions_fail(3)]) (auto simp: fun_eq_iff)
  next
    case (irqs info irqs a rs)
    then show ?thesis by (intro kernel_step_inv [OF at _ irqs(3)]) (auto simp: fun_eq_iff)
  next
    case (irqs_fail info e a rs)
    then show ?thesis by (intro kernel_step_inv [OF at _ irqs_fail(3)]) (auto simp: fun_eq_iff)
  next
    case (abandon info a)
    then show ?thesis by (intro kernel_step_inv [OF at _ abandon(3)]) (auto simp: fun_eq_iff)
  next
    case (release a)
    then show ?thesis by (intro drop_step_inv [OF at _ release(3)]) auto
  next
    case (close dev)
    then show ?thesis by (intro kernel_step_inv [OF at _ close(3)]) (auto simp: fun_eq_iff)
  next
    case (clone dev a)
    then show ?thesis using clone_step_inv [OF at] by simp
  next
    case (put dev)
    then show ?thesis using put_step_inv [OF at] by simp
  next
    case (drop_argument dev)
    then show ?thesis by (intro drop_step_inv [OF at _ drop_argument(3)]) auto
  next
    case (drop_field dev)
    then show ?thesis by (intro drop_step_inv [OF at _ drop_field(3)]) auto
  qed
qed

lemma reachable_inv: "reachable E C n s \<Longrightarrow> lc_inv s"
proof (induction rule: reachable.induct)
  case (init w)
  have "held (replicate n Idle) = (\<lambda>_. 0)" by (simp add: held_def fun_eq_iff)
  moreover have "hm_get (groups w) = (\<lambda>_. None)" using init(2) by (simp add: hm.get_empty fun_eq_iff)
  ultimately show ?case using init hm.invar_empty by (simp add: lc_inv_def refs_ok_def)
qed (rule step_inv)

section \<open>Progress\<close>

text \<open>The phases a device that is dropped still has to go through.\<close>

fun todo :: "phase \<Rightarrow> nat" where
  "todo (Live _) = 5"
| "todo (Dropping _) = 4"
| "todo (Closing _) = 3"
| "todo (Putting _) = 2"
| "todo (Freeing _) = 1"
| "todo _ = 0"

lemma todo_refs: "todo p \<noteq> 0 \<Longrightarrow> \<exists>a. refs_of p a \<noteq> 0"
  by (cases p) auto

context vfio_syscalls
begin

lemma proc_progress:
  assumes "env_sys E = S" "lc_inv (ps, w)" "i < length ps" "todo (ps ! i) \<noteq> 0"
  shows "\<exists>p' w'. proc_step E C (ps ! i, w) (p', w')"
proof -
  note r = lc_inv_refs [OF assms(2)]
  obtain a where a: "refs_of (ps ! i) a \<noteq> 0" using todo_refs [OF assms(4)] by blast
  have pos: "0 < held ps a" using held_ge [OF assms(3), of a] a by simp
  obtain g n where g: "arcs w a = Some (g, n)" using refs_ok_alive [OF r pos] by blast
  show ?thesis
  proof (cases "ps ! i")
    case (Live dev)
    have "on_kernel (close_file E (dev_device dev)) w =
        (Ok (), w\<lparr>kst := k_close (env_kernel E) (dev_device dev) (kst w)\<rparr>)" by (simp add: on_kernel_def close_file_def)
    then show ?thesis using Live by (auto intro: proc_step.close)
  next
    case (Dropping dev)
    then show ?thesis using clone_refs [OF r pos] a by (auto intro: proc_step.clone split: if_splits)
  next
    case (Closing dev)
    then have a: "a = dev_group dev" using a by (auto split: if_splits)
    have "graceful (fst (put_group_locked E C a w))" by (rule graceful_put_group_locked [OF r g assms(1)])
    then obtain w' where "put_group_locked E C a w = (Ok (), w')"
      using triple_ErrD [OF triple_put_group_locked [OF r g, of E C]]
      by (cases "put_group_locked E C a w"; cases "fst (put_group_locked E C a w)") auto
    then show ?thesis using Closing a by (auto intro: proc_step.put)
  next
    case (Putting dev)
    then show ?thesis using arc_drop_held [OF r pos, of E] a
      by (auto intro: proc_step.drop_argument split: if_splits)
  next
    case (Freeing dev)
    then show ?thesis using arc_drop_held [OF r pos, of E] a
      by (auto intro: proc_step.drop_field split: if_splits)
  qed (use assms(4) in auto)
qed

end

section \<open>Running to the end\<close>

lemma step_at:
  "i < length ps \<Longrightarrow> proc_step E C (ps ! i, w) (p', w') \<Longrightarrow> step E C (ps, w) (ps[i := p'], w')"
  by (rule step.step)

lemma both_move:
  assumes "proc_step E C (x, u) (x', u1)" "proc_step E C (y, u1) (y', u2)"
  shows "(step E C)\<^sup>*\<^sup>* ([x, y], u) ([x', y'], u2)"
proof -
  have "step E C ([x, y], u) ([x', y], u1)" using step_at [of 0 "[x, y]"] assms(1) by simp
  moreover have "step E C ([x', y], u1) ([x', y'], u2)" using step_at [of 1 "[x', y]"] assms(2) by simp
  ultimately show ?thesis by (meson converse_rtranclp_into_rtranclp r_into_rtranclp)
qed

lemma proc_step_todo:
  "proc_step E C (p, w) (p', w') \<Longrightarrow> todo p \<noteq> 0 \<Longrightarrow> Suc (todo p') = todo p \<and> (todo p' = 0 \<longrightarrow> p' = Gone)"
  by (erule proc_stepE) auto

lemma drop_completes:
  assumes "vfio_syscalls (env_sys E)" "lc_inv (ps, w)" "i < length ps" "todo (ps ! i) \<noteq> 0"
  shows "\<exists>w'. (step E C)\<^sup>*\<^sup>* (ps, w) (ps[i := Gone], w')"
  using assms(2-4)
proof (induction "todo (ps ! i)" arbitrary: ps w)
  case (Suc m)
  obtain p' w1 where st: "proc_step E C (ps ! i, w) (p', w1)"
    using vfio_syscalls.proc_progress [OF assms(1) refl Suc.prems, of C] by blast
  have t: "todo p' = m" "m = 0 \<Longrightarrow> p' = Gone" using proc_step_todo [OF st Suc.prems(3)] Suc.hyps(2) by auto
  have s1: "step E C (ps, w) (ps[i := p'], w1)" using step_at [OF Suc.prems(2) st] .
  show ?case
  proof (cases "m = 0")
    case True
    then show ?thesis using s1 t(2) by blast
  next
    case False
    then obtain w' where "(step E C)\<^sup>*\<^sup>* (ps[i := p'], w1) (ps[i := p', i := Gone], w')"
      using Suc.hyps(1) [of "ps[i := p']" w1] step_inv [OF s1 Suc.prems(1)] Suc.prems(2) t(1) by auto
    then show ?thesis using s1 by (auto intro: converse_rtranclp_into_rtranclp)
  qed
qed simp

section \<open>The steps are the code\<close>

text \<open>
  Without interference the steps of a process compose to the functions they were cut from: opening a
  device in a group, whether it succeeds or fails, and dropping it.
\<close>

lemma process_steps:
  assumes "(proc_step E C)\<^sup>*\<^sup>* (p, w) (p', w')" "i < length ps" "ps ! i = p"
  shows "(step E C)\<^sup>*\<^sup>* (ps, w) (ps[i := p'], w')"
  using assms(1)
proof (induction "(p', w')" arbitrary: p' w' rule: rtranclp_induct)
  case base
  then show ?case using assms(2,3) by auto
next
  case (step q)
  obtain p1 w1 where q: "q = (p1, w1)" by fastforce
  have "step E C (ps[i := p1], w1) (ps[i := p1, i := p'], w')"
    using step(2) assms(2) by (intro step_at) (simp_all add: q)
  then show ?case using step(3) q by (auto intro: rtranclp.rtrancl_into_rtrancl)
qed

lemma reachable_steps: "(step E C)\<^sup>*\<^sup>* s s' \<Longrightarrow> reachable E C n s \<Longrightarrow> reachable E C n s'"
  by (induction rule: rtranclp_induct) (auto intro: reachable.steps)

definition open_in_group :: "'k env \<Rightarrow> VfioContainer \<Rightarrow> string \<Rightarrow> arc \<Rightarrow> ('k world, VfioDevice) io" where
  "open_in_group E C path a =
     bind (arc_get a) (\<lambda>g.
     bind (attempt (on_kernel (get_device E g path))) (\<lambda>r. case r of
       Inl e \<Rightarrow> fail_with_group E a e
     | Inr device_info \<Rightarrow> read_device E C a device_info))"

lemma VfioDevice_new_split:
  "VfioDevice_new E path C = bind (on_kernel (get_group_id_from_path E path)) (\<lambda>gid.
     bind (get_group E C gid) (open_in_group E C path))"
  by (simp add: VfioDevice_new_def open_in_group_def [abs_def])

lemma kernel_attempt:
  assumes "bind (attempt (on_kernel m)) f w = (r, w')" "graceful r"
  obtains (err) e w1 where "on_kernel m w = (Err e, w1)" "arcs w1 = arcs w" "f (Inl e) w1 = (r, w')"
    | (ok) x w1 where "on_kernel m w = (Ok x, w1)" "arcs w1 = arcs w" "f (Inr x) w1 = (r, w')"
proof -
  obtain q w1 where q: "on_kernel m w = (q, w1)" by fastforce
  then have "arcs w1 = arcs w" by (auto simp: on_kernel_def split: prod.splits)
  then show ?thesis using q assms err ok by (cases q) (auto simp: bind_def attempt_def)
qed

lemma fail_with_group_steps:
  assumes "fail_with_group E a e w = (r, w')" "arcs w a = Some x"
  shows "r = Err e \<and> proc_step E C (Releasing a, w) (Idle, w')"
proof -
  obtain w1 where d: "arc_drop E a w = (Ok (), w1)" using assms(2) by (cases x) (auto simp: arc_drop_def Let_def)
  then have "r = Err e" "w' = w1" using assms(1) by (simp_all add: fail_with_group_def bind_def throw_def)
  then show ?thesis using proc_step.release [OF d] by simp
qed

lemma fail_with_device_steps:
  assumes "fail_with_device E a info e w = (r, w')" "arcs w a = Some x"
  shows "r = Err e \<and> (proc_step E C)\<^sup>*\<^sup>* (Abandoning a info, w) (Idle, w')"
proof -
  let ?w1 = "w\<lparr>kst := k_close (env_kernel E) (vdi_device info) (kst w)\<rparr>"
  have c: "on_kernel (close_file E (vdi_device info)) w = (Ok (), ?w1)" by (simp add: on_kernel_def close_file_def)
  have "fail_with_group E a e ?w1 = (r, w')" using assms(1) c by (simp add: fail_with_device_def bind_def)
  from fail_with_group_steps [OF this, of x C] assms(2)
  have "r = Err e" "proc_step E C (Releasing a, ?w1) (Idle, w')" by simp_all
  then show ?thesis using proc_step.abandon [OF c, of C a] by (auto intro: converse_rtranclp_into_rtranclp)
qed

text \<open>Where \<open>VfioDevice::new\<close> leaves the process: with the device, or where it began.\<close>

fun outcome :: "VfioDevice res \<Rightarrow> phase \<Rightarrow> bool" where
  "outcome (Ok dev) p = (p = Live dev)"
| "outcome (Err e) p = (p = Idle)"
| "outcome _ p = False"

lemma read_device_steps:
  assumes "read_device E C a info w = (r, w')" "graceful r" "arcs w a = Some x"
  shows "\<exists>p. outcome r p \<and> (proc_step E C)\<^sup>*\<^sup>* (Reading a info, w) (p, w')"
  using assms(1) [unfolded read_device_def] assms(2)
proof (cases rule: kernel_attempt)
  case (err e w1)
  then show ?thesis using fail_with_device_steps [of E a info e w1 r w' x C] assms(3) proc_step.regions_fail [OF err(1), of C a]
    by (auto intro: converse_rtranclp_into_rtranclp)
next
  case (ok rs w1)
  note st = proc_step.regions [OF ok(1), of C a]
  from ok(3) [unfolded sum.case] assms(2) show ?thesis
  proof (cases rule: kernel_attempt)
    case (err e w2)
    then show ?thesis using fail_with_device_steps [of E a info e w2 r w' x C] assms(3) ok(2) st proc_step.irqs_fail [OF err(1), of C a rs]
      by (auto intro: converse_rtranclp_into_rtranclp)
  next
    case (ok irqs w2)
    then show ?thesis using st proc_step.irqs [OF ok(1), of C a rs]
      by (auto simp: ret_def intro: converse_rtranclp_into_rtranclp)
  qed
qed

lemma open_in_group_steps:
  assumes "open_in_group E C path a w = (r, w')" "graceful r" "arcs w a = Some x"
  shows "\<exists>p. outcome r p \<and> (proc_step E C)\<^sup>*\<^sup>* (Opening a, w) (p, w')"
proof -
  obtain g where g: "arc_get a w = (Ok g, w)" using assms(3) by (cases x) (simp add: arc_get_def)
  have "bind (attempt (on_kernel (get_device E g path))) (\<lambda>r. case r of
       Inl e \<Rightarrow> fail_with_group E a e
     | Inr device_info \<Rightarrow> read_device E C a device_info) w = (r, w')"
    using assms(1) g by (simp add: open_in_group_def bind_def)
  from this assms(2) show ?thesis
  proof (cases rule: kernel_attempt)
    case (err e w1)
    then show ?thesis using fail_with_group_steps [of E a e w1 r w' x C] assms(3) proc_step.device_fails [OF g err(1), of C]
      by (auto intro: converse_rtranclp_into_rtranclp)
  next
    case (ok info w1)
    then show ?thesis using read_device_steps [of E C a info w1 r w' x] assms(2,3) proc_step.device [OF g ok(1), of C]
      by (auto intro: converse_rtranclp_into_rtranclp)
  qed
qed

lemma drop_device_steps:
  assumes "dev_container dev = C" "drop_device E dev w = (Ok (), w')"
  shows "(proc_step E C)\<^sup>*\<^sup>* (Live dev, w) (Gone, w')"
proof -
  obtain a w1 w2 w3 w4 where run: "on_kernel (close_file E (dev_device dev)) w = (Ok (), w1)"
    "arc_clone (dev_group dev) w1 = (Ok a, w2)" "put_group_locked E C a w2 = (Ok (), w3)"
    "arc_drop E a w3 = (Ok (), w4)" "arc_drop E (dev_group dev) w4 = (Ok (), w')"
    using assms by (auto simp: drop_device_def device_drop_def put_group_def bind_Ok_iff)
  have "a = dev_group dev" using run(2) by (auto simp: arc_clone_def split: option.splits)
  then show ?thesis
    using proc_step.close [OF run(1), of C] proc_step.clone [OF run(2), of E C] proc_step.put [of E C dev w2 w3]
      proc_step.drop_argument [of E dev w3 w4 C] proc_step.drop_field [of E dev w4 w' C] run(3-5)
    by (metis (no_types, lifting) converse_rtranclp_into_rtranclp rtranclp.rtrancl_refl)
qed

section \<open>Properties\<close>

text \<open>
  C2: in every interleaving of threads that open and drop devices on one container, the reference
  count of every group is exactly the number of references that exist: those held by devices and calls
  in progress, and the table's. In particular no group is used after it was freed, or freed twice.
\<close>

theorem reference_counts_exact:
  assumes "reachable E C n (ps, w)"
  shows "refs_ok (held ps) w"
  using reachable_inv [OF assms] by (rule lc_inv_refs)

text \<open>
  C1: a group stays attached as long as it is used. In every interleaving, while a device is being
  opened, is abandoned after an error, is live, or has not yet entered \<open>put_group\<close>, its group is allocated and the table lists it:
  no other thread's \<open>put_group\<close> takes it away.
\<close>

theorem used_group_stays_attached:
  assumes "reachable E C n (ps, w)" "i < length ps" "needs (ps ! i) = Some a"
  shows "\<exists>g m. arcs w a = Some (g, m) \<and> hm_get (groups w) (grp_id g) = Some a"
proof -
  have "lc_inv (ps, w)" using reachable_inv [OF assms(1)] .
  then obtain gid where "hm_get (groups w) gid = Some a" "refs_ok (held ps) w"
    using assms(2,3) lc_inv_listed lc_inv_refs by (metis listed_def)
  then show ?thesis using refs_ok_listed by metis
qed

text \<open>
  C17: dropping completes. From every reachable state a device that is live or being dropped can be
  dropped to the end, whatever state the other threads are in: no step panics and none is blocked.
\<close>

theorem device_drop_completes:
  assumes "vfio_syscalls (env_sys E)" "reachable E C n (ps, w)" "i < length ps"
    "ps ! i = Live dev \<or> ps ! i = Dropping dev \<or> ps ! i = Closing dev \<or> ps ! i = Putting dev \<or>
     ps ! i = Freeing dev"
  shows "\<exists>w'. (step E C)\<^sup>*\<^sup>* (ps, w) (ps[i := Gone], w')"
  using drop_completes [OF assms(1) reachable_inv [OF assms(2)] assms(3)] assms(4) by auto

text \<open>
  C19: two devices dropped at the same time can leave their group behind. When two threads drop the
  last two devices of a group and both pass \<open>put_group\<close> before either has dropped its references, neither
  sees a count of three; both devices are gone afterwards, and the group is still in the table, held
  by nobody else and bound to the container.
\<close>

theorem concurrent_drops_keep_group:
  fixes w :: "'k world"
  assumes "reachable E C 2 ([Live d1, Live d2], w)" "dev_group d1 = a" "dev_group d2 = a"
  shows "\<exists>w'. (step E C)\<^sup>*\<^sup>* ([Live d1, Live d2], w) ([Gone, Gone], w') \<and> listed w' a \<and> strong_count a w' = 1"
proof -
  have inv: "lc_inv ([Live d1, Live d2], w)" using reachable_inv [OF assms(1)] .
  then obtain gid where gid: "hm_get (groups w) gid = Some a"
    using lc_inv_listed [OF inv, of 0 a] assms(2) by (auto simp: listed_def)
  have "held [Live d1, Live d2] a = 2" using assms(2,3) by (simp add: held_def)
  then obtain g where g: "arcs w a = Some (g, 3)" using refs_ok_listed [OF lc_inv_refs [OF inv] gid] by auto
  define at where "at m k = w\<lparr>kst := k, arcs := (arcs w)(a \<mapsto> (g, m))\<rparr>" for m k
  let ?close = "\<lambda>d k. k_close (env_kernel E) (dev_device d) k"
  let ?k1 = "?close d1 (kst w)" and ?k2 = "?close d2 (?close d1 (kst w))"
  have w: "w = at 3 (kst w)" using g by (simp add: at_def fun_upd_idem)
  have grp: "groups (at m k) = groups w" for m k by (simp add: at_def)
  have cl: "on_kernel (close_file E (dev_device d)) (at m k) = (Ok (), at m (?close d k))" for d m k
    by (simp add: on_kernel_def close_file_def at_def)
  have cn: "arc_clone a (at m k) = (Ok a, at (Suc m) k)" for m k by (simp add: arc_clone_def at_def)
  have pg: "put_group_locked E C a (at 5 k) = (Ok (), at 5 k)" for k
    by (simp add: put_group_locked_def strong_count_def at_def)
  have ad: "arc_drop E a (at m k) = (Ok (), at (m - 1) k)" if "2 \<le> m" for m k
    using that by (simp add: arc_drop_def at_def)
  let ?R = "step E C"
  have "?R\<^sup>*\<^sup>* ([Live d1, Live d2], w) ([Dropping d1, Dropping d2], at 3 ?k2)"
    by (rule both_move; rule proc_step.close) (use cl [of d1 3 "kst w"] cl [of d2 3 ?k1] w in simp_all)
  also have "?R\<^sup>*\<^sup>* ([Dropping d1, Dropping d2], at 3 ?k2) ([Closing d1, Closing d2], at 5 ?k2)"
    by (rule both_move; rule proc_step.clone) (use cn [of 3 ?k2] cn [of 4 ?k2] assms(2,3) in simp_all)
  also have "?R\<^sup>*\<^sup>* ([Closing d1, Closing d2], at 5 ?k2) ([Putting d1, Putting d2], at 5 ?k2)"
    by (rule both_move; rule proc_step.put) (use pg assms(2,3) in simp_all)
  also have "?R\<^sup>*\<^sup>* ([Putting d1, Putting d2], at 5 ?k2) ([Freeing d1, Freeing d2], at 3 ?k2)"
    by (rule both_move; rule proc_step.drop_argument) (use ad [of 5 ?k2] ad [of 4 ?k2] assms(2,3) in simp_all)
  also have "?R\<^sup>*\<^sup>* ([Freeing d1, Freeing d2], at 3 ?k2) ([Gone, Gone], at 1 ?k2)"
    by (rule both_move; rule proc_step.drop_field) (use ad [of 3 ?k2] ad [of 2 ?k2] assms(2,3) in simp_all)
  finally have "?R\<^sup>*\<^sup>* ([Live d1, Live d2], w) ([Gone, Gone], at 1 ?k2)" .
  moreover have "listed (at 1 ?k2) a" "strong_count a (at 1 ?k2) = 1"
    using gid grp by (auto simp: listed_def strong_count_def at_def)
  ultimately show ?thesis by blast
qed
end
