(* ===== verification/Unit_Tests.thy ===== *)
theory Unit_Tests
  imports Test_Syscall Dma_Mappings Device_Irq Region_Io Lifecycle
begin

text \<open>
  The environment of the crate's unit tests: the test version of \<open>vfio_syscall\<close> on a concrete kernel that
  numbers the files it opens, in a debug test build with the feature \<open>kvm\<close>. Here the device the tests open
  is computed, and what its operations return; theory \<open>Crate_Tests\<close> holds the tests themselves.
\<close>

section \<open>The environment of the tests\<close>

definition test_kernel :: "nat kernel" where
  "test_kernel = \<lparr>
     k_ioctl = (\<lambda>f nr arg k. (\<lparr>io_ret = - 1, io_errno = 25, io_buf = []\<rparr>, k)),
     k_io_nr = (\<lambda>ty nr. push_bit 8 (ucast ty) OR ucast nr),
     k_open = (\<lambda>path k. (Inr (word_of_nat (3 + k)), Suc k)),
     k_close = (\<lambda>f k. k),
     k_read_link = (\<lambda>path k. (Inr ''/sys/kernel/iommu_groups/3'', k)),
     k_pread = (\<lambda>f n off k. (Inr (replicate n 0), k)),
     k_pwrite = (\<lambda>f bs off k. (Inr (length bs), k)),
     k_dup = (\<lambda>f k. (- 1, k)),
     k_last_errno = (\<lambda>k. 22),
     k_tempfile = (\<lambda>k. (Some ''/tmp/file'', k)),
     k_set_device_attr = (\<lambda>f attr k. (Inr (), k)),
     k_kvm_group = 1, k_kvm_group_add = 1, k_kvm_group_del = 2,
     k_mshv_group = 1, k_mshv_group_add = 1, k_mshv_group_del = 2\<rparr>"

definition test_env :: "nat env" where
  "test_env = \<lparr>env_kernel = test_kernel, env_sys = test_syscall test_kernel,
     env_feat = \<lparr>feat_kvm = True, feat_mshv = False, feat_test = True, overflow_checks = True\<rparr>\<rparr>"

text \<open>\<open>create_vfio_container\<close>\<close>

definition test_container :: VfioContainer where
  "test_container = \<lparr>ct_container = 3, ct_device_fd = None\<rparr>"

definition test_world :: "nat world" where
  "test_world = \<lparr>kst = 1, arcs = (\<lambda>_. None), next_arc = 0, groups = hm_new\<rparr>"

lemma test_env_simps [simp]:
  "env_kernel test_env = test_kernel" "env_sys test_env = test_syscall test_kernel"
  "feat_test (env_feat test_env)" "overflow_checks (env_feat test_env)" "hypervisor test_env"
  by (simp_all add: test_env_def hypervisor_def)

lemma test_kernel_simps [simp]:
  "k_open test_kernel path k = (Inr (word_of_nat (3 + k)), Suc k)"
  "k_close test_kernel f k = k" "k_tempfile test_kernel k = (Some ''/tmp/file'', k)"
  "k_last_errno test_kernel k = 22"
  "k_io_nr test_kernel = (\<lambda>ty nr. push_bit 8 (ucast ty) OR ucast nr)"
  "k_read_link test_kernel path k = (Inr ''/sys/kernel/iommu_groups/3'', k)"
  by (simp_all add: test_kernel_def)

lemma test_syscall_simps [simp]:
  "sys_check_api_version (test_syscall K) = test_check_api_version"
  "sys_check_extension (test_syscall K) = test_check_extension"
  "sys_set_iommu (test_syscall K) = test_set_iommu"
  "sys_map_dma (test_syscall K) = test_map_dma K"
  "sys_unmap_dma (test_syscall K) = test_unmap_dma K"
  "sys_get_group_status (test_syscall K) = test_get_group_status"
  "sys_get_group_device_fd (test_syscall K) = test_get_group_device_fd K"
  "sys_set_group_container (test_syscall K) = test_set_group_container"
  "sys_unset_group_container (test_syscall K) = test_unset_group_container"
  "sys_get_device_info (test_syscall K) = test_get_device_info"
  "sys_set_device_irqs (test_syscall K) = test_set_device_irqs"
  "sys_reset (test_syscall K) = test_reset"
  "sys_get_device_irq_info (test_syscall K) = test_get_device_irq_info"
  "sys_get_device_region_info (test_syscall K) = test_get_device_region_info"
  "sys_get_device_region_info_cap (test_syscall K) = test_get_device_region_info_cap"
  by (simp_all add: test_syscall_def)

section \<open>Regions and interrupts of the test device\<close>

definition test_caps :: "(u16 \<times> VfioRegionInfoCap) list" where
  "test_caps = [(0, MsixMappable), (0, Type \<lparr>cap_type = 5, cap_subtype = 6\<rparr>),
     (0, SparseMmap [\<lparr>area_offset = 4, area_size = 3\<rparr>])]"

definition test_region_1 :: vfio_region_info where
  "test_region_1 = \<lparr>ri_argsz = 88, ri_flags = VFIO_REGION_INFO_FLAG_CAPS, ri_index = 1, ri_cap_offset = 0,
     ri_size = 0x2000, ri_offset = 0x20000\<rparr>"

text \<open>The memory of the second query before and after the call; the second is a chain of capabilities.\<close>

definition test_query :: "u8 list" where
  "test_query = enc_vfio_region_info \<lparr>ri_argsz = 88, ri_flags = 0, ri_index = 1, ri_cap_offset = 0,
     ri_size = 0, ri_offset = 0\<rparr> @ replicate 64 0"

definition test_pre :: "u8 list" where
  "test_pre = enc_vfio_region_info \<lparr>ri_argsz = 88, ri_flags = 0, ri_index = 1, ri_cap_offset = 32,
     ri_size = 0, ri_offset = 0\<rparr>"

lemma test_from_region_info: "from_region_info oc test_region_1 = Ok test_query"
  using from_region_info_eq(1) [of test_region_1 oc] by (simp add: test_region_1_def test_query_def)

lemma numeral_nat_replicate: "replicate (numeral n) x = x # replicate (pred_numeral n) x"
  by (simp add: numeral_eq_Suc)

lemma test_cap_chain_image:
  "test_cap_chain test_query = test_pre @ chain_image 4 32 test_caps @ replicate 8 0"
  by (simp add: test_cap_chain_def test_query_def test_pre_def test_caps_def write_bytes_def byte_eval
      codec_defs const_defs cap_image_def area_image_def numeral_nat_replicate Let_def)

lemma read_region_info:
  "read_u32 8 (enc_vfio_region_info x @ rest) = Some (ri_index x)"
  "read_u32 12 (enc_vfio_region_info x) = Some (ri_cap_offset x)"
  by (simp_all add: enc_vfio_region_info_def)

lemma test_query_reply:
  "test_get_device_region_info_cap d test_query k =
     (Ok (test_pre @ chain_image 4 32 test_caps @ replicate 8 0), k)"
proof -
  have "\<not> fam_too_short size_region_info test_query"
    using from_region_info_long_enough [OF _ test_from_region_info [of True]] by (simp add: test_region_1_def)
  moreover have "read_u32 8 test_query = Some 1" "length test_query = 96"
    by (simp_all add: test_query_def read_region_info ri_codec.length_enc)
  ultimately show ?thesis by (simp add: test_get_device_region_info_cap_def test_cap_chain_image)
qed

lemma length_test_pre [simp]: "length test_pre = 32"
  by (simp add: test_pre_def ri_codec.length_enc)

lemma test_pre_cap_offset: "read_u32 12 test_pre = Some 32"
  by (simp add: test_pre_def read_region_info)

lemma length_test_chain: "length (chain_image 4 32 test_caps) = 56"
  by (simp add: test_caps_def Let_def cap_image_def ch_codec.length_enc)

lemma test_get_region_map:
  "get_region_map oc (test_syscall K) info region test_region_1 k =
     (Ok (region\<lparr>reg_caps := reg_caps region @ map snd test_caps\<rparr>), k)"
  by (rule get_region_map_chain [where mem = test_query and pre = test_pre and stop = 4 and post = "replicate 8 0"])
    (simp_all add: test_from_region_info test_query_reply test_pre_cap_offset length_test_chain,
     simp_all add: test_region_1_def const_defs test_caps_def)

definition test_region :: "u32 \<Rightarrow> VfioRegion res" where
  "test_region i =
     (if i = 1 then Ok \<lparr>reg_flags = VFIO_REGION_INFO_FLAG_CAPS, reg_size = 0x2000, reg_offset = 0x20000,
        reg_caps = map snd test_caps\<rparr>
      else if i < 7 then Ok \<lparr>reg_flags = 0, reg_size = (ucast i + 1) * 0x1000,
        reg_offset = (ucast i + 1) * 0x10000, reg_caps = []\<rparr>
      else Err (VfioDeviceGetRegionInfo EINVAL))"

lemma less_8_cases:
  assumes "i < (8 :: u32)"
  shows "i = 0 \<or> i = 1 \<or> i = 2 \<or> i = 3 \<or> i = 4 \<or> i = 5 \<or> i = 6 \<or> i = 7"
proof -
  have "i \<in> set (u32_range 0 8)" using assms by (simp add: set_u32_range)
  then show ?thesis by (simp add: u32_range_def upt_rec)
qed

lemma test_region_at:
  assumes "i < 8"
  shows "region_at oc (test_syscall K) info i k = (test_region i, k)"
proof (cases "i = 1")
  case True
  then show ?thesis using test_get_region_map [of oc K info _ k]
    by (simp add: region_at_def bind_def test_get_device_region_info_def region_info_request_def
        test_region_1_def test_region_def)
next
  case False
  then show ?thesis using less_8_cases [OF assms]
    by (elim disjE) (simp_all add: region_at_def bind_def test_get_device_region_info_def region_info_request_def
        get_region_map_no_caps test_region_def)
qed

lemma test_region_graceful: "graceful (test_region i)"
  by (simp add: test_region_def)

lemma test_get_regions:
  "vdi_num_regions info \<le> 8 \<Longrightarrow>
   get_regions oc (test_syscall K) info k = (Ok (probed test_region (u32_range 0 (vdi_num_regions info))), k)"
  by (rule get_regions_exact) (auto intro: test_region_at test_region_graceful dest: less_le_trans)

lemmas test_eval = test_defs io_defs const_defs Let_def

definition test_irqs :: "(u32, VfioIrq) hm" where
  "test_irqs = [(0, \<lparr>irq_flags = VFIO_IRQ_INFO_MASKABLE, irq_index = 0, irq_count = 1\<rparr>),
     (1, \<lparr>irq_flags = VFIO_IRQ_INFO_EVENTFD, irq_index = 1, irq_count = 32\<rparr>),
     (2, \<lparr>irq_flags = VFIO_IRQ_INFO_EVENTFD, irq_index = 2, irq_count = 2048\<rparr>)]"

lemma test_get_irqs:
  "vdi_num_irqs info = 3 \<or> vdi_num_irqs info = 4 \<Longrightarrow>
   get_irqs (test_syscall K) info k = (Ok test_irqs, k)"
  by (elim disjE) (simp_all add: get_irqs_def u32_range_def upt_rec irq_info_request_def test_get_device_irq_info_def
      io_defs hm_defs test_irqs_def const_defs Let_def)

text \<open>\<open>test_vfio_device_info\<close>\<close>

lemma test_device_info_eq:
  "get_irqs (test_syscall K) (VfioDeviceInfo_new f create_dev_info_for_test) k = (Ok test_irqs, k)"
  "get_regions oc (test_syscall K) (VfioDeviceInfo_new f create_dev_info_for_test) k =
     (Ok [\<lparr>reg_flags = 0, reg_size = 0x1000, reg_offset = 0x10000, reg_caps = []\<rparr>,
       \<lparr>reg_flags = VFIO_REGION_INFO_FLAG_CAPS, reg_size = 0x2000, reg_offset = 0x20000, reg_caps =
         [MsixMappable, Type \<lparr>cap_type = 5, cap_subtype = 6\<rparr>,
          SparseMmap [\<lparr>area_offset = 4, area_size = 3\<rparr>]]\<rparr>], k)"
proof -
  show "get_irqs (test_syscall K) (VfioDeviceInfo_new f create_dev_info_for_test) k = (Ok test_irqs, k)"
    by (rule test_get_irqs) (simp add: VfioDeviceInfo_new_def create_dev_info_for_test_def)
  show "get_regions oc (test_syscall K) (VfioDeviceInfo_new f create_dev_info_for_test) k =
     (Ok [\<lparr>reg_flags = 0, reg_size = 0x1000, reg_offset = 0x10000, reg_caps = []\<rparr>,
       \<lparr>reg_flags = VFIO_REGION_INFO_FLAG_CAPS, reg_size = 0x2000, reg_offset = 0x20000, reg_caps =
         [MsixMappable, Type \<lparr>cap_type = 5, cap_subtype = 6\<rparr>,
          SparseMmap [\<lparr>area_offset = 4, area_size = 3\<rparr>]]\<rparr>], k)"
    by (subst test_get_regions)
      (simp_all add: VfioDeviceInfo_new_def create_dev_info_for_test_def u32_range_def upt_rec
        probed_def test_region_def test_caps_def)
qed

section \<open>A device\<close>

definition test_device :: VfioDevice where
  "test_device = \<lparr>dev_device = 5, dev_flags = VFIO_DEVICE_FLAGS_PCI,
     dev_regions = probed test_region (u32_range 0 8), dev_irqs = test_irqs,
     dev_group = 0, dev_container = test_container\<rparr>"

definition test_group :: VfioGroup where
  "test_group = \<lparr>grp_id = 3, grp_group = 4\<rparr>"

definition test_world' :: "nat world" where
  "test_world' = \<lparr>kst = 3, arcs = [0 \<mapsto> (test_group, 2)], next_arc = 1, groups = [(3, 0)]\<rparr>"

lemma test_get_group:
  "get_group test_env test_container 3 test_world = (Ok 0, test_world'\<lparr>kst := 2\<rparr>)"
  by (simp add: get_group_def test_world_def test_world'_def test_group_def test_container_def hm_defs on_kernel_def
      VfioGroup_new_def open_group_file_def open_file_def attach_group_def arc_new_def insert_group_def
      arc_clone_def set_iommu_def device_add_group_def io_defs test_defs numeral_2_eq_2)

lemma test_device_name: "device_name ''/tmp/file'' = Ok ''file''"
  by (simp add: device_name_def file_name_def to_str_def)

lemma test_get_device:
  "get_device test_env test_group ''/tmp/file'' 2 =
     (Ok \<lparr>vdi_device = 5, vdi_flags = VFIO_DEVICE_FLAGS_PCI, vdi_num_regions = 8, vdi_num_irqs = 3\<rparr>, 3)"
  by (simp add: get_device_def test_device_name io_defs test_defs const_defs VfioDeviceInfo_new_def)

lemma test_VfioDevice_new:
  "VfioDevice_new test_env ''/tmp/file'' test_container test_world = (Ok test_device, test_world')"
proof -
  have "on_kernel (get_group_id_from_path test_env ''/tmp/file'') test_world = (Ok 3, test_world)"
    by (simp add: on_kernel_def get_group_id_from_path_def test_world_def)
  moreover have "read_device test_env test_container 0
      \<lparr>vdi_device = 5, vdi_flags = VFIO_DEVICE_FLAGS_PCI, vdi_num_regions = 8, vdi_num_irqs = 3\<rparr>
      (test_world'\<lparr>kst := 3\<rparr>) = (Ok test_device, test_world')"
    by (simp add: read_device_def on_kernel_def io_defs test_get_regions test_get_irqs test_device_def test_world'_def)
  moreover have "attempt (on_kernel (get_device test_env test_group ''/tmp/file'')) (test_world'\<lparr>kst := 2\<rparr>) =
      (Ok (Inr \<lparr>vdi_device = 5, vdi_flags = VFIO_DEVICE_FLAGS_PCI, vdi_num_regions = 8, vdi_num_irqs = 3\<rparr>),
       test_world'\<lparr>kst := 3\<rparr>)"
    by (simp add: attempt_def on_kernel_def test_get_device)
  moreover have "arc_get 0 (test_world'\<lparr>kst := 2\<rparr>) = (Ok test_group, test_world'\<lparr>kst := 2\<rparr>)"
    by (simp add: arc_get_def test_world'_def)
  ultimately show ?thesis by (simp add: VfioDevice_new_def bind_def test_get_group)
qed

lemma test_drop_device:
  "drop_device test_env test_device test_world' = (Ok (), \<lparr>kst = 3, arcs = (\<lambda>_. None), next_arc = 1, groups = []\<rparr>)"
  by (simp add: drop_device_def device_drop_def test_device_def test_world'_def test_group_def test_container_def
      put_group_def put_group_locked_def strong_count_def remove_group_def arc_get_def arc_drop_def arc_clone_def
      on_kernel_def close_file_def device_del_group_def io_defs test_defs hm_defs fun_upd_idem)

section \<open>Requests of the test device\<close>

lemma header_long_enough:
  "is_argsz hdr = 20 \<Longrightarrow> \<not> fam_too_short 20 (enc_vfio_irq_set hdr)"
  using irq_set_long_enough [of "[]" hdr] by simp

lemma test_header_request:
  "header_request test_env dev flags index start count err k =
     (if flags = VFIO_IRQ_SET_DATA_EVENTFD OR VFIO_IRQ_SET_ACTION_TRIGGER \<and> index = 0 \<and> count = 0 \<or>
         flags = VFIO_IRQ_SET_DATA_NONE OR VFIO_IRQ_SET_ACTION_TRIGGER \<and> index = 0 \<and> count = 0 \<or>
         flags = VFIO_IRQ_SET_DATA_NONE OR VFIO_IRQ_SET_ACTION_UNMASK \<and> index = 1 \<and> count = 1
      then Err err else Ok (), k)"
  (is "_ = (if ?c1 \<or> ?c2 \<or> ?c3 then _ else _, _)")
  by (cases ?c1; cases ?c2; cases ?c3)
    (simp_all add: header_request_def map_err_def test_set_device_irqs_def header_long_enough is_codec.dec_enc_exact)

lemma test_enable_irq_none:
  assumes "hm_get (dev_irqs dev) idx = Some irq" "irq_count irq \<noteq> 0"
  shows "enable_irq test_env dev idx [] k = (if idx = 0 then Err VfioDeviceEnableIrq else Ok (), k)"
proof -
  obtain pad where pad: "\<not> fam_too_short size_irq_set (enable_request idx [] pad)"
    "enable_irq test_env dev idx [] k = map_err (\<lambda>_. VfioDeviceEnableIrq)
       (test_set_device_irqs (dev_device dev) (enable_request idx [] pad)) k"
    using enable_irq_image [OF assms, of "[]" test_env k] by auto
  then show ?thesis
    by (simp add: map_err_def test_set_device_irqs_def enable_request_def is_codec.dec_enc const_defs)
qed

lemma test_irq_lookup:
  "hm_get test_irqs 0 = Some \<lparr>irq_flags = 2, irq_index = 0, irq_count = 1\<rparr>"
  "hm_get test_irqs 1 = Some \<lparr>irq_flags = 1, irq_index = 1, irq_count = 32\<rparr>"
  "hm_get test_irqs 2 = Some \<lparr>irq_flags = 1, irq_index = 2, irq_count = 2048\<rparr>"
  "hm_get test_irqs 3 = None"
  by (simp_all add: test_irqs_def hm_get_def const_defs)

lemma test_regions_eq:
  "length (dev_regions test_device) = 7"
  "slice_get (dev_regions test_device) (Suc 0) =
     Some \<lparr>reg_flags = VFIO_REGION_INFO_FLAG_CAPS, reg_size = 0x2000, reg_offset = 0x20000,
       reg_caps = map snd test_caps\<rparr>"
  "slice_get (dev_regions test_device) 7 = None"
  by (simp_all add: test_device_def u32_range_def upt_rec probed_def test_region_def slice_get_def)

lemma test_enable_irq_3: "enable_irq test_env test_device 3 [] k = (Err VfioDeviceEnableIrq, k)"
  by (rule enable_irq_reject) (simp add: test_device_def test_irq_lookup)

lemmas test_device_simps = test_regions_eq test_irq_lookup test_enable_irq_3

lemma test_device_irqs [simp]: "dev_irqs test_device = test_irqs"
  by (simp add: test_device_def)

section \<open>Operations of the test device\<close>

text \<open>What each operation of the test device does in the environment of the tests.\<close>

lemma test_device_ops:
  "max_interrupts test_device = 2048"
  "length (dev_regions test_device) = 7"
  "hm_len (dev_irqs test_device) = 3"
  "get_irq_info test_device 3 = None"
  "map_option irq_count (get_irq_info test_device 2) = Some 2048"
  "trigger_irq test_env test_device 3 0 k = (Err VfioDeviceTriggerIrq, k)"
  "trigger_irq test_env test_device 2 2048 k = (Err VfioDeviceTriggerIrq, k)"
  "trigger_irq test_env test_device 2 2047 k = (Ok (), k)"
  "trigger_irq test_env test_device 2 0 k = (Ok (), k)"
  "enable_irq test_env test_device 3 [] k = (Err VfioDeviceEnableIrq, k)"
  "enable_irq test_env test_device 0 [] k = (Err VfioDeviceEnableIrq, k)"
  "enable_irq test_env test_device 1 [] k = (Ok (), k)"
  "disable_irq test_env test_device 3 k = (Err VfioDeviceDisableIrq, k)"
  "disable_irq test_env test_device 0 k = (Err VfioDeviceDisableIrq, k)"
  "disable_irq test_env test_device 1 k = (Ok (), k)"
  "unmask_irq test_env test_device 3 k = (Err VfioDeviceUnmaskIrq, k)"
  "unmask_irq test_env test_device 1 k = (Err VfioDeviceUnmaskIrq, k)"
  "unmask_irq test_env test_device 0 k = (Ok (), k)"
  "enable_msi test_env test_device [] k = (Ok (), k)"
  "disable_msi test_env test_device k = (Ok (), k)"
  "enable_msix test_env test_device [] k = (Ok (), k)"
  "disable_msix test_env test_device k = (Ok (), k)"
  "get_region_flags test_device 1 = VFIO_REGION_INFO_FLAG_CAPS"
  "get_region_flags test_device 7 = 0"
  "get_region_offset test_device 1 = 0x20000"
  "get_region_offset test_device 7 = 0"
  "get_region_size test_device 1 = 0x2000"
  "get_region_size test_device 7 = 0"
  "length (get_region_caps test_device 1) = 3"
  "get_region_caps test_device 7 = []"
  "region_read test_env test_device 7 (replicate 16 0) 0x30000 k = (Ok (replicate 16 0), k)"
  "region_read test_env test_device 1 (replicate 16 0) 0x30000 k = (Ok (replicate 16 0), k)"
  "region_write test_env test_device 7 (replicate 16 0) 0x30000 k = (Ok (), k)"
  "region_write test_env test_device 1 (replicate 16 0) 0x30000 k = (Ok (), k)"
  "reset test_env test_device k = (Ok (), k)"
  by (simp_all add: test_device_simps trigger_irq_eq disable_irq_eq unmask_irq_eq test_header_request
      test_enable_irq_none enable_msi_def enable_msix_def disable_msi_def disable_msix_def
      get_region_flags_def get_region_offset_def get_region_size_def get_region_caps_def
      test_caps_def region_read_def region_write_def region_guard_def add_usize_def
      max_interrupts_def get_irq_info_def throw_def ret_def lift_def bind_def Let_def hm_len_def const_defs)
    (simp_all add: test_irqs_def reset_def test_device_def const_defs ret_def)

end
