(* ===== verification/Kernel_Trace.thy ===== *)
theory Kernel_Trace
  imports Region_Io
begin

text \<open>
  What the kernel sees. A kernel that records the calls made to it, and, with the real version of
  \<open>vfio_syscall\<close> on it, the exact sequence of calls by which a group is attached and given back, and the
  transfers by which a region is read and written.
\<close>

section \<open>A recording kernel\<close>

datatype kcall =
    KIoctl fd u64 ioctl_arg
  | KOpen string
  | KClose fd
  | KReadLink string
  | KPread fd nat u64
  | KPwrite fd "u8 list" u64
  | KDup fd
  | KTempFile
  | KSetAttr fd device_attr

definition record_call :: "kcall \<Rightarrow> ('k \<Rightarrow> 'r \<times> 'k) \<Rightarrow> 'k \<times> kcall list \<Rightarrow> 'r \<times> ('k \<times> kcall list)" where
  "record_call c m s = (case m (fst s) of (r, k') \<Rightarrow> (r, (k', snd s @ [c])))"

definition recorded :: "'k kernel \<Rightarrow> ('k \<times> kcall list) kernel" where
  "recorded K = \<lparr>
     k_ioctl = (\<lambda>f nr arg. record_call (KIoctl f nr arg) (k_ioctl K f nr arg)),
     k_io_nr = k_io_nr K,
     k_open = (\<lambda>path. record_call (KOpen path) (k_open K path)),
     k_close = (\<lambda>f s. (k_close K f (fst s), snd s @ [KClose f])),
     k_read_link = (\<lambda>path. record_call (KReadLink path) (k_read_link K path)),
     k_pread = (\<lambda>f n off. record_call (KPread f n off) (k_pread K f n off)),
     k_pwrite = (\<lambda>f bs off. record_call (KPwrite f bs off) (k_pwrite K f bs off)),
     k_dup = (\<lambda>f. record_call (KDup f) (k_dup K f)),
     k_last_errno = (\<lambda>s. k_last_errno K (fst s)),
     k_tempfile = record_call KTempFile (k_tempfile K),
     k_set_device_attr = (\<lambda>f attr. record_call (KSetAttr f attr) (k_set_device_attr K f attr)),
     k_kvm_group = k_kvm_group K, k_kvm_group_add = k_kvm_group_add K, k_kvm_group_del = k_kvm_group_del K,
     k_mshv_group = k_mshv_group K, k_mshv_group_add = k_mshv_group_add K, k_mshv_group_del = k_mshv_group_del K\<rparr>"

text \<open>The crate on the recording kernel, with the real system calls, outside of tests.\<close>

definition recorded_env :: "'k kernel \<Rightarrow> features \<Rightarrow> ('k \<times> kcall list) env" where
  "recorded_env K F = \<lparr>env_kernel = recorded K, env_sys = real_syscall (recorded K), env_feat = F\<lparr>feat_test := False\<rparr>\<rparr>"

lemma recorded_simps [simp]:
  "k_ioctl (recorded K) f nr arg = record_call (KIoctl f nr arg) (k_ioctl K f nr arg)"
  "k_open (recorded K) path = record_call (KOpen path) (k_open K path)"
  "k_close (recorded K) f s = (k_close K f (fst s), snd s @ [KClose f])"
  "k_pread (recorded K) f n off = record_call (KPread f n off) (k_pread K f n off)"
  "k_pwrite (recorded K) f bs off = record_call (KPwrite f bs off) (k_pwrite K f bs off)"
  "k_set_device_attr (recorded K) f attr = record_call (KSetAttr f attr) (k_set_device_attr K f attr)"
  "k_kvm_group (recorded K) = k_kvm_group K" "k_kvm_group_add (recorded K) = k_kvm_group_add K"
  "k_kvm_group_del (recorded K) = k_kvm_group_del K" "k_mshv_group (recorded K) = k_mshv_group K"
  "k_mshv_group_add (recorded K) = k_mshv_group_add K" "k_mshv_group_del (recorded K) = k_mshv_group_del K"
  by (simp_all add: recorded_def)

lemma recorded_requests [simp]:
  "VFIO_GROUP_GET_STATUS (recorded K) = VFIO_GROUP_GET_STATUS K"
  "VFIO_GROUP_SET_CONTAINER (recorded K) = VFIO_GROUP_SET_CONTAINER K"
  "VFIO_GROUP_UNSET_CONTAINER (recorded K) = VFIO_GROUP_UNSET_CONTAINER K"
  "VFIO_SET_IOMMU (recorded K) = VFIO_SET_IOMMU K"
  "VFIO_IOMMU_MAP_DMA (recorded K) = VFIO_IOMMU_MAP_DMA K"
  by (simp_all add: request_defs recorded_def)

lemma recorded_env_simps [simp]:
  "env_kernel (recorded_env K F) = recorded K" "\<not> feat_test (env_feat (recorded_env K F))"
  "sys_get_group_status (env_sys (recorded_env K F)) = real_get_group_status (recorded K)"
  "sys_set_group_container (env_sys (recorded_env K F)) = real_set_group_container (recorded K)"
  "sys_unset_group_container (env_sys (recorded_env K F)) = real_unset_group_container (recorded K)"
  "sys_set_iommu (env_sys (recorded_env K F)) = real_set_iommu (recorded K)"
  "sys_map_dma (env_sys (recorded_env K F)) = real_map_dma (recorded K)"
  "hypervisor (recorded_env K F) \<longleftrightarrow> feat_kvm F \<or> feat_mshv F"
  by (simp_all add: recorded_env_def real_syscall_def hypervisor_def)

section \<open>The calls a function makes\<close>

text \<open>\<open>calls cs m\<close>: \<open>m\<close> makes the calls \<open>cs\<close>, whatever the kernel answers.\<close>

definition calls :: "kcall list \<Rightarrow> ('k \<times> kcall list, 'a) io \<Rightarrow> bool" where
  "calls cs m \<longleftrightarrow> (\<forall>s. snd (snd (m s)) = snd s @ cs)"

lemma callsD: "calls cs m \<Longrightarrow> m s = (r, s') \<Longrightarrow> snd s' = snd s @ cs"
  unfolding calls_def by (metis snd_conv)

lemma calls_ret: "calls [] (ret a)"
  by (simp add: calls_def ret_def)

lemma real_calls:
  "calls [KIoctl f (VFIO_GROUP_GET_STATUS K) (BufArg (enc_vfio_group_status st))] (real_get_group_status (recorded K) f st)"
  "calls [KIoctl g (VFIO_GROUP_SET_CONTAINER K) (BufArg (le_bytes 4 (unat c)))] (real_set_group_container (recorded K) g c)"
  "calls [KIoctl g (VFIO_GROUP_UNSET_CONTAINER K) (BufArg (le_bytes 4 (unat c)))] (real_unset_group_container (recorded K) g c)"
  "calls [KIoctl c (VFIO_SET_IOMMU K) (ValArg (ucast v))] (real_set_iommu (recorded K) c v)"
  "calls [KIoctl c (VFIO_IOMMU_MAP_DMA K) (BufArg (enc_vfio_iommu_type1_dma_map m))] (real_map_dma (recorded K) c m)"
  by (simp_all add: calls_def real_defs ioctl_struct_def record_call_def split: prod.split)

text \<open>\<open>device_set_group\<close> makes one call on the hypervisor's device, if the container has one.\<close>

fun group_attr :: "'k kernel \<Rightarrow> bool \<Rightarrow> fd \<Rightarrow> VfioDeviceFd \<Rightarrow> kcall" where
  "group_attr K add g (Kvm h) = KSetAttr h \<lparr>attr_flags = 0, attr_group = k_kvm_group K,
     attr_attr = ucast (if add then k_kvm_group_add K else k_kvm_group_del K), attr_group_fd = g\<rparr>"
| "group_attr K add g (Mshv h) = KSetAttr h \<lparr>attr_flags = 0, attr_group = k_mshv_group K,
     attr_attr = ucast (if add then k_mshv_group_add K else k_mshv_group_del K), attr_group_fd = g\<rparr>"

definition attr_calls :: "'k kernel \<Rightarrow> features \<Rightarrow> VfioContainer \<Rightarrow> bool \<Rightarrow> fd \<Rightarrow> kcall list" where
  "attr_calls K F C add g = (if feat_kvm F \<or> feat_mshv F
     then map (group_attr K add g) (case ct_device_fd C of None \<Rightarrow> [] | Some d \<Rightarrow> [d]) else [])"

lemma set_device_attr_calls: "calls [KSetAttr f attr] (set_device_attr (recorded_env K F) f attr)"
  by (simp add: calls_def set_device_attr_def record_call_def split: prod.split sum.split)

lemma device_group_calls:
  assumes "feat_kvm F \<or> feat_mshv F"
  shows "calls (attr_calls K F C True (grp_group g)) (device_add_group (recorded_env K F) C g)"
    "calls (attr_calls K F C False (grp_group g)) (device_del_group (recorded_env K F) C g)"
  using assms by (auto simp: device_add_group_def device_del_group_def device_set_group_def attr_calls_def Let_def
      calls_ret intro: set_device_attr_calls [where K = K and F = F] split: option.split VfioDeviceFd.split)

definition trace :: "('k \<times> kcall list) world \<Rightarrow> kcall list" where
  "trace w = snd (kst w)"

lemma on_kernel_calls: "calls cs m \<Longrightarrow> on_kernel m w = (r, w') \<Longrightarrow> trace w' = trace w @ cs \<and> groups w' = groups w"
  unfolding on_kernel_def trace_def by (auto split: prod.splits dest: callsD)

lemma open_file_Ok:
  "open_file (recorded_env K F) err path s = (Ok f, s') \<Longrightarrow> snd s' = snd s @ [KOpen path]"
  by (auto simp: open_file_def record_call_def split: prod.splits sum.splits)

section \<open>Attaching a group\<close>

definition open_calls :: "'k kernel \<Rightarrow> u32 \<Rightarrow> fd \<Rightarrow> kcall list" where
  "open_calls K gid f = [KOpen (path_join ''/dev/vfio'' (u32_to_string gid)),
     KIoctl f (VFIO_GROUP_GET_STATUS K) (BufArg (enc_vfio_group_status \<lparr>gs_argsz = 8, gs_flags = 0\<rparr>))]"

lemma VfioGroup_new_calls:
  assumes "VfioGroup_new (recorded_env K F) gid s = (Ok g, s')"
  shows "snd s' = snd s @ open_calls K gid (grp_group g)"
proof -
  obtain f s1 r where run: "open_file (recorded_env K F) (\<lambda>e. OpenGroup e (u32_to_string gid))
        (path_join ''/dev/vfio'' (u32_to_string gid)) s = (Ok f, s1)"
      "real_get_group_status (recorded K) f \<lparr>gs_argsz = 8, gs_flags = 0\<rparr> s1 = (r, s')" "grp_group g = f"
    using assms by (auto simp: VfioGroup_new_def open_group_file_def bind_Ok_iff attempt_def attempted_Ok_iff
        split_sum_ex ret_def throw_def close_file_def split: if_splits)
  then show ?thesis using open_file_Ok [OF run(1)] callsD [OF real_calls(1) run(2)] by (simp add: open_calls_def)
qed

definition attach_calls :: "'k kernel \<Rightarrow> features \<Rightarrow> VfioContainer \<Rightarrow> bool \<Rightarrow> fd \<Rightarrow> kcall list" where
  "attach_calls K F C first g =
     [KIoctl g (VFIO_GROUP_SET_CONTAINER K) (BufArg (le_bytes 4 (unat (ct_container C))))] @
     (if first then [KIoctl (ct_container C) (VFIO_SET_IOMMU K) (ValArg (ucast VFIO_TYPE1v2_IOMMU))] else []) @
     attr_calls K F C True g"

lemma fail_not_Ok [simp]:
  "fail_unbound E a e w \<noteq> (Ok b, w')" "fail_bound E C a g e w \<noteq> (Ok b, w')"
  by (simp_all add: fail_unbound_def fail_bound_def bind_Ok_iff throw_def)

lemma attempt_kernel_if:
  assumes "attempt (if b then on_kernel m else ret ()) w = (Ok r, w')" "b \<Longrightarrow> calls cs m"
  shows "trace w' = trace w @ (if b then cs else []) \<and> groups w' = groups w"
proof (cases b)
  case True
  then obtain r' where "on_kernel m w = (r', w')"
    using assms(1) by (auto simp: attempt_def attempted_Ok_iff split: sum.splits)
  then show ?thesis using on_kernel_calls assms(2) True by simp
qed (use assms(1) in \<open>simp add: attempt_def ret_def\<close>)

lemma attach_group_trace:
  assumes "attach_group (recorded_env K F) C gid g w = (Ok a, w')"
  shows "trace w' = trace w @ attach_calls K F C (hm_len (groups w) = 0) (grp_group g)"
proof -
  let ?E = "recorded_env K F"
  define w0 where "w0 = w\<lparr>arcs := (arcs w)(next_arc w \<mapsto> (g, 1)), next_arc := Suc (next_arc w)\<rparr>"
  have w0: "trace w0 = trace w" "groups w0 = groups w" by (simp_all add: w0_def trace_def)
  have new: "arc_new g w = (Ok (next_arc w), w0)" by (simp add: arc_new_def w0_def)
  obtain w1 w2 w3 r1 r2 r3 where run:
    "attempt (if True then on_kernel (real_set_group_container (recorded K) (grp_group g) (ct_container C)) else ret ()) w0 =
       (Ok r1, w1)"
    "attempt (if hm_len (groups w1) = 0 then on_kernel (set_iommu ?E C VFIO_TYPE1v2_IOMMU) else ret ()) w1 = (Ok r2, w2)"
    "attempt (if hypervisor ?E then on_kernel (device_add_group ?E C g) else ret ()) w2 = (Ok r3, w3)"
    "insert_group gid (next_arc w) w3 = (Ok a, w')"
    using assms new by (auto simp: attach_group_def bind_Ok_iff split_sum_ex)
  have iommu: "calls [KIoctl (ct_container C) (VFIO_SET_IOMMU K) (ValArg (ucast VFIO_TYPE1v2_IOMMU))]
      (set_iommu ?E C VFIO_TYPE1v2_IOMMU)"
    using real_calls(4) by (simp add: set_iommu_def)
  have "trace w' = trace w3"
    using run(4) by (auto simp: insert_group_def bind_Ok_iff arc_clone_def trace_def split: option.splits)
  then show ?thesis
    using attempt_kernel_if [OF run(1) real_calls(2)] attempt_kernel_if [OF run(2) iommu]
      attempt_kernel_if [OF run(3) device_group_calls(1)] w0
    by (auto simp: attach_calls_def attr_calls_def)
qed

section \<open>Releasing a group\<close>

text \<open>
  The kernel's answer to a call: whether it is accepted, and the state after it. \<open>until_refused K cs k\<close>
  makes the calls \<open>cs\<close> one after the other up to the first one that is refused: the calls made, whether all
  were accepted, and the state at the end.
\<close>

fun kernel_answer :: "'k kernel \<Rightarrow> kcall \<Rightarrow> 'k \<Rightarrow> bool \<times> 'k" where
  "kernel_answer K (KIoctl f nr arg) k = (case k_ioctl K f nr arg k of (r, k') \<Rightarrow> (\<not> failed r, k'))"
| "kernel_answer K (KOpen path) k = (case k_open K path k of (r, k') \<Rightarrow> (\<not> isl r, k'))"
| "kernel_answer K (KClose f) k = (True, k_close K f k)"
| "kernel_answer K (KReadLink path) k = (case k_read_link K path k of (r, k') \<Rightarrow> (\<not> isl r, k'))"
| "kernel_answer K (KPread f n off) k = (case k_pread K f n off k of (r, k') \<Rightarrow> (\<not> isl r, k'))"
| "kernel_answer K (KPwrite f bs off) k = (case k_pwrite K f bs off k of (r, k') \<Rightarrow> (\<not> isl r, k'))"
| "kernel_answer K (KDup f) k = (case k_dup K f k of (r, k') \<Rightarrow> (0 \<le> sint r, k'))"
| "kernel_answer K KTempFile k = (case k_tempfile K k of (r, k') \<Rightarrow> (r \<noteq> None, k'))"
| "kernel_answer K (KSetAttr f attr) k = (case k_set_device_attr K f attr k of (r, k') \<Rightarrow> (\<not> isl r, k'))"

fun until_refused :: "'k kernel \<Rightarrow> kcall list \<Rightarrow> 'k \<Rightarrow> kcall list \<times> bool \<times> 'k" where
  "until_refused K [] k = ([], True, k)"
| "until_refused K (c # cs) k =
     (case kernel_answer K c k of (ok, k') \<Rightarrow>
        if ok then (case until_refused K cs k' of (t, all, k'') \<Rightarrow> (c # t, all, k'')) else ([c], False, k'))"

lemma until_refused_append:
  "until_refused K (xs @ ys) k =
     (case until_refused K xs k of (t, all, k') \<Rightarrow>
        if all then (case until_refused K ys k' of (t', all', k'') \<Rightarrow> (t @ t', all', k'')) else (t, False, k'))"
  by (induction xs arbitrary: k) (auto split: prod.split)

definition release_calls :: "'k kernel \<Rightarrow> features \<Rightarrow> VfioContainer \<Rightarrow> fd \<Rightarrow> kcall list" where
  "release_calls K F C g = attr_calls K F C False g @
     [KIoctl g (VFIO_GROUP_UNSET_CONTAINER K) (BufArg (le_bytes 4 (unat (ct_container C))))]"

text \<open>The two steps of \<open>put_group\<close>, each with the calls it makes and the answer that decides its result.\<close>

lemma set_device_attr_answered:
  assumes "until_refused K [KSetAttr f attr] (fst (kst w)) = (made, all, k')"
  shows "\<exists>e. attempt (on_kernel (set_device_attr (recorded_env K F) f attr)) w =
    (Ok (if all then Inr () else Inl e), w\<lparr>kst := (k', snd (kst w) @ made)\<rparr>)"
  using assms by (auto simp: set_device_attr_def record_call_def attempt_def on_kernel_def
      split: prod.splits sum.splits if_splits)

lemma del_group_answered:
  assumes "until_refused K (attr_calls K F C False (grp_group g)) (fst (kst w)) = (made, all, k')"
  shows "\<exists>e. attempt (if hypervisor (recorded_env K F) then on_kernel (device_del_group (recorded_env K F) C g) else ret ()) w =
    (Ok (if all then Inr () else Inl e), w\<lparr>kst := (k', snd (kst w) @ made)\<rparr>)"
proof (cases "hypervisor (recorded_env K F)")
  case True
  then have del: "device_del_group (recorded_env K F) C g = device_set_group (recorded_env K F) C g False"
    "attr_calls K F C False (grp_group g) =
      map (group_attr K False (grp_group g)) (case ct_device_fd C of None \<Rightarrow> [] | Some d \<Rightarrow> [d])"
    by (simp_all add: device_del_group_def attr_calls_def)
  show ?thesis
  proof (cases "ct_device_fd C")
    case None
    then show ?thesis using True assms del
      by (auto simp: device_set_group_def attempt_def on_kernel_def ret_def)
  next
    case (Some d)
    then show ?thesis using True assms del set_device_attr_answered [of K _ _ w made all k' F]
      by (cases d) (simp_all add: device_set_group_def Let_def del: until_refused.simps)
  qed
next
  case False
  then have "attr_calls K F C False (grp_group g) = []" by (simp add: attr_calls_def)
  then show ?thesis using assms False by (auto simp: attempt_def ret_def simp del: recorded_env_simps)
qed

lemma unset_container_answered:
  assumes "until_refused K [KIoctl (grp_group g) (VFIO_GROUP_UNSET_CONTAINER K) (BufArg (le_bytes 4 (unat (ct_container C))))]
      (fst (kst w)) = (made, all, k')"
  shows "\<exists>e. attempt (on_kernel (sys_unset_group_container (env_sys (recorded_env K F)) (grp_group g) (ct_container C))) w =
    (Ok (if all then Inr () else Inl e), w\<lparr>kst := (k', snd (kst w) @ made)\<rparr>)"
  using assms by (auto simp: real_unset_group_container_def record_call_def attempt_def on_kernel_def split: prod.splits if_splits)

lemma put_group_locked_answered:
  assumes "hm_get (groups w) (grp_id g) = Some a" "arcs w a = Some (g, 3)"
    "until_refused K (release_calls K F C (grp_group g)) (fst (kst w)) = (made, all, k')"
  defines "w' \<equiv> w\<lparr>kst := (k', snd (kst w) @ made)\<rparr>"
  shows "put_group_locked (recorded_env K F) C a w =
    (Ok (), if all then w'\<lparr>groups := hm_remove (grp_id g) (groups w), arcs := (arcs w)(a \<mapsto> (g, 2))\<rparr> else w')"
proof -
  let ?E = "recorded_env K F"
  let ?unset = "[KIoctl (grp_group g) (VFIO_GROUP_UNSET_CONTAINER K) (BufArg (le_bytes 4 (unat (ct_container C))))]"
  obtain t1 a1 k1 where r1: "until_refused K (attr_calls K F C False (grp_group g)) (fst (kst w)) = (t1, a1, k1)"
    by (metis prod_cases3)
  define w1 where "w1 = w\<lparr>kst := (k1, snd (kst w) @ t1)\<rparr>"
  obtain e1 where s1: "attempt (if hypervisor ?E then on_kernel (device_del_group ?E C g) else ret ()) w =
      (Ok (if a1 then Inr () else Inl e1), w1)" using del_group_answered [OF r1] unfolding w1_def by blast
  obtain t2 a2 k2 where r2: "until_refused K ?unset k1 = (t2, a2, k2)" by (metis prod_cases3)
  then obtain e2 where s2: "attempt (on_kernel (sys_unset_group_container (env_sys ?E) (grp_group g) (ct_container C))) w1 =
      (Ok (if a2 then Inr () else Inl e2), w1\<lparr>kst := (k2, snd (kst w1) @ t2)\<rparr>)"
    using unset_container_answered [of K g C w1 t2 a2 k2 F] by (auto simp: w1_def)
  have answer: "(made, all, k') = (if a1 then (t1 @ t2, a2, k2) else (t1, False, k1))"
    using assms(3) r1 r2 by (cases a1) (simp_all add: release_calls_def until_refused_append del: until_refused.simps)
  have rm: "remove_group ?E (grp_id g) (w1\<lparr>kst := x\<rparr>) =
      (Ok (), w1\<lparr>kst := x, groups := hm_remove (grp_id g) (groups w), arcs := (arcs w)(a \<mapsto> (g, 2))\<rparr>)" for x
    using assms(1,2) by (simp add: remove_group_def arc_drop_def w1_def numeral_eq_Suc)
  have "put_group_locked ?E C a w =
      bind (attempt (if hypervisor ?E then on_kernel (device_del_group ?E C g) else ret ())) (\<lambda>r. case r of
          Inl _ \<Rightarrow> ret ()
        | Inr _ \<Rightarrow>
        bind (attempt (on_kernel (sys_unset_group_container (env_sys ?E) (grp_group g) (ct_container C)))) (\<lambda>r. case r of
          Inl _ \<Rightarrow> ret ()
        | Inr _ \<Rightarrow> remove_group ?E (grp_id g))) w"
    using assms(2) by (simp add: put_group_locked_def strong_count_def arc_get_def bind_def del: recorded_env_simps)
  also have "\<dots> = (Ok (), if all then w'\<lparr>groups := hm_remove (grp_id g) (groups w), arcs := (arcs w)(a \<mapsto> (g, 2))\<rparr> else w')"
    using s1 s2 answer rm
    by (auto simp: bind_def ret_def w'_def w1_def split: if_splits simp del: recorded_env_simps)
  finally show ?thesis .
qed

section \<open>Properties\<close>

text \<open>
  C7: how a group is attached, seen from the kernel. When \<open>get_group\<close> returns a group that was not in
  the table, the kernel has seen exactly these calls, in this order: the group's file is opened, its
  status is queried, it is bound to the container, the IOMMU type of the container is set if this is
  its first group, and the group is added to the hypervisor's device if there is one.
\<close>

theorem attach_on_the_wire:
  assumes "hm_get (groups w) gid = None" "get_group (recorded_env K F) C gid w = (Ok a, w')"
  shows "\<exists>f. trace w' = trace w @
    [KOpen (path_join ''/dev/vfio'' (u32_to_string gid)),
     KIoctl f (VFIO_GROUP_GET_STATUS K) (BufArg (enc_vfio_group_status \<lparr>gs_argsz = 8, gs_flags = 0\<rparr>)),
     KIoctl f (VFIO_GROUP_SET_CONTAINER K) (BufArg (le_bytes 4 (unat (ct_container C))))] @
    (if hm_len (groups w) = 0 then [KIoctl (ct_container C) (VFIO_SET_IOMMU K) (ValArg 3)] else []) @
    attr_calls K F C True f"
proof -
  obtain g w1 where g: "on_kernel (VfioGroup_new (recorded_env K F) gid) w = (Ok g, w1)"
      "attach_group (recorded_env K F) C gid g w1 = (Ok a, w')"
    using assms by (auto simp: get_group_def bind_Ok_iff)
  have "trace w1 = trace w @ open_calls K gid (grp_group g)" "groups w1 = groups w"
    using g(1) by (auto simp: on_kernel_def trace_def split: prod.splits dest: VfioGroup_new_calls)
  then show ?thesis using attach_group_trace [OF g(2)]
    by (intro exI [of _ "grp_group g"]) (simp add: open_calls_def attach_calls_def const_defs)
qed

text \<open>
  C8: how the last device of a group is dropped, seen from the kernel, and decided by its answers. The
  device file is closed, the group is removed from the hypervisor's device, if there is one, and unbound
  from the container, and last its file is closed. These are exactly the calls made if the kernel accepts
  them; the group has then left the table and is no longer allocated. At the first call the kernel refuses
  the sequence stops: no later call is made, and the group stays in the table, with the table's reference
  as its only one. The drop returns in every case.
\<close>

theorem release_on_the_wire:
  assumes "hm_get (groups w) (grp_id g) = Some (dev_group dev)" "arcs w (dev_group dev) = Some (g, 2)"
    "hm_inv (groups w)" "C = dev_container dev" "f = grp_group g"
    "until_refused K ([KClose (dev_device dev)] @ attr_calls K F C False f @
        [KIoctl f (VFIO_GROUP_UNSET_CONTAINER K) (BufArg (le_bytes 4 (unat (ct_container C)))), KClose f])
      (fst (kst w)) = (made, accepted, k')"
  shows "\<exists>w'. drop_device (recorded_env K F) dev w = (Ok (), w') \<and>
    trace w' = trace w @ made \<and> fst (kst w') = k' \<and>
    (if accepted then hm_get (groups w') (grp_id g) = None \<and> arcs w' (dev_group dev) = None
     else groups w' = groups w \<and> arcs w' (dev_group dev) = Some (g, 1))"
proof -
  let ?E = "recorded_env K F" and ?a = "dev_group dev"
  define w0 where "w0 = w\<lparr>kst := k_close (recorded K) (dev_device dev) (kst w), arcs := (arcs w)(?a \<mapsto> (g, 3))\<rparr>"
  have w0: "fst (kst w0) = k_close K (dev_device dev) (fst (kst w))" "trace w0 = trace w @ [KClose (dev_device dev)]"
    "groups w0 = groups w" "arcs w0 = (arcs w)(?a \<mapsto> (g, 3))" by (simp_all add: w0_def trace_def)
  obtain t all k1 where r: "until_refused K (release_calls K F C f) (fst (kst w0)) = (t, all, k1)"
    by (metis prod_cases3)
  define w1 where "w1 = (if all
    then w0\<lparr>kst := (k1, snd (kst w0) @ t), groups := hm_remove (grp_id g) (groups w), arcs := (arcs w0)(?a \<mapsto> (g, 2))\<rparr>
    else w0\<lparr>kst := (k1, snd (kst w0) @ t)\<rparr>)"
  have "put_group_locked ?E C ?a w0 = (Ok (), w1)"
    using put_group_locked_answered [of w0 g ?a K F C t all k1] r assms(1,5) w0(3,4) by (simp add: w1_def)
  moreover have "on_kernel (close_file ?E (dev_device dev)) w = (Ok (), w\<lparr>kst := k_close (recorded K) (dev_device dev) (kst w)\<rparr>)"
    by (simp add: on_kernel_def close_file_def)
  moreover have "arc_clone ?a (w\<lparr>kst := k_close (recorded K) (dev_device dev) (kst w)\<rparr>) = (Ok ?a, w0)"
    using assms(2) by (simp add: arc_clone_def w0_def numeral_eq_Suc)
  ultimately have drop: "drop_device ?E dev w = bind (arc_drop ?E ?a) (\<lambda>_. arc_drop ?E ?a) w1"
    using assms(4) by (simp add: drop_device_def device_drop_def put_group_def bind_def)
  have calls: "[KClose (dev_device dev)] @ attr_calls K F C False f @
        [KIoctl f (VFIO_GROUP_UNSET_CONTAINER K) (BufArg (le_bytes 4 (unat (ct_container C)))), KClose f] =
      [KClose (dev_device dev)] @ (release_calls K F C f @ [KClose f])" by (simp add: release_calls_def)
  have answer: "(made, accepted, k') = (if all then (KClose (dev_device dev) # t @ [KClose f], True, k_close K f k1)
      else (KClose (dev_device dev) # t, False, k1))"
    using assms(6) r w0(1) unfolding calls until_refused_append by (simp split: if_splits)
  show ?thesis
  proof (cases all)
    case True
    then show ?thesis using drop answer w0(2,4) assms(3,5)
      by (simp add: arc_drop_def bind_def trace_def w1_def hm.get_remove)
  next
    case False
    then show ?thesis using drop answer w0(2,3,4)
      by (simp add: arc_drop_def bind_def trace_def w1_def numeral_eq_Suc)
  qed
qed

section \<open>Transfers to and from a region\<close>






end
