(* ===== verification/Witnesses.thy ===== *)
theory Witnesses
  imports Unit_Tests Kernel_Trace
begin

text \<open>
  Concrete instances of the theorems of the other theories that have hypotheses: an environment, a
  kernel and a state in which the hypotheses hold, and what the theorem says there. The environments
  are the one of the unit tests, variants of it in which one system call fails, a kernel with a device
  file that transfers single bytes and is interrupted, and one whose state is an IOMMU table.
\<close>

section \<open>Requests and device information\<close>

lemma request_codes_instance:
  "VFIO_GET_API_VERSION test_kernel = 15204 \<and> VFIO_IOMMU_UNMAP_DMA test_kernel = 15218"
  using request_codes [of test_kernel] by simp

lemma less_4_cases: "i < (4 :: u32) \<Longrightarrow> i = 0 \<or> i = 1 \<or> i = 2 \<or> i = 3"
proof -
  assume "i < 4"
  then have "i \<in> set (u32_range 0 4)" by (simp add: set_u32_range)
  then show ?thesis by (simp add: u32_range_def upt_rec)
qed

definition test_irq_query :: "u32 \<Rightarrow> vfio_irq_info res" where
  "test_irq_query i = fst (test_get_device_irq_info 3 (irq_info_request i) (0 :: nat))"

lemma test_irq_query_graceful: "i < 4 \<Longrightarrow> graceful (test_irq_query i)"
  by (drule less_4_cases) (auto simp: test_irq_query_def test_get_device_irq_info_def irq_info_request_def)

theorem get_irqs_exact_witness:
  "\<exists>irqs. get_irqs (test_syscall test_kernel) (VfioDeviceInfo_new 3 create_dev_info_for_test) 0 = (Ok irqs, 0) \<and>
     map_option irq_count (hm_get irqs 1) = Some 32 \<and> hm_get irqs 3 = None"
proof -
  have "\<exists>irqs. get_irqs (test_syscall test_kernel) (VfioDeviceInfo_new 3 create_dev_info_for_test) 0 = (Ok irqs, 0) \<and>
    hm_inv irqs \<and> (\<forall>i. hm_get irqs i = (if i < vdi_num_irqs (VfioDeviceInfo_new 3 create_dev_info_for_test) then
      (case test_irq_query i of Ok x \<Rightarrow> Some (irq_of i x) | _ \<Rightarrow> None) else None))"
  proof (rule get_irqs_exact)
    fix i :: u32 and k
    assume "i < vdi_num_irqs (VfioDeviceInfo_new 3 create_dev_info_for_test)"
    then have i: "i < 4" by (simp add: VfioDeviceInfo_new_def create_dev_info_for_test_def)
    show "sys_get_device_irq_info (test_syscall test_kernel) (vdi_device (VfioDeviceInfo_new 3 create_dev_info_for_test))
        (irq_info_request i) k = (test_irq_query i, k)"
      using less_4_cases [OF i]
      by (elim disjE) (simp_all add: test_irq_query_def test_get_device_irq_info_def irq_info_request_def VfioDeviceInfo_new_def)
    show "graceful (test_irq_query i)" using i by (rule test_irq_query_graceful)
  qed
  then obtain irqs where "get_irqs (test_syscall test_kernel) (VfioDeviceInfo_new 3 create_dev_info_for_test) 0 = (Ok irqs, 0)"
    "\<forall>i. hm_get irqs i = (if i < 4 then (case test_irq_query i of Ok x \<Rightarrow> Some (irq_of i x) | _ \<Rightarrow> None) else None)"
    by (auto simp: VfioDeviceInfo_new_def create_dev_info_for_test_def)
  then show ?thesis
    by (intro exI [of _ irqs]) (simp add: test_irq_query_def test_get_device_irq_info_def irq_info_request_def irq_of_def)
qed

theorem get_region_map_caps_witness:
  "get_region_map True (test_syscall test_kernel) \<lparr>vdi_device = 3, vdi_flags = 2, vdi_num_regions = 8, vdi_num_irqs = 3\<rparr>
     \<lparr>reg_flags = 8, reg_size = 0x2000, reg_offset = 0x20000, reg_caps = []\<rparr> test_region_1 0 =
   (Ok \<lparr>reg_flags = 8, reg_size = 0x2000, reg_offset = 0x20000, reg_caps = map snd test_caps\<rparr>, 0)"
  using get_region_map_caps [of test_region_1 True test_query "test_syscall test_kernel"
      "\<lparr>vdi_device = 3, vdi_flags = 2, vdi_num_regions = 8, vdi_num_irqs = 3\<rparr>" 0 test_pre 4 test_caps "replicate 8 0" 0
      "\<lparr>reg_flags = 8, reg_size = 0x2000, reg_offset = 0x20000, reg_caps = []\<rparr>",
      OF _ _ test_from_region_info]
  by (simp add: test_query_reply test_pre_cap_offset length_test_chain)
     (simp add: test_region_1_def const_defs test_caps_def)

lemma test_probe_all:
  "(\<And>i. i \<in> set is \<Longrightarrow> i < 8) \<Longrightarrow> probe_all oc (test_syscall K) info is k = (map test_region is, k)"
  by (induction "is") (simp_all add: test_region_at)

theorem get_regions_position_witness:
  "\<exists>regions. get_regions True (test_syscall test_kernel)
      \<lparr>vdi_device = 3, vdi_flags = 2, vdi_num_regions = 8, vdi_num_irqs = 3\<rparr> 0 = (Ok regions, 0) \<and>
     length regions = 7 \<and> map_option reg_offset (slice_get regions 1) = Some 0x20000"
proof -
  let ?info = "\<lparr>vdi_device = 3, vdi_flags = 2, vdi_num_regions = 8, vdi_num_irqs = 3\<rparr>"
  let ?qs = "map test_region (u32_range 0 8)"
  let ?r = "\<lparr>reg_flags = VFIO_REGION_INFO_FLAG_CAPS, reg_size = 0x2000, reg_offset = 0x20000, reg_caps = map snd test_caps\<rparr>"
  have "probe_all True (test_syscall test_kernel) ?info (u32_range 0 8) 0 = (?qs, 0)"
    by (rule test_probe_all) (simp add: set_u32_range)
  then have "probe_all True (test_syscall test_kernel) ?info (u32_range 0 (vdi_num_regions ?info)) 0 = (?qs, 0)" by simp
  from get_regions_position [OF this]
  obtain regions where r: "get_regions True (test_syscall test_kernel) ?info 0 = (Ok regions, 0)"
    "length regions = length (filter readable ?qs)"
    "\<And>i r. i < 8 \<Longrightarrow> ?qs ! i = Ok r \<Longrightarrow> slice_get regions (length (filter readable (take i ?qs))) = Some r"
    by (auto simp: test_region_graceful)
  have "slice_get regions (length (filter readable (take 1 ?qs))) = Some ?r"
    by (rule r(3)) (simp_all add: u32_range_def upt_rec test_region_def)
  moreover have "length (filter readable (take 1 ?qs)) = 1" "length (filter readable ?qs) = 7"
    by (simp_all add: u32_range_def upt_rec readable_def test_region_def)
  ultimately show ?thesis using r(1,2) by auto
qed

section \<open>Groups\<close>

lemma refs_ok_test_world: "refs_ok (\<lambda>_. 0) test_world"
  by (simp add: refs_ok_def test_world_def hm_inv_def hm_defs)

text \<open>One group in the table, with \<open>n\<close> references held outside it.\<close>

definition one_group :: "nat \<Rightarrow> nat \<Rightarrow> nat world" where
  "one_group n k = \<lparr>kst = k, arcs = [0 \<mapsto> (test_group, Suc n)], next_arc = 1, groups = [(3, 0)]\<rparr>"

lemma refs_ok_one_group: "refs_ok ((\<lambda>_. 0)(0 := n)) (one_group n k)"
proof -
  have "arc_ok ((\<lambda>_. 0)(0 := n)) (hm_get [(3, 0)]) a (if a = 0 then Some (test_group, Suc n) else None)" for a
    by (auto simp: test_group_def hm_get_def split: if_splits)
  then show ?thesis by (auto simp: refs_ok_def one_group_def hm_inv_def)
qed

lemma test_world'_one_group: "test_world' = one_group 1 3"
  by (simp add: test_world'_def one_group_def numeral_2_eq_2)

lemma test_get_group_one: "get_group test_env test_container 3 test_world = (Ok 0, one_group 1 2)"
  using test_get_group by (simp add: test_world'_one_group) (simp add: one_group_def)

theorem get_group_acquires_witness:
  "get_group test_env test_container 3 test_world = (Ok 0, one_group 1 2) \<and>
   refs_ok ((\<lambda>_. 0)(0 := 1)) (one_group 1 2) \<and> hm_get (groups (one_group 1 2)) 3 = Some 0"
  using get_group_acquires [OF refs_ok_test_world test_get_group_one] test_get_group_one by simp

definition no_iommu_env :: "nat env" where
  "no_iommu_env = with_iommu (\<lambda>_ _ k. (Err ContainerSetIOMMU, k)) test_env"

lemma with_iommu_iommu [simp]: "sys_set_iommu (env_sys (with_iommu f E)) = f"
  by (simp add: with_iommu_def)

lemma no_iommu_get_group:
  "get_group no_iommu_env test_container 3 test_world =
     (Err ContainerSetIOMMU, test_world\<lparr>kst := 2, next_arc := 1\<rparr>)"
  by (simp add: no_iommu_env_def get_group_def test_world_def test_container_def hm_defs on_kernel_def
      with_iommu_group_ops VfioGroup_new_def open_group_file_def open_file_def attach_group_def arc_new_def
      fail_bound_def arc_drop_def set_iommu_def io_defs test_defs fun_upd_idem numeral_2_eq_2)

theorem get_group_failure_restores_witness:
  "\<exists>w'. get_group no_iommu_env test_container 3 test_world = (Err ContainerSetIOMMU, w') \<and>
     refs_ok (\<lambda>_. 0) w' \<and> groups w' = groups test_world"
  using get_group_failure_restores [OF refs_ok_test_world no_iommu_get_group] no_iommu_get_group by blast

lemma test_contract: "vfio_syscalls (env_sys test_env)"
  by (simp add: test.vfio_syscalls_axioms)

section \<open>The container\<close>

text \<open>The real module on the test kernel, whose \<open>ioctl\<close> always fails.\<close>

definition real_env :: "nat env" where
  "real_env = \<lparr>env_kernel = test_kernel, env_sys = real_syscall test_kernel,
     env_feat = \<lparr>feat_kvm = True, feat_mshv = False, feat_test = False, overflow_checks = False\<rparr>\<rparr>"

lemma real_env_simps [simp]: "env_kernel real_env = test_kernel" "\<not> feat_test (env_feat real_env)"
  by (simp_all add: real_env_def)

lemma real_env_api_version: "sys_check_api_version (env_sys real_env) f k = (Ok (- 1), k)"
  by (simp add: real_env_def real_syscall_def real_check_api_version_def test_kernel_def)

lemma real_container_new: "VfioContainer_new real_env None 0 = (Err VfioApiVersion, 1)"
  by (simp add: VfioContainer_new_def open_file_def check_api_version_def real_env_api_version io_defs Let_def
      close_file_def const_defs)

theorem container_new_closes_file_witness:
  "VfioContainer_new real_env None 0 = (Err VfioApiVersion, k_close (env_kernel real_env) 3 1)"
proof -
  have "vfio_syscalls (env_sys real_env)" using real.vfio_syscalls_axioms by (simp add: real_env_def)
  moreover have "k_open (env_kernel real_env) ''/dev/vfio/vfio'' 0 = (Inr 3, 1)" by (simp add: real_env_def)
  ultimately show ?thesis
    using container_new_closes_file [OF _ _ real_container_new] real_container_new real_env_api_version
    by fastforce
qed

section \<open>Devices\<close>

theorem new_drop_balanced_witness:
  "\<exists>w2. drop_device test_env test_device test_world' = (Ok (), w2) \<and> refs_ok (\<lambda>_. 0) w2"
  by (rule new_drop_balanced [OF test_contract refs_ok_test_world test_VfioDevice_new])

theorem drop_last_device_releases_group_witness:
  "\<exists>w'. drop_device test_env test_device test_world' = (Ok (), w') \<and> hm_get (groups w') 3 = None \<and>
     arcs w' 0 = None \<and> kst w' = 3"
proof -
  have "dev_group test_device = 0" "hm_get (groups (one_group 1 3)) (grp_id test_group) = Some 0"
    "arcs (one_group 1 3) 0 = Some (test_group, 2)"
    by (simp_all add: test_device_def one_group_def test_group_def hm_get_def)
  then have "\<exists>w'. drop_device test_env test_device (one_group 1 3) = (Ok (), w') \<and>
      hm_get (groups w') = (hm_get (groups (one_group 1 3)))(grp_id test_group := None) \<and> arcs w' 0 = None \<and>
      kst w' = k_close (env_kernel test_env) (grp_group test_group) 3"
    by (rule drop_last_device_releases_group [OF refs_ok_one_group])
      (simp_all add: test_device_def one_group_def test_group_def test_container_def device_del_group_def ret_def test_defs)
  then show ?thesis by (auto simp: test_group_def test_world'_one_group)
qed

text \<open>A device that is not a PCI device.\<close>

definition no_pci_env :: "nat env" where
  "no_pci_env = test_env\<lparr>env_sys := (test_syscall test_kernel)\<lparr>sys_get_device_info := (\<lambda>_ info k. (Ok info, k))\<rparr>\<rparr>"

lemma no_pci_env_simps [simp]:
  "env_kernel no_pci_env = test_kernel" "env_feat no_pci_env = env_feat test_env"
  "sys_get_group_status (env_sys no_pci_env) = test_get_group_status"
  "sys_set_group_container (env_sys no_pci_env) = test_set_group_container"
  "sys_set_iommu (env_sys no_pci_env) = test_set_iommu"
  "sys_get_group_device_fd (env_sys no_pci_env) = test_get_group_device_fd test_kernel"
  "sys_get_device_info (env_sys no_pci_env) = (\<lambda>_ info k. (Ok info, k))"
  by (simp_all add: no_pci_env_def)

lemma no_pci_get_group: "get_group no_pci_env test_container 3 test_world = (Ok 0, one_group 1 2)"
  by (simp add: get_group_def test_world_def one_group_def test_group_def test_container_def hm_defs on_kernel_def
      VfioGroup_new_def open_group_file_def open_file_def attach_group_def arc_new_def insert_group_def
      arc_clone_def set_iommu_def device_add_group_def io_defs test_defs hypervisor_def)

lemma no_pci_get_device: "get_device no_pci_env test_group ''/tmp/file'' 2 = (Err VfioDeviceGetInfo, 3)"
  by (simp add: get_device_def test_device_name io_defs test_defs const_defs close_file_def)

theorem failed_new_keeps_group_witness:
  "\<exists>w'. VfioDevice_new no_pci_env ''/tmp/file'' test_container test_world = (Err VfioDeviceGetInfo, w') \<and>
     hm_get (groups w') 3 = Some 0 \<and> strong_count 0 w' = 1"
  using failed_new_keeps_group [OF refs_ok_test_world, of no_pci_env "''/tmp/file''" 3 1 test_container 0
      "one_group 1 2" test_group VfioDeviceGetInfo 3] no_pci_get_group no_pci_get_device
  by (auto simp: get_group_id_from_path_def test_world_def hm_defs one_group_def numeral_2_eq_2)

lemma u32_to_string_3: "u32_to_string 3 = ''3''"
  by code_simp

theorem group_id_from_link_witness:
  "get_group_id_from_path real_env ''/sys/bus/pci/devices/0000:00:02.0'' 0 = (Ok 3, 0)"
proof (rule group_id_from_link)
  show "k_read_link (env_kernel real_env) (path_join ''/sys/bus/pci/devices/0000:00:02.0'' ''iommu_group'') 0 =
      (Inr (path_join ''/sys/kernel/iommu_groups'' (u32_to_string 3)), 0)"
    by (simp add: path_join_def u32_to_string_3)
qed simp

section \<open>Interrupts\<close>

theorem irq_operations_errors_witness:
  "only_err (\<lambda>e. e = VfioDeviceEnableIrq) (enable_irq test_env test_device 1 [7, 8]) \<and>
   only_err (\<lambda>e. e = VfioDeviceUnmaskIrq) (unmask_irq test_env test_device 0)"
  using irq_operations_errors [OF test_contract, of "[7, 8]" test_device 1 0]
    irq_operations_errors [OF test_contract, of "[7, 8]" test_device 0 0] by simp

section \<open>Regions\<close>

text \<open>
  A kernel with a device file that transfers one byte per call; the first calls are interrupted, as
  often as the first component of the state says.
\<close>

definition byte_kernel :: "(nat \<times> (u64 \<Rightarrow> u8)) kernel" where
  "byte_kernel = \<lparr>
     k_ioctl = (\<lambda>f nr arg k. (\<lparr>io_ret = - 1, io_errno = 25, io_buf = []\<rparr>, k)),
     k_io_nr = (\<lambda>ty nr. 0),
     k_open = (\<lambda>path k. (Inr 3, k)),
     k_close = (\<lambda>f k. k),
     k_read_link = (\<lambda>path k. (Inl 2, k)),
     k_pread = (\<lambda>f n off (p, m). if 0 < p then (Inl EINTR, (p - 1, m)) else (Inr [m off], (p, m))),
     k_pwrite = (\<lambda>f bs off (p, m). if 0 < p then (Inl EINTR, (p - 1, m)) else (Inr 1, (p, m(off := hd bs)))),
     k_dup = (\<lambda>f k. (- 1, k)),
     k_last_errno = (\<lambda>k. 0),
     k_tempfile = (\<lambda>k. (None, k)),
     k_set_device_attr = (\<lambda>f attr k. (Inr (), k)),
     k_kvm_group = 1, k_kvm_group_add = 1, k_kvm_group_del = 2,
     k_mshv_group = 1, k_mshv_group_add = 1, k_mshv_group_del = 2\<rparr>"

definition byte_env :: "bool \<Rightarrow> (nat \<times> (u64 \<Rightarrow> u8)) env" where
  "byte_env oc = \<lparr>env_kernel = byte_kernel, env_sys = real_syscall byte_kernel,
     env_feat = \<lparr>feat_kvm = False, feat_mshv = False, feat_test = False, overflow_checks = oc\<rparr>\<rparr>"

definition byte_region :: VfioRegion where
  "byte_region = \<lparr>reg_flags = VFIO_REGION_INFO_FLAG_WRITE, reg_size = 16, reg_offset = 0x100, reg_caps = []\<rparr>"

definition byte_device :: VfioDevice where
  "byte_device = test_device\<lparr>dev_device := 5, dev_regions := [byte_region]\<rparr>"

lemma byte_device_region: "slice_get (dev_regions byte_device) (unat (0 :: u32)) = Some byte_region"
  by (simp add: byte_device_def slice_get_def)

lemma byte_pread_law: "pread_law byte_kernel f lo hi snd fst"
  by (auto simp: pread_law_def byte_kernel_def load_def split: if_splits sum.splits)

lemma byte_pwrite_law: "pwrite_law byte_kernel f lo hi snd fst"
  by (auto simp: pwrite_law_def byte_kernel_def take_Suc Suc_le_eq split: if_splits sum.splits)

lemma byte_env_simps [simp]: "env_kernel (byte_env oc) = byte_kernel" "overflow_checks (env_feat (byte_env oc)) = oc"
  by (simp_all add: byte_env_def)

lemma byte_region_wf: "in_region byte_region 4 3" "unat (reg_offset byte_region) + unat (reg_size byte_region) < 2 ^ 64"
  "reg_flags byte_region AND VFIO_REGION_INFO_FLAG_WRITE \<noteq> 0"
  by (simp_all add: in_region_def byte_region_def const_defs)

theorem region_read_correct_witness:
  "\<exists>k'. region_read (byte_env True) byte_device 0 [0, 0, 0] 4 (2, \<lambda>x. ucast (x - 0x100)) = (Ok [4, 5, 6], k')"
proof -
  have "in_region byte_region 4 (length [0, 0, 0 :: u8])" using byte_region_wf(1) by (simp add: numeral_3_eq_3)
  from region_read_correct [OF byte_device_region this byte_region_wf(2), of "byte_env True" snd fst
      "(2, \<lambda>x. ucast (x - 0x100))"]
  show ?thesis using byte_pread_law by (simp add: byte_region_def upt_rec) blast
qed

theorem region_write_correct_witness:
  "\<exists>k'. region_write (byte_env True) byte_device 0 [7, 8, 9] 4 (2, \<lambda>x. 0) = (Ok (), k') \<and>
     map (snd k') [0x104, 0x105, 0x106] = [7, 8, 9]"
proof -
  have "in_region byte_region 4 (length [7, 8, 9 :: u8])" using byte_region_wf(1) by (simp add: numeral_3_eq_3)
  from region_write_correct [OF byte_device_region this byte_region_wf(2,3), of "byte_env True" snd fst "(2, \<lambda>x. 0)"]
  show ?thesis using byte_pwrite_law by (simp add: byte_region_def upt_rec) blast
qed

theorem region_access_rejected_witness:
  "region_read (byte_env True) byte_device 0 [0, 0] 15 (0, \<lambda>_. 0) = (Ok [0, 0], (0, \<lambda>_. 0)) \<and>
   region_write (byte_env True) byte_device 1 [0, 0] 0 (0, \<lambda>_. 0) = (Ok (), (0, \<lambda>_. 0)) \<and>
   region_write (byte_env True) byte_device 0 [0, 0] 0xffffffffffffffff (0, \<lambda>_. 0) =
     (Panic ''attempt to add with overflow'', (0, \<lambda>_. 0))"
  using region_access_rejected [where buf = "[0, 0]" and dev = byte_device and index = 0 and E = "byte_env True"
      and addr = 15 and k = "(0, \<lambda>_. 0)"]
    region_access_rejected [where buf = "[0, 0]" and dev = byte_device and index = 1 and E = "byte_env True"
      and addr = 0 and k = "(0, \<lambda>_. 0)"]
    region_access_rejected [where buf = "[0, 0]" and dev = byte_device and index = 0 and E = "byte_env True"
      and addr = "0xffffffffffffffff" and k = "(0, \<lambda>_. 0)"]
  by (simp add: byte_device_def slice_get_def byte_region_def in_region_def guard_wraps_def isize_max_def)



section \<open>DMA mappings\<close>




definition refused :: "io_error \<Rightarrow> ioctl_result" where
  "refused e = \<lparr>io_ret = - 1, io_errno = e, io_buf = []\<rparr>"













section \<open>Lifecycle\<close>

lemma test_open_in_group:
  "open_in_group test_env test_container ''/tmp/file'' 0 (one_group n k) =
     (Ok (test_device\<lparr>dev_device := word_of_nat (3 + k)\<rparr>), one_group n (Suc k))"
proof -
  have "get_device test_env test_group ''/tmp/file'' k =
     (Ok \<lparr>vdi_device = word_of_nat (3 + k), vdi_flags = VFIO_DEVICE_FLAGS_PCI, vdi_num_regions = 8, vdi_num_irqs = 3\<rparr>, Suc k)"
    by (simp add: get_device_def test_device_name io_defs test_defs const_defs VfioDeviceInfo_new_def)
  then show ?thesis
    by (simp add: open_in_group_def bind_def attempt_def on_kernel_def arc_get_def one_group_def read_device_def
        test_get_regions test_get_irqs ret_def test_device_def)
qed

lemma test_get_group_again: "get_group test_env test_container 3 (one_group n k) = (Ok 0, one_group (Suc n) k)"
  by (simp add: get_group_def one_group_def hm_get_def arc_clone_def)

abbreviation "device_1 \<equiv> test_device"
abbreviation "device_2 \<equiv> test_device\<lparr>dev_device := 6\<rparr>"

lemma test_opens:
  "(proc_step test_env test_container)\<^sup>*\<^sup>* (Idle, test_world) (Live device_1, one_group 1 3)"
  "(proc_step test_env test_container)\<^sup>*\<^sup>* (Idle, one_group 1 3) (Live device_2, one_group 2 4)"
proof -
  have opened: "(proc_step test_env test_container)\<^sup>*\<^sup>* (Opening 0, one_group n k)
      (Live (test_device\<lparr>dev_device := word_of_nat (3 + k)\<rparr>), one_group n (Suc k))" for n k
    using open_in_group_steps [OF test_open_in_group [of n k]] by (auto simp: one_group_def)
  show "(proc_step test_env test_container)\<^sup>*\<^sup>* (Idle, test_world) (Live device_1, one_group 1 3)"
    using proc_step.acquire [OF test_get_group_one] opened [of 1 2]
    by (simp add: test_device_def converse_rtranclp_into_rtranclp)
  show "(proc_step test_env test_container)\<^sup>*\<^sup>* (Idle, one_group 1 3) (Live device_2, one_group 2 4)"
    using proc_step.acquire [OF test_get_group_again [of 1 3]] opened [of 2 3]
    by (simp add: test_device_def numeral_2_eq_2 converse_rtranclp_into_rtranclp)
qed

lemma reachable_two: "reachable test_env test_container 2 ([Live device_1, Live device_2], one_group 2 4)"
proof -
  have "reachable test_env test_container 2 ([Idle, Idle], test_world)"
    using reachable.init [of test_world test_env test_container 2] by (simp add: test_world_def numeral_2_eq_2)
  moreover have "(step test_env test_container)\<^sup>*\<^sup>* ([Idle, Idle], test_world) ([Live device_1, Idle], one_group 1 3)"
    using process_steps [OF test_opens(1), of 0 "[Idle, Idle]"] by simp
  moreover have "(step test_env test_container)\<^sup>*\<^sup>* ([Live device_1, Idle], one_group 1 3) ([Live device_1, Live device_2], one_group 2 4)"
    using process_steps [OF test_opens(2), of 1 "[Live device_1, Idle]"] by simp
  ultimately show ?thesis using reachable_steps by blast
qed

theorem reference_counts_exact_witness:
  "refs_ok (held [Live device_1, Live device_2]) (one_group 2 4) \<and> held [Live device_1, Live device_2] 0 = 2"
  using reference_counts_exact [OF reachable_two] by (simp add: held_def test_device_def)

theorem used_group_stays_attached_witness:
  "\<exists>g m. arcs (one_group 2 4) 0 = Some (g, m) \<and> hm_get (groups (one_group 2 4)) (grp_id g) = Some 0"
  using used_group_stays_attached [OF reachable_two, of 1 0] by (simp add: test_device_def)

theorem device_drop_completes_witness:
  "\<exists>w'. (step test_env test_container)\<^sup>*\<^sup>* ([Live device_1, Live device_2], one_group 2 4) ([Gone, Live device_2], w')"
  using device_drop_completes [OF test_contract reachable_two, of 0 device_1] by simp

theorem concurrent_drops_keep_group_witness:
  "\<exists>w'. (step test_env test_container)\<^sup>*\<^sup>* ([Live device_1, Live device_2], one_group 2 4) ([Gone, Gone], w') \<and>
     listed w' 0 \<and> strong_count 0 w' = 1"
  by (rule concurrent_drops_keep_group [OF reachable_two]) (simp_all add: test_device_def)

section \<open>The calls the kernel sees\<close>

text \<open>A kernel that accepts every request and reports a viable group.\<close>

definition viable_kernel :: "nat kernel" where
  "viable_kernel = test_kernel\<lparr>k_ioctl :=
     (\<lambda>f nr arg k. (\<lparr>io_ret = 0, io_errno = 0, io_buf = enc_vfio_group_status \<lparr>gs_argsz = 8, gs_flags = 1\<rparr>\<rparr>, k))\<rparr>"

definition kvm_features :: features where
  "kvm_features = \<lparr>feat_kvm = True, feat_mshv = False, feat_test = False, overflow_checks = True\<rparr>"

definition kvm_container :: VfioContainer where
  "kvm_container = \<lparr>ct_container = 3, ct_device_fd = Some (Kvm 9)\<rparr>"

definition kvm_world :: "(nat \<times> kcall list) world" where
  "kvm_world = \<lparr>kst = (1, []), arcs = (\<lambda>_. None), next_arc = 0, groups = hm_new\<rparr>"

definition kvm_group_world :: "(nat \<times> kcall list) world" where
  "kvm_group_world = \<lparr>kst = (2, []), arcs = [0 \<mapsto> (test_group, 2)], next_arc = 1, groups = [(3, 0)]\<rparr>"

lemma viable_kernel_simps [simp]:
  "k_ioctl viable_kernel f nr arg k = (\<lparr>io_ret = 0, io_errno = 0, io_buf = enc_vfio_group_status \<lparr>gs_argsz = 8, gs_flags = 1\<rparr>\<rparr>, k)"
  "k_open viable_kernel path k = (Inr (word_of_nat (3 + k)), Suc k)" "k_close viable_kernel f k = k"
  "k_set_device_attr viable_kernel f attr k = (Inr (), k)"
  by (simp_all add: viable_kernel_def) (simp add: test_kernel_def)

lemmas viable_eval = record_call_def io_defs hm_defs on_kernel_def real_set_group_container_def real_unset_group_container_def
  real_set_iommu_def kvm_container_def kvm_features_def

lemma kvm_status:
  "real_get_group_status (recorded viable_kernel) f \<lparr>gs_argsz = 8, gs_flags = 0\<rparr> s =
     (Ok \<lparr>gs_argsz = 8, gs_flags = 1\<rparr>, (fst s, snd s @ [KIoctl f (VFIO_GROUP_GET_STATUS viable_kernel)
       (BufArg (enc_vfio_group_status \<lparr>gs_argsz = 8, gs_flags = 0\<rparr>))]))"
  by (simp add: real_get_group_status_def ioctl_struct_def record_call_def gs_codec.length_enc gs_codec.dec_enc_exact)

lemma kvm_get_group:
  "\<exists>w'. get_group (recorded_env viable_kernel kvm_features) kvm_container 3 kvm_world = (Ok 0, w')"
  by (simp add: get_group_def kvm_world_def VfioGroup_new_def open_group_file_def open_file_def attach_group_def
      arc_new_def insert_group_def arc_clone_def set_iommu_def device_add_group_def device_set_group_def
      set_device_attr_def kvm_status viable_eval const_defs)

theorem attach_on_the_wire_witness:
  "\<exists>w' f. get_group (recorded_env viable_kernel kvm_features) kvm_container 3 kvm_world = (Ok 0, w') \<and>
     trace w' =
      [KOpen (path_join ''/dev/vfio'' (u32_to_string 3)),
       KIoctl f (VFIO_GROUP_GET_STATUS viable_kernel) (BufArg (enc_vfio_group_status \<lparr>gs_argsz = 8, gs_flags = 0\<rparr>)),
       KIoctl f (VFIO_GROUP_SET_CONTAINER viable_kernel) (BufArg (le_bytes 4 3)),
       KIoctl 3 (VFIO_SET_IOMMU viable_kernel) (ValArg 3),
       KSetAttr 9 \<lparr>attr_flags = 0, attr_group = 1, attr_attr = 1, attr_group_fd = f\<rparr>]"
proof -
  obtain w' where w': "get_group (recorded_env viable_kernel kvm_features) kvm_container 3 kvm_world = (Ok 0, w')"
    using kvm_get_group by blast
  have "hm_get (groups kvm_world) 3 = None" by (simp add: kvm_world_def hm_defs)
  from attach_on_the_wire [OF this w'] w' show ?thesis
    by (auto simp: kvm_world_def hm_defs attr_calls_def kvm_container_def kvm_features_def trace_def viable_kernel_def test_kernel_def)
qed

text \<open>The last device of the group, first on this kernel, then on one that refuses every request.\<close>

definition refusing_kernel :: "nat kernel" where
  "refusing_kernel = viable_kernel\<lparr>k_ioctl := (\<lambda>f nr arg k. (refused 16, k))\<rparr>"

abbreviation "kvm_device \<equiv> test_device\<lparr>dev_container := kvm_container\<rparr>"

theorem release_on_the_wire_witness:
  "(\<exists>w'. drop_device (recorded_env viable_kernel kvm_features) kvm_device kvm_group_world = (Ok (), w') \<and>
      trace w' = [KClose 5, KSetAttr 9 \<lparr>attr_flags = 0, attr_group = 1, attr_attr = 2, attr_group_fd = 4\<rparr>,
        KIoctl 4 (VFIO_GROUP_UNSET_CONTAINER viable_kernel) (BufArg (le_bytes 4 3)), KClose 4] \<and>
      hm_get (groups w') 3 = None) \<and>
   (\<exists>w'. drop_device (recorded_env refusing_kernel kvm_features) kvm_device kvm_group_world = (Ok (), w') \<and>
      trace w' = [KClose 5, KSetAttr 9 \<lparr>attr_flags = 0, attr_group = 1, attr_attr = 2, attr_group_fd = 4\<rparr>,
        KIoctl 4 (VFIO_GROUP_UNSET_CONTAINER refusing_kernel) (BufArg (le_bytes 4 3))] \<and>
      groups w' = [(3, 0)] \<and> arcs w' 0 = Some (test_group, 1))"
proof -
  have w: "hm_get (groups kvm_group_world) (grp_id test_group) = Some (dev_group kvm_device)"
    "arcs kvm_group_world (dev_group kvm_device) = Some (test_group, 2)" "hm_inv (groups kvm_group_world)"
    by (simp_all add: kvm_group_world_def test_group_def test_device_def hm_get_def hm_inv_def)
  have grp: "grp_group test_group = 4" "grp_id test_group = 3" "dev_group test_device = 0" "dev_device test_device = 5"
    "ct_container kvm_container = 3" "fst (kst kvm_group_world) = 2" "trace kvm_group_world = []" "groups kvm_group_world = [(3, 0)]"
    by (simp_all add: test_group_def test_device_def kvm_container_def kvm_group_world_def trace_def)
  let ?attr = "KSetAttr 9 \<lparr>attr_flags = 0, attr_group = 1, attr_attr = 2, attr_group_fd = 4\<rparr>"
  have calls: "attr_calls viable_kernel kvm_features kvm_container False 4 = [?attr]"
      "attr_calls refusing_kernel kvm_features kvm_container False 4 = [?attr]"
    by (simp_all add: attr_calls_def kvm_features_def kvm_container_def viable_kernel_def refusing_kernel_def test_kernel_def)
  let ?unset = "\<lambda>K. KIoctl 4 (VFIO_GROUP_UNSET_CONTAINER K) (BufArg (le_bytes 4 3))"
  have accepted: "until_refused viable_kernel ([KClose 5] @ [?attr] @ [?unset viable_kernel, KClose 4]) 2 =
      ([KClose 5, ?attr, ?unset viable_kernel, KClose 4], True, 2)"
    by (simp add: viable_kernel_def test_kernel_def)
  have refused: "until_refused refusing_kernel ([KClose 5] @ [?attr] @ [?unset refusing_kernel, KClose 4]) 2 =
      ([KClose 5, ?attr, ?unset refusing_kernel], False, 2)"
    by (simp add: refusing_kernel_def viable_kernel_def test_kernel_def refused_def)
  let ?release = "\<lambda>K. [KClose (dev_device kvm_device)] @ attr_calls K kvm_features (dev_container kvm_device) False (grp_group test_group) @
    [KIoctl (grp_group test_group) (VFIO_GROUP_UNSET_CONTAINER K)
      (BufArg (le_bytes 4 (unat (ct_container (dev_container kvm_device))))), KClose (grp_group test_group)]"
  have "until_refused viable_kernel (?release viable_kernel) (fst (kst kvm_group_world)) =
      ([KClose 5, ?attr, ?unset viable_kernel, KClose 4], True, 2)"
    using accepted by (simp add: grp calls del: until_refused.simps)
  note 1 = release_on_the_wire [OF w refl refl this]
  have "until_refused refusing_kernel (?release refusing_kernel) (fst (kst kvm_group_world)) =
      ([KClose 5, ?attr, ?unset refusing_kernel], False, 2)"
    using refused by (simp add: grp calls del: until_refused.simps)
  note 2 = release_on_the_wire [OF w refl refl this]
  show ?thesis using 1 2 by (simp add: grp) blast
qed




end
