(* ===== verification/Fam_Wrappers.thy ===== *)
theory Fam_Wrappers
  imports Device_Irq
begin

text \<open>
  \<open>fam_wrappers.rs\<close> of \<open>vfio-bindings\<close>: the type \<open>IrqSet\<close>, a wrapper of \<open>vmm-sys-util\<close> around \<open>vfio_irq_set\<close>
  and its flexible array, and the crate's test that it builds the same memory as a vector with room for
  the array. The wrapper's code is not in the repository: \<open>FamStructWrapper::new\<close> is a parameter \<open>new\<close>,
  and what the crate relies on is the hypothesis \<open>fam_new_law new\<close>.
\<close>

section \<open>The wrapper\<close>

definition MSIX_MAX_VECTORS :: nat where
  "MSIX_MAX_VECTORS = 2048"

text \<open>
  The arguments of \<open>generate_fam_struct_impl!\<close>: the structure, the type of the array's elements, the
  name of the array, the type and the name of the field with its length, and the largest length.
\<close>

record fam_struct_impl =
  fam_struct :: ctype
  fam_entry :: ctype
  fam_entries :: string
  fam_len_type :: ctype
  fam_len_field :: string
  fam_max_len :: nat

definition irq_set_fam :: fam_struct_impl where
  "irq_set_fam = \<lparr>fam_struct = vfio_irq_set_ty, fam_entry = Prim 1, fam_entries = ''data'',
     fam_len_type = Prim 4, fam_len_field = ''count'', fam_max_len = MSIX_MAX_VECTORS\<rparr>"

text \<open>
  \<open>FamStructWrapper::new(n)\<close>, as \<open>vmm-sys-util\<close> documents it: an error when \<open>n\<close> exceeds the largest
  length, and otherwise memory for as many whole structures as header and array need, zero except for
  the length field, which is \<open>n\<close>. The memory is what \<open>into_raw\<close> returns.
\<close>

type_synonym fam_new = "fam_struct_impl \<Rightarrow> nat \<Rightarrow> u8 list option"

definition fam_new_law :: "fam_new \<Rightarrow> bool" where
  "fam_new_law new \<longleftrightarrow> (\<forall>F n off sz.
     offset_of (fam_struct F) (fam_len_field F) = Some off \<longrightarrow> size_of (fam_struct F) = sz \<longrightarrow> 0 < sz \<longrightarrow>
     (if fam_max_len F < n then new F n = None
      else \<exists>m. new F n = Some (write_bytes off (le_bytes (size_of (fam_len_type F)) n) (replicate m 0)) \<and>
        sz dvd m \<and> sz + n * size_of (fam_entry F) \<le> m \<and> m < sz + n * size_of (fam_entry F) + sz))"

section \<open>The two constructions of the test\<close>

text \<open>
  The fields of the request header, as the test assigns them in the wrapper and in the first element of the
  vector; the sum is computed in \<open>u32\<close>. The test has the index 1 and six descriptors; here both are arguments.
\<close>

definition irqset_fam_header :: "bool \<Rightarrow> u32 \<Rightarrow> fd list \<Rightarrow> vfio_irq_set res" where
  "irqset_fam_header oc idx event_fds =
     res_bind (add_usize oc (word_of_nat size_irq_set :: u32) (word_of_nat (length event_fds * 4))) (\<lambda>argsz.
     Ok \<lparr>is_argsz = argsz, is_flags = VFIO_IRQ_SET_DATA_EVENTFD OR VFIO_IRQ_SET_ACTION_TRIGGER,
         is_index = idx, is_start = 0, is_count = word_of_nat (length event_fds)\<rparr>)"

definition irqset_vec_header :: "bool \<Rightarrow> u32 \<Rightarrow> fd list \<Rightarrow> vfio_irq_set res" where
  "irqset_vec_header oc idx event_fds =
     res_bind (add_usize oc (word_of_nat size_irq_set :: u32) (word_of_nat (length event_fds * 4))) (\<lambda>argsz.
     Ok \<lparr>is_argsz = argsz, is_flags = VFIO_IRQ_SET_DATA_EVENTFD OR VFIO_IRQ_SET_ACTION_TRIGGER,
         is_index = idx, is_start = 0, is_count = word_of_nat (length event_fds)\<rparr>)"

text \<open>
  With the wrapper. \<open>as_mut_slice\<close> has as many bytes as the length field says; indexing past them
  panics.
\<close>

definition irqset_fam :: "fam_new \<Rightarrow> bool \<Rightarrow> u32 \<Rightarrow> fd list \<Rightarrow> u8 list res" where
  "irqset_fam new oc idx event_fds =
     (case new irq_set_fam (length event_fds * 4) of
        None \<Rightarrow> Panic ''called `Result::unwrap()` on an `Err` value''
      | Some mem \<Rightarrow>
          (case dec_vfio_irq_set mem of
             None \<Rightarrow> UB ''irq_set_wrapper''
           | Some hdr \<Rightarrow>
               if unat (is_count hdr) < length event_fds * 4 then Panic ''range end index out of range''
               else res_bind (irqset_fam_header oc idx event_fds) (\<lambda>hdr'.
                 Ok (write_bytes 0 (enc_vfio_irq_set hdr') (write_fds 0 event_fds mem)))))"

text \<open>
  With the test's own \<open>vec_with_array_field\<close>, whose arithmetic is unchecked; its
  \<open>vec_with_size_in_bytes\<close> is the function of \<open>fam.rs\<close>.
\<close>

definition unchecked_vec_with_array_field ::
  "bool \<Rightarrow> usize \<Rightarrow> 'a \<Rightarrow> usize \<Rightarrow> usize \<Rightarrow> 'a list res" where
  "unchecked_vec_with_array_field oc size_t dflt size_f count =
     res_bind (mul_usize oc count size_f) (\<lambda>element_space.
     res_bind (add_usize oc size_t element_space) (\<lambda>vec_size_bytes.
     vec_with_size_in_bytes oc size_t dflt vec_size_bytes))"

definition irqset_vec :: "bool \<Rightarrow> u32 \<Rightarrow> fd list \<Rightarrow> u8 list res" where
  "irqset_vec oc idx event_fds =
     res_bind (unchecked_vec_with_array_field oc (word_of_nat size_irq_set) (replicate size_irq_set 0) 4
       (word_of_nat (length event_fds))) (\<lambda>v.
     if v = [] then Panic ''index out of bounds''
     else res_bind (irqset_vec_header oc idx event_fds) (\<lambda>hdr.
       if length (concat v) < size_irq_set + length event_fds * 4 then UB ''irq_set.data outside the vector''
       else Ok (write_fds 0 event_fds (write_bytes 0 (enc_vfio_irq_set hdr) (concat v)))))"

text \<open>\<open>PartialEq\<close> for \<open>vfio_irq_set\<close>, and the assertion over the zipped elements.\<close>

definition vfio_irq_set_eq :: "vfio_irq_set \<Rightarrow> vfio_irq_set \<Rightarrow> bool" where
  "vfio_irq_set_eq a b \<longleftrightarrow>
     \<not> (is_argsz a \<noteq> is_argsz b \<or> is_flags a \<noteq> is_flags b \<or> is_index a \<noteq> is_index b \<or>
        is_start a \<noteq> is_start b \<or> is_count a \<noteq> is_count b)"

definition irq_sets :: "u8 list \<Rightarrow> vfio_irq_set list" where
  "irq_sets mem =
     (case as_slice dec_vfio_irq_set size_irq_set (length mem div size_irq_set) mem of
        None \<Rightarrow> [] | Some xs \<Rightarrow> xs)"

definition irqset_fam_test :: "fam_new \<Rightarrow> bool \<Rightarrow> u32 \<Rightarrow> fd list \<Rightarrow> unit res" where
  "irqset_fam_test new oc idx event_fds =
     res_bind (irqset_fam new oc idx event_fds) (\<lambda>irq_set_wrapper.
     res_bind (irqset_vec oc idx event_fds) (\<lambda>irq_set_vec.
     if length (filter (\<lambda>(a, b). vfio_irq_set_eq a b) (zip (irq_sets irq_set_vec) (irq_sets irq_set_wrapper))) =
        length (irq_sets irq_set_vec)
     then Ok () else Panic ''assertion failed''))"

section \<open>Both constructions give the same memory\<close>

lemma irqset_header_eq:
  fixes fds :: "fd list" and idx :: u32
  assumes "length fds < 2 ^ 30 - 5"
  defines "hdr \<equiv> \<lparr>is_argsz = word_of_nat (20 + 4 * length fds),
     is_flags = VFIO_IRQ_SET_DATA_EVENTFD OR VFIO_IRQ_SET_ACTION_TRIGGER,
     is_index = idx, is_start = 0, is_count = word_of_nat (length fds)\<rparr>"
  shows "irqset_fam_header oc idx fds = Ok hdr" "irqset_vec_header oc idx fds = Ok hdr"
proof -
  have "unat (word_of_nat (4 * length fds) :: u32) = 4 * length fds"
    using assms(1) by (intro unat_u32_of_nat) simp
  then show "irqset_fam_header oc idx fds = Ok hdr" "irqset_vec_header oc idx fds = Ok hdr"
    using assms(1) by (simp_all add: hdr_def irqset_fam_header_def irqset_vec_header_def add_usize_def mult.commute
        del: of_nat_mult)
qed

text \<open>The padding that fills the last structure.\<close>

lemma pad_unique:
  assumes "20 dvd n + p" "20 dvd n + q" "p < 20" "q < (20 :: nat)"
  shows "p = q"
proof -
  have "20 dvd q - p" "20 dvd p - q"
    using dvd_diff_nat [OF assms(2,1)] dvd_diff_nat [OF assms(1,2)] by simp_all
  then show ?thesis using assms(3,4) by (cases "p < q") (auto dest: dvd_imp_le)
qed

lemma unchecked_vec_with_array_field_eq:
  assumes "0 < unat size_t" "unat count * unat size_f + 2 * unat size_t \<le> isize_max"
  shows "unchecked_vec_with_array_field oc size_t dflt size_f count = vec_with_array_field oc size_t dflt size_f count"
proof -
  have small: "unat count * unat size_f + unat size_t < 2 ^ 64" using assms by (simp add: isize_max_def)
  then have u: "unat (count * size_f) = unat count * unat size_f" by (simp add: unat_mult_lem [THEN iffD1])
  have "mul_usize oc count size_f = Ok (count * size_f)" "checked_mul count size_f = Some (count * size_f)"
    using small by (simp_all add: mul_usize_def checked_mul_def)
  moreover have "add_usize oc size_t (count * size_f) = Ok (count * size_f + size_t)"
    "checked_add (count * size_f) size_t = Some (count * size_f + size_t)"
    using small u by (simp_all add: add_usize_def checked_add_def add.commute [of size_t] add.commute [of "unat size_t"])
  ultimately show ?thesis by (simp add: unchecked_vec_with_array_field_def vec_with_array_field_def)
qed

lemma write_image:
  assumes "length h = 20" "4 * length fds + 20 \<le> m"
  shows "write_fds 0 fds (write_bytes 0 h (replicate m 0)) =
    h @ concat (map fd_bytes fds) @ replicate (m - 20 - 4 * length fds) 0"
  using write_fds_eq [of h 0 fds "replicate (m - 20) 0"] assms by (simp add: write_bytes_def)

lemma irqset_vec_image:
  assumes "length fds < 2 ^ 30 - 5"
  obtains pad where "irqset_vec oc idx fds = Ok (enable_request idx fds pad)" "pad < 20"
    "20 dvd 4 * length fds + pad"
proof -
  let ?n = "length fds" and ?k = "(length fds * 4 + 20 + 20 - 1) div 20"
  have un: "unat (word_of_nat ?n :: usize) = ?n" using assms by (simp add: unat_u64_of_nat)
  have fits: "unat (word_of_nat ?n :: usize) * unat (4 :: usize) + 2 * unat (20 :: usize) \<le> isize_max"
    using assms by (simp add: un isize_max_def)
  note v = vec_with_array_field_eq [of "20 :: usize", OF _ fits]
  have k: "20 + ?n * 4 \<le> ?k * 20" "?k * 20 < 40 + ?n * 4" using v(2,3) by (simp_all add: un)
  then have nz: "?k \<noteq> 0" by (intro notI) simp
  have "unchecked_vec_with_array_field oc 20 (replicate 20 (0 :: u8)) 4 (word_of_nat ?n) =
      Ok (replicate ?k (replicate 20 0))"
    using unchecked_vec_with_array_field_eq [OF _ fits, of oc "replicate 20 (0 :: u8)"]
      v(1) [of oc "replicate 20 (0 :: u8)"] by (simp add: un)
  then have "irqset_vec oc idx fds = Ok (enable_request idx fds (?k * 20 - 20 - 4 * ?n))"
    using nz k(1) write_image [of _ fds "?k * 20"]
    by (simp add: irqset_vec_def irqset_header_eq [OF assms] concat_replicate_replicate is_codec.length_enc
        enable_request_def)
  moreover have "20 dvd 4 * ?n + (?k * 20 - 20 - 4 * ?n)"
  proof -
    have "4 * ?n + (?k * 20 - 20 - 4 * ?n) = (?k - 1) * 20" using k(1) by (simp add: diff_mult_distrib)
    then show ?thesis by simp
  qed
  ultimately show thesis using that k by simp
qed

text \<open>The memory of a new \<open>IrqSet\<close>.\<close>

lemma irq_set_fam_new:
  assumes "fam_new_law new"
  shows "MSIX_MAX_VECTORS < n \<Longrightarrow> new irq_set_fam n = None"
    and "n \<le> MSIX_MAX_VECTORS \<Longrightarrow> \<exists>m. 20 dvd m \<and> 20 + n \<le> m \<and> m < 40 + n \<and>
      new irq_set_fam n = Some (enc_vfio_irq_set
        \<lparr>is_argsz = 0, is_flags = 0, is_index = 0, is_start = 0, is_count = word_of_nat n\<rparr> @ replicate (m - 20) 0)"
proof -
  have off: "offset_of (fam_struct irq_set_fam) (fam_len_field irq_set_fam) = Some 16"
    by code_simp
  have sz: "size_of (fam_struct irq_set_fam) = 20" "size_of (fam_entry irq_set_fam) = 1"
    "size_of (fam_len_type irq_set_fam) = 4" "fam_max_len irq_set_fam = MSIX_MAX_VECTORS"
    by (simp_all add: irq_set_fam_def)
  note law = assms [unfolded fam_new_law_def, rule_format, OF off sz(1)]
  show "MSIX_MAX_VECTORS < n \<Longrightarrow> new irq_set_fam n = None" using law [of n] by (simp add: sz)
  assume n: "n \<le> MSIX_MAX_VECTORS"
  then obtain m where m: "new irq_set_fam n = Some (write_bytes 16 (le_bytes 4 n) (replicate m 0))"
    "20 dvd m" "20 + n \<le> m" "m < 40 + n"
    using law [of n] by (auto simp: sz)
  have "unat (word_of_nat n :: u32) = n" using n by (intro unat_u32_of_nat) (simp add: MSIX_MAX_VECTORS_def)
  moreover have "replicate 16 (0 :: u8) = le_bytes 4 0 @ le_bytes 4 0 @ le_bytes 4 0 @ le_bytes 4 0"
    by code_simp
  ultimately have "write_bytes 16 (le_bytes 4 n) (replicate m 0) = enc_vfio_irq_set
      \<lparr>is_argsz = 0, is_flags = 0, is_index = 0, is_start = 0, is_count = word_of_nat n\<rparr> @ replicate (m - 20) 0"
    using m(3) by (simp add: write_bytes_def enc_vfio_irq_set_def min_def)
  then show "\<exists>m. 20 dvd m \<and> 20 + n \<le> m \<and> m < 40 + n \<and> new irq_set_fam n = Some (enc_vfio_irq_set
      \<lparr>is_argsz = 0, is_flags = 0, is_index = 0, is_start = 0, is_count = word_of_nat n\<rparr> @ replicate (m - 20) 0)"
    using m by auto
qed

lemma irqset_fam_image:
  assumes "fam_new_law new" "4 * length fds \<le> MSIX_MAX_VECTORS"
  obtains pad where "irqset_fam new oc idx fds = Ok (enable_request idx fds pad)" "pad < 20"
    "20 dvd 4 * length fds + pad"
proof -
  let ?n = "length fds" and ?hdr = "\<lambda>c. \<lparr>is_argsz = 0, is_flags = 0, is_index = 0, is_start = 0, is_count = c\<rparr>"
  have n: "?n \<le> 512" using assms(2) by (simp add: MSIX_MAX_VECTORS_def)
  obtain m where m: "20 dvd m" "20 + ?n * 4 \<le> m" "m < 40 + ?n * 4"
    "new irq_set_fam (?n * 4) = Some (enc_vfio_irq_set (?hdr (word_of_nat (?n * 4))) @ replicate (m - 20) 0)"
    using irq_set_fam_new(2) [OF assms(1), of "?n * 4"] assms(2) by (auto simp: mult.commute)
  have c: "unat (word_of_nat (?n * 4) :: u32) = ?n * 4" using n by (intro unat_u32_of_nat) simp
  have "write_fds 0 fds (enc_vfio_irq_set (?hdr (word_of_nat (?n * 4))) @ replicate (m - 20) 0) =
      enc_vfio_irq_set (?hdr (word_of_nat (?n * 4))) @ concat (map fd_bytes fds) @ replicate (m - 20 - 4 * ?n) 0"
    using write_fds_eq [of "enc_vfio_irq_set (?hdr (word_of_nat (?n * 4)))" 0 fds "replicate (m - 20) 0"] m(2)
    by (simp add: is_codec.length_enc)
  then have "irqset_fam new oc idx fds = Ok (enable_request idx fds (m - 20 - 4 * ?n))"
    using n c by (simp add: irqset_fam_def m(4) is_codec.dec_enc irqset_header_eq write_bytes_def is_codec.length_enc
        enable_request_def del: of_nat_mult)
  moreover have "20 dvd 4 * ?n + (m - 20 - 4 * ?n)"
    using m(1,2) dvd_diff_nat [OF m(1), of 20] by (simp add: mult.commute)
  ultimately show thesis using that m(2,3) by simp
qed

section \<open>Properties\<close>

text \<open>
  C34: the three places that build a request with event descriptors agree byte for byte: the wrapper
  \<open>IrqSet\<close> of the bindings, the vector of its test, and \<open>enable_irq\<close> of \<open>vfio-ioctls\<close>, for every index and every
  list of descriptors the wrapper has room for. The first two do not panic, in either build profile.
\<close>

theorem irqset_constructions_agree:
  assumes "fam_new_law new" "4 * length fds \<le> MSIX_MAX_VECTORS"
    and "hm_get (dev_irqs dev) idx = Some irq" "irq_count irq \<noteq> 0" "length fds \<le> unat (irq_count irq)"
  shows "\<exists>mem. irqset_fam new oc idx fds = Ok mem \<and> irqset_vec oc idx fds = Ok mem \<and>
    enable_irq E dev idx fds k = map_err (\<lambda>_. VfioDeviceEnableIrq)
      (sys_set_device_irqs (env_sys E) (dev_device dev) mem) k"
proof -
  have n: "length fds < 2 ^ 30 - 5" using assms(2) by (simp add: MSIX_MAX_VECTORS_def)
  obtain p where p: "irqset_fam new oc idx fds = Ok (enable_request idx fds p)" "p < 20" "20 dvd 4 * length fds + p"
    using irqset_fam_image [OF assms(1,2)] by blast
  obtain q where q: "irqset_vec oc idx fds = Ok (enable_request idx fds q)" "q < 20" "20 dvd 4 * length fds + q"
    using irqset_vec_image [OF n] by blast
  obtain r where r: "r < 20" "20 dvd 4 * length fds + r" "enable_irq E dev idx fds k =
      map_err (\<lambda>_. VfioDeviceEnableIrq) (sys_set_device_irqs (env_sys E) (dev_device dev) (enable_request idx fds r)) k"
    using enable_irq_image [OF assms(3-5) n, of E k] by blast
  have "p = q" "r = q" using pad_unique p(2,3) q(2,3) r(1,2) by blast+
  then show ?thesis using p(1) q(1) r(3) by auto
qed

text \<open>
  The bound \<open>MSIX_MAX_VECTORS\<close> counts bytes, because the array of the wrapper is an array of bytes: with
  more than 512 descriptors, a quarter of the vectors MSI-X allows, the wrapper cannot be built, while
  \<open>enable_irq\<close> accepts as many descriptors as the device has vectors.
\<close>

lemma irqset_limit_in_bytes:
  assumes "fam_new_law new" "512 < length fds"
  shows "irqset_fam new oc idx fds = Panic ''called `Result::unwrap()` on an `Err` value''"
  using irq_set_fam_new(1) [OF assms(1), of "length fds * 4"] assms(2)
  by (simp add: irqset_fam_def MSIX_MAX_VECTORS_def)

text \<open>The test \<open>irqset_fam_test\<close> passes, for every index and every list of descriptors with room.\<close>

lemma filter_zip_same: "(\<And>x. P (x, x)) \<Longrightarrow> filter P (zip xs xs) = zip xs xs"
  by (induction xs) simp_all

lemma irqset_fam_test_passes:
  assumes "fam_new_law new" "4 * length fds \<le> MSIX_MAX_VECTORS"
  shows "irqset_fam_test new oc idx fds = Ok ()"
proof -
  have n: "length fds < 2 ^ 30 - 5" using assms(2) by (simp add: MSIX_MAX_VECTORS_def)
  obtain p where p: "irqset_fam new oc idx fds = Ok (enable_request idx fds p)" "p < 20" "20 dvd 4 * length fds + p"
    using irqset_fam_image [OF assms] by blast
  obtain q where q: "irqset_vec oc idx fds = Ok (enable_request idx fds q)" "q < 20" "20 dvd 4 * length fds + q"
    using irqset_vec_image [OF n] by blast
  have "p = q" using pad_unique p(2,3) q(2,3) by blast
  then show ?thesis using p(1) q(1) by (simp add: irqset_fam_test_def filter_zip_same vfio_irq_set_eq_def)
qed

text \<open>The law can hold.\<close>

definition fam_new_example :: fam_new where
  "fam_new_example F n =
     (if fam_max_len F < n then None
      else case offset_of (fam_struct F) (fam_len_field F) of
        None \<Rightarrow> None
      | Some off \<Rightarrow>
          let sz = size_of (fam_struct F) in
          Some (write_bytes off (le_bytes (size_of (fam_len_type F)) n)
            (replicate ((n * size_of (fam_entry F) + sz + sz - 1) div sz * sz) 0)))"

lemma fam_new_example_law: "fam_new_law fam_new_example"
proof -
  have "\<exists>m. (sz + n * e + sz - 1) div sz * sz = m \<and> sz dvd m \<and> sz + n * e \<le> m \<and> m < sz + n * e + sz"
    if "0 < sz" for sz n e :: nat
    using div_round_up_ge [OF that, of "sz + n * e"] div_round_up_less [OF that, of "sz + n * e"] by simp
  then show ?thesis
    unfolding fam_new_law_def fam_new_example_def Let_def
    by (auto simp: add.commute [of "_ * _"])
qed

end
