(* ===== verification/Crate_Tests.thy ===== *)
theory Crate_Tests
  imports Unit_Tests Fam_Wrappers
begin

text \<open>
  The unit tests of the two crates as programs over the model: every test function of
  \<open>vfio_device.rs\<close>, \<open>vfio_ioctls.rs\<close>, \<open>fam.rs\<close>, \<open>lib.rs\<close> and \<open>fam_wrappers.rs\<close> is a definition that
  panics where an assertion of the test fails.
\<close>

section \<open>Assertions\<close>

definition assert_that :: "bool \<Rightarrow> ('s, unit) io" where
  "assert_that b = (if b then ret () else lift (Panic ''assertion failed''))"

fun sequence :: "('s, unit) io list \<Rightarrow> ('s, unit) io" where
  "sequence [] = ret ()"
| "sequence (m # ms) = bind m (\<lambda>_. sequence ms)"

definition unwrap :: "('s, 'a) io \<Rightarrow> ('s, 'a) io" where
  "unwrap m = bind (attempt m) (\<lambda>r. case r of Inl _ \<Rightarrow> lift (Panic ''unwrap'') | Inr a \<Rightarrow> ret a)"

definition unwrap_err :: "('s, 'a) io \<Rightarrow> ('s, unit) io" where
  "unwrap_err m = bind (attempt m) (\<lambda>r. case r of Inl _ \<Rightarrow> ret () | Inr _ \<Rightarrow> lift (Panic ''unwrap_err''))"

definition unwrap_option :: "'a option \<Rightarrow> ('s, 'a) io" where
  "unwrap_option x = (case x of None \<Rightarrow> lift (Panic ''unwrap'') | Some a \<Rightarrow> ret a)"

text \<open>Indexing a vector panics past its end.\<close>

definition at_index :: "'a list \<Rightarrow> nat \<Rightarrow> ('s, 'a) io" where
  "at_index xs i = (case slice_get xs i of None \<Rightarrow> lift (Panic ''index out of bounds'') | Some a \<Rightarrow> ret a)"

text \<open>\<open>TempFile::new().unwrap()\<close>, and \<open>File::open(path).unwrap()\<close>.\<close>

definition temp_file :: "'k env \<Rightarrow> ('k, string) io" where
  "temp_file E k = (case k_tempfile (env_kernel E) k of
     (None, k') \<Rightarrow> (Panic ''unwrap'', k') | (Some p, k') \<Rightarrow> (Ok p, k'))"

definition file_open :: "'k env \<Rightarrow> string \<Rightarrow> ('k, fd) io" where
  "file_open E path k = (case k_open (env_kernel E) path k of
     (Inl _, k') \<Rightarrow> (Panic ''unwrap'', k') | (Inr f, k') \<Rightarrow> (Ok f, k'))"

section \<open>Tests of \<open>vfio_device.rs\<close>\<close>

definition test_vfio_region_info_with_cap :: "bool \<Rightarrow> ('s, unit) io" where
  "test_vfio_region_info_with_cap oc =
     bind (lift (from_region_info oc \<lparr>ri_argsz = 129, ri_flags = 0, ri_index = 5, ri_cap_offset = 0,
       ri_size = 0, ri_offset = 0\<rparr>)) (\<lambda>cap.
     bind (unwrap_option (dec_vfio_region_info cap)) (\<lambda>cap0.
     bind (unwrap_option (dec_vfio_region_info (replicate size_region_info 0))) (\<lambda>reg.
     sequence
       [assert_that (size_region_info = 32),
        assert_that (length cap div size_of vfio_region_info_with_cap_ty = 5),
        assert_that (ri_argsz cap0 = 129),
        assert_that (ri_index cap0 = 5),
        assert_that (ri_index reg = 0),
        assert_that (ri_argsz reg = 0)])))"

definition assert_irq :: "(u32, VfioIrq) hm \<Rightarrow> u32 \<Rightarrow> u32 \<Rightarrow> u32 \<Rightarrow> ('s, unit) io" where
  "assert_irq irqs i flags count =
     bind (unwrap_option (hm_get irqs i)) (\<lambda>irq. sequence
       [assert_that (irq_flags irq = flags), assert_that (irq_count irq = count), assert_that (irq_index irq = i)])"

definition test_vfio_device_info :: "'k env \<Rightarrow> ('k, unit) io" where
  "test_vfio_device_info E =
     bind (temp_file E) (\<lambda>tmp_file.
     bind (file_open E tmp_file) (\<lambda>device.
     let device_info = VfioDeviceInfo_new device create_dev_info_for_test in
     bind (unwrap (get_irqs (env_sys E) device_info)) (\<lambda>irqs.
     bind (sequence
       [assert_that (hm_len irqs = 3),
        assert_irq irqs 0 VFIO_IRQ_INFO_MASKABLE 1,
        assert_irq irqs 1 VFIO_IRQ_INFO_EVENTFD 32,
        assert_irq irqs 2 VFIO_IRQ_INFO_EVENTFD 2048]) (\<lambda>_.
     bind (unwrap (get_regions (overflow_checks (env_feat E)) (env_sys E) device_info)) (\<lambda>regions.
     bind (assert_that (length regions = 2)) (\<lambda>_.
     bind (at_index regions 0) (\<lambda>region0.
     bind (at_index regions 1) (\<lambda>region1.
     bind (sequence
       [assert_that (reg_flags region0 = 0),
        assert_that (reg_offset region0 = 0x10000),
        assert_that (reg_size region0 = 0x1000),
        assert_that (length (reg_caps region0) = 0),
        assert_that (reg_flags region1 = VFIO_REGION_INFO_FLAG_CAPS),
        assert_that (reg_offset region1 = 0x20000),
        assert_that (reg_size region1 = 0x2000),
        assert_that (length (reg_caps region1) = 3)]) (\<lambda>_.
     bind (at_index (reg_caps region1) 0) (\<lambda>cap0.
     bind (assert_that (cap0 = MsixMappable)) (\<lambda>_.
     bind (at_index (reg_caps region1) 1) (\<lambda>ty.
     bind (case ty of
         Type t \<Rightarrow> sequence [assert_that (cap_type t = 5), assert_that (cap_subtype t = 6)]
       | _ \<Rightarrow> lift (Panic ''expect VfioRegionInfoCapType'')) (\<lambda>_.
     bind (at_index (reg_caps region1) 2) (\<lambda>mmap.
     (case mmap of
         SparseMmap areas \<Rightarrow>
           bind (assert_that (length areas = 1)) (\<lambda>_.
           bind (at_index areas 0) (\<lambda>a.
           sequence [assert_that (area_size a = 3), assert_that (area_offset a = 4)]))
       | _ \<Rightarrow> lift (Panic ''expect VfioRegionInfoCapType''))))))))))))))))"

definition create_vfio_container :: "'k env \<Rightarrow> ('k, VfioContainer) io" where
  "create_vfio_container E =
     bind (temp_file E) (\<lambda>tmp_file.
     bind (file_open E tmp_file) (\<lambda>container.
     ret \<lparr>ct_container = container, ct_device_fd = None\<rparr>))"

text \<open>The assertions on \<open>Arc::strong_count\<close> and on the length of the table.\<close>

definition assert_count :: "arc \<Rightarrow> nat \<Rightarrow> ('k world, unit) io" where
  "assert_count a n w = assert_that (strong_count a w = n) w"

definition assert_groups :: "nat \<Rightarrow> ('k world, unit) io" where
  "assert_groups n w = assert_that (hm_len (groups w) = n) w"

definition test_vfio_container :: "'k env \<Rightarrow> ('k world, unit) io" where
  "test_vfio_container E =
     bind (on_kernel (create_vfio_container E)) (\<lambda>container.
     bind (sequence
       [assert_that (0 < sint (ct_container container)),
        on_kernel (unwrap (check_api_version E container)),
        on_kernel (unwrap (check_extension E container VFIO_TYPE1v2_IOMMU))]) (\<lambda>_.
     bind (on_kernel (unwrap (VfioGroup_new E 1))) (\<lambda>group.
     bind (sequence
       [on_kernel (unwrap (device_add_group E container group)),
        on_kernel (unwrap (device_del_group E container group))]) (\<lambda>_.
     bind (unwrap (get_group E container 3)) (\<lambda>group.
     bind (sequence [assert_count group 2, assert_groups 1]) (\<lambda>_.
     bind (unwrap (get_group E container 4)) (\<lambda>group2.
     bind (sequence [assert_count group2 2, assert_groups 2]) (\<lambda>_.
     bind (unwrap (get_group E container 3)) (\<lambda>group3.
     bind (assert_count group 3) (\<lambda>_.
     bind (unwrap (get_group E container 3)) (\<lambda>group4.
     sequence
       [assert_count group 4,
        put_group E container group4,
        assert_count group 3,
        put_group E container group3,
        assert_count group 1,
        on_kernel (unwrap (vfio_dma_map E container 0x1000 0x1000 0x8000)),
        on_kernel (unwrap_err (vfio_dma_map E container 0x2000 0x2000 0x8000)),
        on_kernel (unwrap (vfio_dma_unmap E container 0x1000 0x1000)),
        on_kernel (unwrap_err (vfio_dma_unmap E container 0x2000 0x2000))])))))))))))"

definition test_vfio_group :: "'k env \<Rightarrow> ('k, unit) io" where
  "test_vfio_group E =
     bind (unwrap (VfioGroup_new E 1)) (\<lambda>group.
     bind (temp_file E) (\<lambda>tmp_file.
     bind (sequence [assert_that (grp_id group = 1), assert_that (0 \<le> sint (grp_group group))]) (\<lambda>_.
     bind (unwrap (get_device E group tmp_file)) (\<lambda>device.
     bind (sequence [assert_that (vdi_num_irqs device = 3), assert_that (vdi_num_regions device = 8)]) (\<lambda>_.
     bind (unwrap (get_regions (overflow_checks (env_feat E)) (env_sys E) device)) (\<lambda>regions.
     assert_that (length regions = 7)))))))"

definition test_vfio_device :: "'k env \<Rightarrow> ('k world, unit) io" where
  "test_vfio_device E =
     bind (on_kernel (temp_file E)) (\<lambda>tmp_file.
     bind (on_kernel (create_vfio_container E)) (\<lambda>container.
     bind (unwrap (VfioDevice_new E tmp_file container)) (\<lambda>device.
     bind (sequence
       [assert_that (0 < sint (dev_device device)),
        assert_that (max_interrupts device = 2048),
        on_kernel (reset E device),
        assert_that (length (dev_regions device) = 7),
        assert_that (hm_len (dev_irqs device) = 3),
        assert_that (get_irq_info device 3 = None)]) (\<lambda>_.
     bind (unwrap_option (get_irq_info device 2)) (\<lambda>irq.
     bind (sequence
       [assert_that (irq_count irq = 2048),
        on_kernel (unwrap_err (trigger_irq E device 3 0)),
        on_kernel (unwrap_err (trigger_irq E device 2 2048)),
        on_kernel (unwrap (trigger_irq E device 2 2047)),
        on_kernel (unwrap (trigger_irq E device 2 0)),
        on_kernel (unwrap_err (enable_irq E device 3 [])),
        on_kernel (unwrap_err (enable_irq E device 0 [])),
        on_kernel (unwrap (enable_irq E device 1 [])),
        on_kernel (unwrap_err (disable_irq E device 3)),
        on_kernel (unwrap_err (disable_irq E device 0)),
        on_kernel (unwrap (disable_irq E device 1)),
        on_kernel (unwrap_err (unmask_irq E device 3)),
        on_kernel (unwrap_err (unmask_irq E device 1)),
        on_kernel (unwrap (unmask_irq E device 0)),
        on_kernel (unwrap (enable_msi E device [])),
        on_kernel (unwrap (disable_msi E device)),
        on_kernel (unwrap (enable_msix E device [])),
        on_kernel (unwrap (disable_msix E device)),
        assert_that (get_region_flags device 1 = VFIO_REGION_INFO_FLAG_CAPS),
        assert_that (get_region_flags device 7 = 0),
        assert_that (get_region_offset device 1 = 0x20000),
        assert_that (get_region_offset device 7 = 0),
        assert_that (get_region_size device 1 = 0x2000),
        assert_that (get_region_size device 7 = 0),
        assert_that (length (get_region_caps device 1) = 3),
        assert_that (length (get_region_caps device 7) = 0)]) (\<lambda>_.
     bind (on_kernel (region_read E device 7 (replicate 16 0) 0x30000)) (\<lambda>buf.
     bind (on_kernel (region_read E device 1 buf 0x30000)) (\<lambda>buf.
     sequence
       [on_kernel (region_write E device 7 buf 0x30000),
        on_kernel (region_write E device 1 buf 0x30000),
        on_kernel (reset E device),
        drop_device E device,
        assert_groups 0]))))))))"

definition test_vfio_region_info_cap :: "('s, unit) io" where
  "test_vfio_region_info_cap =
     (let v1 = Type \<lparr>cap_type = 1, cap_subtype = 1\<rparr>;
          v2 = Type \<lparr>cap_type = 1, cap_subtype = 2\<rparr>;
          v3 = SparseMmap [\<lparr>area_offset = 3, area_size = 4\<rparr>];
          v4 = SparseMmap [\<lparr>area_offset = 5, area_size = 6\<rparr>];
          v5 = MsixMappable;
          v6 = Nvlink2Lnkspd 7; v7 = Nvlink2Lnkspd 8;
          v8 = Nvlink2Ssatgt 9; v9 = Nvlink2Ssatgt 10
      in sequence
       [assert_that (v1 = v1), assert_that (v1 \<noteq> v2),
        assert_that (v3 = v3), assert_that (v3 \<noteq> v4), assert_that (v1 \<noteq> v4), assert_that (v1 \<noteq> v4),
        assert_that (v5 = v5), assert_that (v5 \<noteq> v1), assert_that (v5 \<noteq> v3), assert_that (v5 \<noteq> v2),
        assert_that (v5 \<noteq> v4),
        assert_that (v6 = v6), assert_that (v6 \<noteq> v7), assert_that (v6 \<noteq> v1), assert_that (v6 \<noteq> v2),
        assert_that (v6 \<noteq> v4),
        assert_that (v8 = v8), assert_that (v8 \<noteq> v9), assert_that (v8 \<noteq> v1), assert_that (v8 \<noteq> v2),
        assert_that (v8 \<noteq> v4), assert_that (v8 \<noteq> v6)])"

text \<open>
  \<open>GuestMemoryMmap::from_ranges\<close> with one range: one region, mapped at an address \<open>host\<close> of the process.
\<close>

definition one_range :: "u64 \<Rightarrow> u64 \<Rightarrow> u64 \<Rightarrow> guest_region list" where
  "one_range host addr len = [\<lparr>gr_start_addr = addr, gr_len = len, gr_host_address = Some host\<rparr>]"

definition test_vfio_map_guest_memory :: "'k env \<Rightarrow> (u64 \<Rightarrow> u64) \<Rightarrow> ('k, unit) io" where
  "test_vfio_map_guest_memory E host =
     (let mem1 = one_range (host 1) 0x1000 0x1000;
          mem2 = one_range (host 2) 0x3000 0x1000;
          mem3 = one_range (host 3) 0x1000 0x2000 in
      bind (create_vfio_container E) (\<lambda>container.
      sequence
        [unwrap (vfio_map_guest_memory E container mem1),
         unwrap_err (vfio_unmap_guest_memory E container mem2),
         unwrap_err (vfio_unmap_guest_memory E container mem3),
         unwrap (vfio_unmap_guest_memory E container mem1)]))"

section \<open>Tests of the other files\<close>

text \<open>\<open>fam.rs\<close>: \<open>Header\<close> has two \<open>u32\<close> fields, \<open>Field\<close> two \<open>u64\<close> fields.\<close>

definition Header_ty :: ctype where
  "Header_ty = Struct [(''ty'', Prim 4), (''len'', Prim 4)]"

definition Field_ty :: ctype where
  "Field_ty = Struct [(''f1'', Prim 8), (''f2'', Prim 8)]"

definition header_vec :: "bool \<Rightarrow> usize \<Rightarrow> u8 list list res" where
  "header_vec oc count = vec_with_array_field oc (word_of_nat (size_of Header_ty))
     (replicate (size_of Header_ty) 0) (word_of_nat (size_of Field_ty)) count"

definition test_vec_with_array_field :: "bool \<Rightarrow> ('s, unit) io" where
  "test_vec_with_array_field oc =
     bind (lift (header_vec oc 1)) (\<lambda>v1. bind (assert_that (length v1 = 3)) (\<lambda>_.
     bind (lift (header_vec oc 0)) (\<lambda>v2. bind (assert_that (length v2 = 1)) (\<lambda>_.
     bind (lift (header_vec oc 5)) (\<lambda>v3. assert_that (length v3 = 11))))))"

text \<open>\<open>usize::MAX\<close>; the test expects a panic.\<close>

definition test_vec_with_array_field_overflow :: "bool \<Rightarrow> ('s, unit) io" where
  "test_vec_with_array_field_overflow oc = bind (lift (header_vec oc (- 1))) (\<lambda>_. ret ())"

text \<open>\<open>lib.rs\<close>; \<open>err\<close> is the error \<open>io::Error::from(ErrorKind::Other)\<close>, \<open>show\<close> how errors of the system are displayed.\<close>

definition test_vfio_error_fmt :: "(i32 \<Rightarrow> string) \<Rightarrow> io_error \<Rightarrow> ('s, unit) io" where
  "test_vfio_error_fmt show err =
     (let e = GetGroupStatus; e2 = OpenContainer err in sequence
       [assert_that (display show e = ''failed to get Group Status''),
        assert_that (source e2 \<noteq> None),
        assert_that (source e = None)])"

definition test_vfio_ioctl_code :: "'k kernel \<Rightarrow> ('s, unit) io" where
  "test_vfio_ioctl_code K = sequence
     [assert_that (VFIO_GET_API_VERSION K = 15204),
      assert_that (VFIO_CHECK_EXTENSION K = 15205),
      assert_that (VFIO_SET_IOMMU K = 15206),
      assert_that (VFIO_GROUP_GET_STATUS K = 15207),
      assert_that (VFIO_GROUP_SET_CONTAINER K = 15208),
      assert_that (VFIO_GROUP_UNSET_CONTAINER K = 15209),
      assert_that (VFIO_GROUP_GET_DEVICE_FD K = 15210),
      assert_that (VFIO_DEVICE_GET_INFO K = 15211),
      assert_that (VFIO_DEVICE_GET_REGION_INFO K = 15212),
      assert_that (VFIO_DEVICE_GET_IRQ_INFO K = 15213),
      assert_that (VFIO_DEVICE_SET_IRQS K = 15214),
      assert_that (VFIO_DEVICE_RESET K = 15215),
      assert_that (VFIO_DEVICE_IOEVENTFD K = 15220),
      assert_that (VFIO_IOMMU_DISABLE K = 15220)]"

section \<open>Running the tests\<close>

lemmas run_defs = assert_that_def unwrap_def unwrap_err_def unwrap_option_def at_index_def
  bind_def attempt_def ret_def throw_def lift_def on_kernel_def

lemma test_files [simp]:
  "temp_file test_env k = (Ok ''/tmp/file'', k)"
  "file_open test_env path k = (Ok (word_of_nat (3 + k)), Suc k)"
  by (simp_all add: temp_file_def file_open_def)

lemma test_create_container: "create_vfio_container test_env 0 = (Ok test_container, 1)"
  by (simp add: create_vfio_container_def run_defs test_container_def)

lemma region_info_with_cap_passes: "test_vfio_region_info_with_cap oc s = (Ok (), s)"
proof -
  have "dec_vfio_region_info (replicate 32 0) =
      Some \<lparr>ri_argsz = 0, ri_flags = 0, ri_index = 0, ri_cap_offset = 0, ri_size = 0, ri_offset = 0\<rparr>"
    by code_simp
  then show ?thesis
    using from_region_info_eq(1) [of "\<lparr>ri_argsz = 129, ri_flags = 0, ri_index = 5, ri_cap_offset = 0,
       ri_size = 0, ri_offset = 0\<rparr>" oc]
    by (simp add: test_vfio_region_info_with_cap_def run_defs ri_codec.dec_enc ri_codec.length_enc)
qed

lemma region_info_cap_passes: "test_vfio_region_info_cap s = (Ok (), s)"
  by (simp add: test_vfio_region_info_cap_def run_defs Let_def)

lemma device_info_passes: "fst (test_vfio_device_info test_env k) = Ok ()"
  by (simp add: test_vfio_device_info_def Let_def run_defs test_device_info_eq assert_irq_def test_irq_lookup
      slice_get_def) (simp add: test_irqs_def hm_len_def const_defs test_irq_lookup hm_get_def)

lemma container_passes: "fst (test_vfio_container test_env (test_world\<lparr>kst := 0\<rparr>)) = Ok ()"
  by code_simp

lemma group_passes: "fst (test_vfio_group test_env 0) = Ok ()"
proof -
  have "VfioGroup_new test_env 1 0 = (Ok \<lparr>grp_id = 1, grp_group = 3\<rparr>, 1)"
    by (simp add: VfioGroup_new_def open_group_file_def open_file_def run_defs test_defs)
  moreover have "get_device test_env \<lparr>grp_id = 1, grp_group = 3\<rparr> ''/tmp/file'' 1 =
     (Ok \<lparr>vdi_device = 4, vdi_flags = VFIO_DEVICE_FLAGS_PCI, vdi_num_regions = 8, vdi_num_irqs = 3\<rparr>, 2)"
    by (simp add: get_device_def test_device_name io_defs test_defs const_defs VfioDeviceInfo_new_def)
  moreover have "length (probed test_region (u32_range 0 8)) = 7"
    using test_regions_eq(1) by (simp add: test_device_def)
  ultimately show ?thesis by (simp add: test_vfio_group_def run_defs test_get_regions)
qed

lemma map_guest_memory_passes: "fst (test_vfio_map_guest_memory test_env host 0) = Ok ()"
  by (simp add: test_vfio_map_guest_memory_def test_create_container run_defs one_range_def vfio_map_guest_memory_def
      vfio_unmap_guest_memory_def vfio_dma_map_def vfio_dma_unmap_def test_defs Let_def)

lemma sequence_passes: "list_all (\<lambda>m. m w = (Ok (), w)) ms \<Longrightarrow> sequence ms w = (Ok (), w)"
  by (induction ms) (simp_all add: bind_def ret_def)

lemma step_passes:
  "b \<Longrightarrow> assert_that b w = (Ok (), w)"
  "m (kst w) = (Ok (), kst w) \<Longrightarrow> on_kernel m w = (Ok (), w)"
  "p s = (Ok a, s') \<Longrightarrow> unwrap p s = (Ok a, s')"
  "q t = (Err e, t') \<Longrightarrow> unwrap_err q t = (Ok (), t')"
  by (simp_all add: run_defs)

lemma device_passes: "fst (test_vfio_device test_env (test_world\<lparr>kst := 0\<rparr>)) = Ok ()"
proof -
  let ?d = test_device and ?w = test_world'
  have start: "on_kernel (temp_file test_env) (test_world\<lparr>kst := 0\<rparr>) = (Ok ''/tmp/file'', test_world\<lparr>kst := 0\<rparr>)"
    "on_kernel (create_vfio_container test_env) (test_world\<lparr>kst := 0\<rparr>) = (Ok test_container, test_world)"
    by (simp_all add: on_kernel_def test_create_container) (simp add: test_world_def)
  have new: "unwrap (VfioDevice_new test_env ''/tmp/file'' test_container) test_world = (Ok ?d, ?w)"
    using test_VfioDevice_new by (rule step_passes(3))
  have irq: "get_irq_info ?d 2 = Some \<lparr>irq_flags = 1, irq_index = 2, irq_count = 2048\<rparr>" "0 < sint (dev_device ?d)"
    "hm_len test_irqs = 3" "hm_len ([] :: (u32, arc) hm) = 0"
    by (simp_all add: get_irq_info_def test_irq_lookup) (simp_all add: test_device_def test_irqs_def hm_len_def)
  have read: "on_kernel (region_read test_env ?d i (replicate 16 0) 0x30000) ?w = (Ok (replicate 16 0), ?w)"
    if "i = 7 \<or> i = 1" for i
    using that test_device_ops by (auto simp: on_kernel_def)
  have rest: "fst (sequence
      [on_kernel (region_write test_env ?d 7 (replicate 16 0) 0x30000),
       on_kernel (region_write test_env ?d 1 (replicate 16 0) 0x30000),
       on_kernel (reset test_env ?d), drop_device test_env ?d, assert_groups 0] ?w) = Ok ()"
    by (simp add: bind_def step_passes test_device_ops test_drop_device assert_groups_def irq ret_def)
  show ?thesis
    by (simp add: rest test_vfio_device_def bind_def start new sequence_passes step_passes test_device_ops irq read
        unwrap_option_def ret_def test_drop_device assert_groups_def del: sequence.simps)
qed

lemma vec_with_array_field_passes: "test_vec_with_array_field oc s = (Ok (), s)"
  by (cases oc) (simp_all add: test_vec_with_array_field_def header_vec_def Header_ty_def Field_ty_def shapes_def round_up_def vec_with_array_field_def
      checked_mul_def checked_add_def vec_with_size_in_bytes_def add_usize_def sub_usize_def vec_with_capacity_def isize_max_def
      run_defs Let_def)

lemma vec_with_array_field_overflow_panics: "\<exists>m. test_vec_with_array_field_overflow oc s = (Panic m, s)"
proof -
  have "header_vec oc (- 1) = Panic ''allocating too large buffer with vec_with_array_field''"
    by (simp add: header_vec_def Header_ty_def Field_ty_def shapes_def round_up_def vec_with_array_field_overflow
        unsigned_minus_1_eq_mask mask_eq_exp_minus_1)
  then show ?thesis by (simp add: test_vec_with_array_field_overflow_def run_defs)
qed

lemma error_fmt_passes: "test_vfio_error_fmt show err s = (Ok (), s)"
  by (simp add: test_vfio_error_fmt_def run_defs Let_def)

lemma ioctl_code_passes: "test_vfio_ioctl_code test_kernel s = (Ok (), s)"
  using request_codes [of test_kernel] by (simp add: test_vfio_ioctl_code_def run_defs)

section \<open>Properties\<close>

text \<open>The tests in a debug build, each in a fresh process; \<open>new\<close> is the wrapper of \<open>vmm-sys-util\<close>.\<close>

definition passing_tests :: "fam_new \<Rightarrow> (nat world, unit) io list" where
  "passing_tests new =
     [test_vfio_region_info_with_cap True,
      on_kernel (test_vfio_device_info test_env),
      test_vfio_container test_env,
      on_kernel (test_vfio_group test_env),
      test_vfio_device test_env,
      test_vfio_region_info_cap,
      on_kernel (test_vfio_map_guest_memory test_env (\<lambda>n. 0x7000 * n)),
      test_vec_with_array_field True,
      test_vfio_error_fmt (\<lambda>_. []) 5,
      test_vfio_ioctl_code test_kernel,
      lift (irqset_fam_test new True 1 [0, 1, 2, 3, 4, 5])]"

text \<open>
  Every unit test of the two crates passes on the model: the eleven tests that must return do so
  without a failing assertion or a panic, and the one that must panic panics.
\<close>

lemma unit_tests_pass:
  assumes "fam_new_law new"
  shows "list_all (\<lambda>t. fst (t (test_world\<lparr>kst := 0\<rparr>)) = Ok ()) (passing_tests new) \<and>
    (\<exists>m. fst (test_vec_with_array_field_overflow True (test_world\<lparr>kst := 0\<rparr>)) = Panic m)"
proof -
  have k: "kst (test_world\<lparr>kst := 0\<rparr>) = 0" by (simp add: test_world_def)
  have run: "fst (on_kernel t (test_world\<lparr>kst := 0\<rparr>)) = fst (t 0)" for t :: "(nat, unit) io"
    by (simp add: on_kernel_def k split: prod.split)
  have fam: "irqset_fam_test new True 1 [0, 1, 2, 3, 4, 5] = Ok ()"
    using assms by (rule irqset_fam_test_passes) (simp add: MSIX_MAX_VECTORS_def)
  obtain m where "test_vec_with_array_field_overflow True (test_world\<lparr>kst := 0\<rparr>) = (Panic m, test_world\<lparr>kst := 0\<rparr>)"
    using vec_with_array_field_overflow_panics [of True "test_world\<lparr>kst := 0\<rparr>"] by blast
  then show ?thesis
    by (simp add: passing_tests_def run region_info_with_cap_passes region_info_cap_passes device_info_passes
        container_passes group_passes device_passes map_guest_memory_passes vec_with_array_field_passes
        error_fmt_passes ioctl_code_passes fam lift_def)
qed

theorem irqset_constructions_agree_witness:
  "\<exists>mem. irqset_fam fam_new_example True 1 [7, 8] = Ok mem \<and> irqset_vec True 1 [7, 8] = Ok mem \<and>
     enable_irq test_env test_device 1 [7, 8] 0 = map_err (\<lambda>_. VfioDeviceEnableIrq) (test_set_device_irqs 5 mem) 0"
proof -
  have "dev_device test_device = 5" by (simp add: test_device_def)
  then show ?thesis
    using irqset_constructions_agree [OF fam_new_example_law, of "[7, 8]" test_device 1
        "\<lparr>irq_flags = 1, irq_index = 1, irq_count = 32\<rparr>" True test_env 0]
    by (simp add: test_irq_lookup MSIX_MAX_VECTORS_def)
qed

end
