(* ===== verification/Descriptors.thy ===== *)
theory Descriptors
  imports Lifecycle Test_Syscall "HOL-Library.Multiset"
begin

text \<open>
  Ownership of file descriptors. The container, every live group and every live device own one
  descriptor each; opening hands a fresh one out, dropping closes exactly the own one. The open
  descriptors of the process are therefore at any time those it had before, one for the container, one
  for each device and one for each group, in every interleaving and after every error; when the last
  device and the container are gone, it has those it started with.
\<close>

section \<open>What the system calls do to the open descriptors\<close>

text \<open>
  \<open>opens k\<close> is the set of open descriptors in kernel state \<open>k\<close>. Opening a file and
  \<open>VFIO_GROUP_GET_DEVICE_FD\<close> add a descriptor that was not open, closing removes one, and no other call
  the crate makes changes the set.
\<close>

definition keeps :: "('k \<Rightarrow> fd set) \<Rightarrow> ('k, 'a) io \<Rightarrow> bool" where
  "keeps opens m \<longleftrightarrow> (\<forall>k. opens (snd (m k)) = opens k)"

definition acquires :: "('k \<Rightarrow> fd set) \<Rightarrow> ('a \<Rightarrow> fd) \<Rightarrow> ('k, 'a) io \<Rightarrow> bool" where
  "acquires opens fd_of m \<longleftrightarrow> (\<forall>k. triple m k
     (\<lambda>a k'. fd_of a \<notin> opens k \<and> opens k' = insert (fd_of a) (opens k)) (\<lambda>_ k'. opens k' = opens k))"

definition fd_law :: "'k env \<Rightarrow> ('k \<Rightarrow> fd set) \<Rightarrow> bool" where
  "fd_law E opens \<longleftrightarrow>
     (\<forall>err path. acquires opens id (open_file E err path)) \<and>
     (\<forall>f k. opens (k_close (env_kernel E) f k) = opens k - {f}) \<and>
     (\<forall>path k. opens (snd (k_read_link (env_kernel E) path k)) = opens k) \<and>
     (\<forall>k. opens (snd (k_tempfile (env_kernel E) k)) = opens k) \<and>
     (\<forall>f attr k. opens (snd (k_set_device_attr (env_kernel E) f attr k)) = opens k) \<and>
     (\<forall>g path. acquires opens id (sys_get_group_device_fd (env_sys E) g path)) \<and>
     (\<forall>c. keeps opens (sys_check_api_version (env_sys E) c)) \<and>
     (\<forall>c val. keeps opens (sys_check_extension (env_sys E) c val)) \<and>
     (\<forall>c val. keeps opens (sys_set_iommu (env_sys E) c val)) \<and>
     (\<forall>g st. keeps opens (sys_get_group_status (env_sys E) g st)) \<and>
     (\<forall>g c. keeps opens (sys_set_group_container (env_sys E) g c)) \<and>
     (\<forall>g c. keeps opens (sys_unset_group_container (env_sys E) g c)) \<and>
     (\<forall>d i. keeps opens (sys_get_device_info (env_sys E) d i)) \<and>
     (\<forall>d i. keeps opens (sys_get_device_irq_info (env_sys E) d i)) \<and>
     (\<forall>d i. keeps opens (sys_get_device_region_info (env_sys E) d i)) \<and>
     (\<forall>d mem. keeps opens (sys_get_device_region_info_cap (env_sys E) d mem))"

text \<open>
  For the two versions of \<open>vfio_syscall\<close> the law follows from one about the kernel. Of all \<open>ioctl\<close>
  requests the crate makes only \<open>VFIO_GROUP_GET_DEVICE_FD\<close> opens a descriptor, the one it returns, and only
  when it does not fail; the macro \<open>ioctl_io_nr!\<close> keeps the requests apart.
\<close>

definition linux_io_nr :: "'k kernel \<Rightarrow> bool" where
  "linux_io_nr K \<longleftrightarrow> (\<forall>ty nr. ty < 256 \<longrightarrow> nr < 256 \<longrightarrow> k_io_nr K ty nr = push_bit 8 (ucast ty) OR ucast nr)"

definition kernel_fd_law :: "'k kernel \<Rightarrow> ('k \<Rightarrow> fd set) \<Rightarrow> bool" where
  "kernel_fd_law K opens \<longleftrightarrow>
     (\<forall>path k. case k_open K path k of
        (Inl _, k') \<Rightarrow> opens k' = opens k
      | (Inr f, k') \<Rightarrow> f \<notin> opens k \<and> opens k' = insert f (opens k)) \<and>
     (\<forall>f k. opens (k_close K f k) = opens k - {f}) \<and>
     (\<forall>path k. opens (snd (k_read_link K path k)) = opens k) \<and>
     (\<forall>k. opens (snd (k_tempfile K k)) = opens k) \<and>
     (\<forall>f attr k. opens (snd (k_set_device_attr K f attr k)) = opens k) \<and>
     (\<forall>f nr arg k. case k_ioctl K f nr arg k of (r, k') \<Rightarrow>
        if nr = VFIO_GROUP_GET_DEVICE_FD K \<and> \<not> failed r
        then io_ret r \<notin> opens k \<and> opens k' = insert (io_ret r) (opens k) else opens k' = opens k)"

lemma keepsI: "(\<And>k r k'. m k = (r, k') \<Longrightarrow> opens k' = opens k) \<Longrightarrow> keeps opens m"
  unfolding keeps_def by (metis prod.collapse)

lemma keepsD: "keeps opens m \<Longrightarrow> m k = (r, k') \<Longrightarrow> opens k' = opens k"
  unfolding keeps_def by (metis snd_conv)

lemma keeps_basic [simp]: "keeps opens (ret a)" "keeps opens (throw e)" "keeps opens (lift r)"
  by (simp_all add: keeps_def ret_def throw_def lift_def)

lemma keeps_bind: "keeps opens m \<Longrightarrow> (\<And>a. keeps opens (f a)) \<Longrightarrow> keeps opens (bind m f)"
proof (rule keepsI)
  fix k r k'
  assume m: "keeps opens m" and f: "\<And>a. keeps opens (f a)" and run: "bind m f k = (r, k')"
  obtain x k1 where x: "m k = (x, k1)" by fastforce
  show "opens k' = opens k"
    using keepsD [OF m x] keepsD [OF f] run x by (cases x) (auto simp: bind_def)
qed

lemma keeps_attempt: "keeps opens m \<Longrightarrow> keeps opens (attempt m)"
proof (rule keepsI)
  fix k r k'
  assume m: "keeps opens m" and run: "attempt m k = (r, k')"
  obtain x k1 where x: "m k = (x, k1)" by fastforce
  show "opens k' = opens k" using keepsD [OF m x] run x by (cases x) (auto simp: attempt_def)
qed

lemma keeps_if: "keeps opens m \<Longrightarrow> keeps opens m' \<Longrightarrow> keeps opens (if b then m else m')"
  by simp

lemma keeps_sum: "(\<And>e. keeps opens (f e)) \<Longrightarrow> (\<And>a. keeps opens (g a)) \<Longrightarrow> keeps opens (case r of Inl e \<Rightarrow> f e | Inr a \<Rightarrow> g a)"
  by (simp split: sum.split)

lemma keeps_option: "keeps opens f \<Longrightarrow> (\<And>a. keeps opens (g a)) \<Longrightarrow> keeps opens (case r of None \<Rightarrow> f | Some a \<Rightarrow> g a)"
  by (simp split: option.split)

lemmas keeps_intros = keeps_basic keeps_bind keeps_attempt keeps_if keeps_sum keeps_option

section \<open>Both versions of the system calls\<close>

lemma acquiresI:
  assumes "\<And>k. triple m k (\<lambda>a k'. fd_of a \<notin> opens k \<and> opens k' = insert (fd_of a) (opens k))
    (\<lambda>_ k'. opens k' = opens k)"
  shows "acquires opens fd_of m"
  using assms by (simp add: acquires_def)

lemma request_not_device_fd:
  assumes "linux_io_nr K"
  shows "VFIO_GET_API_VERSION K \<noteq> VFIO_GROUP_GET_DEVICE_FD K" "VFIO_CHECK_EXTENSION K \<noteq> VFIO_GROUP_GET_DEVICE_FD K"
    "VFIO_SET_IOMMU K \<noteq> VFIO_GROUP_GET_DEVICE_FD K" "VFIO_GROUP_GET_STATUS K \<noteq> VFIO_GROUP_GET_DEVICE_FD K"
    "VFIO_GROUP_SET_CONTAINER K \<noteq> VFIO_GROUP_GET_DEVICE_FD K"
    "VFIO_GROUP_UNSET_CONTAINER K \<noteq> VFIO_GROUP_GET_DEVICE_FD K"
    "VFIO_DEVICE_GET_INFO K \<noteq> VFIO_GROUP_GET_DEVICE_FD K"
    "VFIO_DEVICE_GET_REGION_INFO K \<noteq> VFIO_GROUP_GET_DEVICE_FD K"
    "VFIO_DEVICE_GET_IRQ_INFO K \<noteq> VFIO_GROUP_GET_DEVICE_FD K"
  using assms by (simp_all add: linux_io_nr_def request_defs const_defs)

lemma kernel_fd_lawD:
  assumes "kernel_fd_law K opens"
  shows "case k_open K path k of
      (Inl _, k') \<Rightarrow> opens k' = opens k
    | (Inr f, k') \<Rightarrow> f \<notin> opens k \<and> opens k' = insert f (opens k)"
    "case k_ioctl K f nr arg k of (r, k') \<Rightarrow>
      if nr = VFIO_GROUP_GET_DEVICE_FD K \<and> \<not> failed r
      then io_ret r \<notin> opens k \<and> opens k' = insert (io_ret r) (opens k) else opens k' = opens k"
    "opens (k_close K f k) = opens k - {f}" "opens (snd (k_read_link K path k)) = opens k"
    "opens (snd (k_tempfile K k)) = opens k" "opens (snd (k_set_device_attr K f attr k)) = opens k"
proof -
  note c = assms [unfolded kernel_fd_law_def]
  show "case k_open K path k of
      (Inl _, k') \<Rightarrow> opens k' = opens k
    | (Inr f, k') \<Rightarrow> f \<notin> opens k \<and> opens k' = insert f (opens k)"
    using c [THEN conjunct1] by (elim allE)
  show "case k_ioctl K f nr arg k of (r, k') \<Rightarrow>
      if nr = VFIO_GROUP_GET_DEVICE_FD K \<and> \<not> failed r
      then io_ret r \<notin> opens k \<and> opens k' = insert (io_ret r) (opens k) else opens k' = opens k"
    using c [THEN conjunct2, THEN conjunct2, THEN conjunct2, THEN conjunct2, THEN conjunct2] by (elim allE)
qed (use assms in \<open>simp_all add: kernel_fd_law_def\<close>)

lemma ioctl_keeps:
  assumes "kernel_fd_law K opens" "k_ioctl K f nr arg k = (r, k')" "nr \<noteq> VFIO_GROUP_GET_DEVICE_FD K"
  shows "opens k' = opens k"
  using kernel_fd_lawD(2) [OF assms(1), where f = f and nr = nr and arg = arg and k = k] assms(2,3) by simp

lemma ioctl_device_fd:
  assumes "kernel_fd_law K opens" "k_ioctl K f (VFIO_GROUP_GET_DEVICE_FD K) arg k = (r, k')"
  shows "if failed r then opens k' = opens k else io_ret r \<notin> opens k \<and> opens k' = insert (io_ret r) (opens k)"
  using kernel_fd_lawD(2) [OF assms(1), where f = f and nr = "VFIO_GROUP_GET_DEVICE_FD K" and arg = arg and k = k] assms(2) by (simp split: if_splits)

lemma kernel_open_acquires:
  assumes "kernel_fd_law (env_kernel E) opens"
  shows "acquires opens id (open_file E err path)"
proof (rule acquiresI)
  fix k
  show "triple (open_file E err path) k (\<lambda>a k'. id a \<notin> opens k \<and> opens k' = insert (id a) (opens k))
      (\<lambda>_ k'. opens k' = opens k)"
    using kernel_fd_lawD(1) [OF assms, where path = path and k = k]
    by (auto simp: triple_def open_file_def split: prod.splits sum.splits)
qed

lemma real_fd_law:
  assumes "kernel_fd_law (env_kernel E) opens" "linux_io_nr (env_kernel E)" "env_sys E = real_syscall (env_kernel E)"
  shows "fd_law E opens"
proof -
  note keep = ioctl_keeps [OF assms(1) _ request_not_device_fd(1) [OF assms(2)]]
    ioctl_keeps [OF assms(1) _ request_not_device_fd(2) [OF assms(2)]]
    ioctl_keeps [OF assms(1) _ request_not_device_fd(3) [OF assms(2)]]
    ioctl_keeps [OF assms(1) _ request_not_device_fd(4) [OF assms(2)]]
    ioctl_keeps [OF assms(1) _ request_not_device_fd(5) [OF assms(2)]]
    ioctl_keeps [OF assms(1) _ request_not_device_fd(6) [OF assms(2)]]
    ioctl_keeps [OF assms(1) _ request_not_device_fd(7) [OF assms(2)]]
    ioctl_keeps [OF assms(1) _ request_not_device_fd(8) [OF assms(2)]]
    ioctl_keeps [OF assms(1) _ request_not_device_fd(9) [OF assms(2)]]
  have "acquires opens id (real_get_group_device_fd (env_kernel E) g path)" for g path
    unfolding acquires_def triple_def real_get_group_device_fd_def
    by (auto split: prod.splits if_splits dest!: ioctl_device_fd [OF assms(1)])
  then show ?thesis
    unfolding fd_law_def assms(3)
    by (intro conjI allI kernel_open_acquires kernel_fd_lawD(3-) assms(1) keepsI)
      (auto simp: real_syscall_def real_defs ioctl_struct_def split: prod.splits if_splits dest: keep)
qed

lemma test_fd_law:
  assumes "kernel_fd_law (env_kernel E) opens" "env_sys E = test_syscall (env_kernel E)"
  shows "fd_law E opens"
proof -
  have "acquires opens id (test_get_group_device_fd (env_kernel E) g path)" for g path
  proof (rule acquiresI, rule tripleI)
    fix k f k'
    assume "test_get_group_device_fd (env_kernel E) g path k = (Ok f, k')"
    then obtain p k1 where "k_tempfile (env_kernel E) k = (Some p, k1)" "open_file E OpenContainer p k1 = (Ok f, k')"
      by (auto simp: test_get_group_device_fd_def open_file_def split: prod.splits option.splits sum.splits)
    moreover have "triple (open_file E OpenContainer p) k1
        (\<lambda>a k'. id a \<notin> opens k1 \<and> opens k' = insert (id a) (opens k1)) (\<lambda>_ k'. opens k' = opens k1)"
      using kernel_open_acquires [OF assms(1)] by (simp add: acquires_def)
    ultimately show "id f \<notin> opens k \<and> opens k' = insert (id f) (opens k)"
      using kernel_fd_lawD(5) [OF assms(1), where k = k] by (auto dest: triple_OkD)
  qed (auto simp: test_get_group_device_fd_def split: prod.splits option.splits sum.splits)
  then show ?thesis
    unfolding fd_law_def assms(2)
    by (intro conjI allI kernel_open_acquires kernel_fd_lawD(3-) assms(1) keepsI)
      (auto simp: test_syscall_def test_defs Let_def split: if_splits option.splits)
qed

section \<open>Functions that open and close\<close>

text \<open>Opening a descriptor and continuing: the continuation keeps it open when it returns, and closes it when it fails.\<close>

lemma acquires_bind:
  assumes "acquires opens id m"
    and "\<And>f k. triple (c f) k (\<lambda>a k'. fd_of a = f \<and> opens k' = opens k) (\<lambda>_ k'. opens k' = opens k - {f})"
  shows "acquires opens fd_of (bind m c)"
proof (rule acquiresI)
  fix k
  have m: "triple m k (\<lambda>f k'. f \<notin> opens k \<and> opens k' = insert f (opens k)) (\<lambda>_ k'. opens k' = opens k)"
    using assms(1) by (simp add: acquires_def)
  show "triple (bind m c) k (\<lambda>a k'. fd_of a \<notin> opens k \<and> opens k' = insert (fd_of a) (opens k))
    (\<lambda>_ k'. opens k' = opens k)"
    by (rule triple_bind [OF m], rule triple_conseq [OF assms(2)]) auto
qed

lemma keeps_triple: "keeps opens m \<Longrightarrow> triple m k (\<lambda>_ k'. opens k' = opens k) (\<lambda>_ k'. opens k' = opens k)"
  by (rule tripleI) (auto dest: keepsD)

lemma keeps_attempt_triple: "keeps opens m \<Longrightarrow> triple (attempt m) k (\<lambda>_ k'. opens k' = opens k) X"
  by (rule triple_attempt) (rule keeps_triple)

lemma acquires_lift: "(\<And>a. acquires opens fd_of (c a)) \<Longrightarrow> acquires opens fd_of (bind (lift r) c)"
  by (cases r) (simp_all add: acquires_def triple_def bind_def lift_def throw_def)

locale fd_calls =
  fixes E :: "'k env" and opens :: "'k \<Rightarrow> fd set"
  assumes law: "fd_law E opens"
begin

lemma close_opens: "opens (k_close (env_kernel E) f k) = opens k - {f}"
  and open_acquires: "acquires opens id (open_file E err path)"
  and device_fd_acquires: "acquires opens id (sys_get_group_device_fd (env_sys E) g path)"
  using law by (simp_all add: fd_law_def)

lemma sys_keeps:
  "keeps opens (sys_check_api_version (env_sys E) c)"
  "keeps opens (sys_check_extension (env_sys E) c val)"
  "keeps opens (sys_set_iommu (env_sys E) c val)"
  "keeps opens (sys_get_group_status (env_sys E) g st)"
  "keeps opens (sys_set_group_container (env_sys E) g c)"
  "keeps opens (sys_unset_group_container (env_sys E) g c)"
  "keeps opens (sys_get_device_info (env_sys E) d di)"
  "keeps opens (sys_get_device_irq_info (env_sys E) d ii)"
  "keeps opens (sys_get_device_region_info (env_sys E) d ri)"
  "keeps opens (sys_get_device_region_info_cap (env_sys E) d mem)"
  using law by (simp_all add: fd_law_def)

lemma set_device_attr_keeps: "keeps opens (set_device_attr E f attr)"
proof (rule keepsI)
  fix k r k'
  assume run: "set_device_attr E f attr k = (r, k')"
  have "opens (snd (k_set_device_attr (env_kernel E) f attr k)) = opens k" using law by (simp add: fd_law_def)
  then show "opens k' = opens k" using run by (auto simp: set_device_attr_def split: prod.splits sum.splits)
qed

lemma device_group_keeps: "keeps opens (device_add_group E C g)" "keeps opens (device_del_group E C g)"
  by (auto simp: device_add_group_def device_del_group_def device_set_group_def Let_def
      intro: set_device_attr_keeps split: option.split VfioDeviceFd.split)

lemma get_group_id_keeps: "keeps opens (get_group_id_from_path E path)"
proof (rule keepsI)
  fix k r k'
  assume run: "get_group_id_from_path E path k = (r, k')"
  have "opens (snd (k_read_link (env_kernel E) (path_join path ''iommu_group'') k)) = opens k"
    using law by (simp add: fd_law_def)
  then show "opens k' = opens k"
    using run by (auto simp: get_group_id_from_path_def split: prod.splits sum.splits if_splits)
qed

lemma set_iommu_keeps: "keeps opens (set_iommu E C val)"
  by (simp add: set_iommu_def sys_keeps)

lemma checks_keep: "keeps opens (bind (check_api_version E C) (\<lambda>_. check_extension E C val))"
  unfolding check_api_version_def check_extension_def by (intro keeps_intros sys_keeps)

lemma get_irqs_keeps: "keeps opens (get_irqs (env_sys E) info)"
proof -
  have "keeps opens (get_irqs_loop (env_sys E) d is irqs)" for d "is" irqs
    by (induction "is" arbitrary: irqs) (simp_all add: keeps_intros sys_keeps split: sum.split)
  then show ?thesis by (simp add: get_irqs_def)
qed

lemma get_region_map_keeps: "keeps opens (get_region_map oc (env_sys E) info region ri)"
  unfolding get_region_map_def by (intro keeps_intros sys_keeps)

lemma get_regions_keeps: "keeps opens (get_regions oc (env_sys E) info)"
proof -
  have "keeps opens (get_regions_loop oc (env_sys E) info is rs)" for "is" rs
    by (induction "is" arbitrary: rs)
      (simp_all add: keeps_intros sys_keeps get_region_map_keeps split: sum.split)
  then show ?thesis by (simp add: get_regions_def)
qed

lemma open_group_file_acquires: "acquires opens id (open_group_file E gid)"
proof (cases "feat_test (env_feat E)")
  case True
  have t: "opens (snd (k_tempfile (env_kernel E) k)) = opens k" for k using law by (simp add: fd_law_def)
  show ?thesis
  proof (rule acquiresI)
    fix k
    obtain p k1 where p: "k_tempfile (env_kernel E) k = (p, k1)" by fastforce
    then have "opens k1 = opens k" using t [of k] by simp
    then show "triple (open_group_file E gid) k (\<lambda>a k'. id a \<notin> opens k \<and> opens k' = insert (id a) (opens k))
        (\<lambda>_ k'. opens k' = opens k)"
    proof (cases p)
      case (Some path)
      have "triple (open_file E (\<lambda>e. OpenGroup e (u32_to_string gid)) path) k1
          (\<lambda>a k'. id a \<notin> opens k1 \<and> opens k' = insert (id a) (opens k1)) (\<lambda>_ k'. opens k' = opens k1)"
        using open_acquires by (simp add: acquires_def)
      then show ?thesis using p True Some \<open>opens k1 = opens k\<close> by (simp add: triple_def open_group_file_def)
    qed (use p True in \<open>simp add: triple_def open_group_file_def\<close>)
  qed
qed (simp add: open_group_file_def open_acquires)

text \<open>Closing the descriptor on the way out of a failure.\<close>

lemma close_throw_triple: "triple (bind (close_file E f) (\<lambda>_. throw e)) k Q (\<lambda>_ k'. opens k' = opens k - {f})"
  by (simp add: triple_def close_opens)

lemma VfioGroup_new_acquires: "acquires opens grp_group (VfioGroup_new E gid)"
  unfolding VfioGroup_new_def
proof (rule acquires_bind [OF open_group_file_acquires], rule triple_bind [OF keeps_attempt_triple],
    rule sys_keeps, rule triple_sum)
  fix f k r k1 e
  assume "opens k1 = opens k"
  then show "triple (bind (close_file E f) (\<lambda>_. throw e)) k1 (\<lambda>a k'. grp_group a = f \<and> opens k' = opens k)
      (\<lambda>_ k'. opens k' = opens k - {f})"
    using close_throw_triple [of f e k1] by simp
next
  fix f k r k1 st
  assume "opens k1 = opens k"
  then show "triple (if gs_flags st \<noteq> VFIO_GROUP_FLAGS_VIABLE then bind (close_file E f) (\<lambda>_. throw GroupViable)
      else ret \<lparr>grp_id = gid, grp_group = f\<rparr>) k1 (\<lambda>a k'. grp_group a = f \<and> opens k' = opens k)
      (\<lambda>_ k'. opens k' = opens k - {f})"
    using close_throw_triple [of f GroupViable k1] by (auto intro: triple_ret)
qed

lemma VfioContainer_new_acquires: "acquires opens ct_container (VfioContainer_new E device_fd)"
  unfolding VfioContainer_new_def Let_def
proof (rule acquires_bind [OF open_acquires], rule triple_bind [OF keeps_attempt_triple],
    rule checks_keep, rule triple_sum)
  fix f k r k1 e
  assume "opens k1 = opens k"
  then show "triple (bind (close_file E f) (\<lambda>_. throw e)) k1 (\<lambda>a k'. ct_container a = f \<and> opens k' = opens k)
      (\<lambda>_ k'. opens k' = opens k - {f})"
    using close_throw_triple [of f e k1] by simp
qed (simp add: triple_ret)

lemma get_device_acquires: "acquires opens vdi_device (get_device E g name)"
proof -
  have body: "triple (bind (attempt (sys_get_device_info (env_sys E) f di)) (\<lambda>r. case r of
       Inl e \<Rightarrow> bind (close_file E f) (\<lambda>_. throw e)
     | Inr dev_info \<Rightarrow>
         if di_flags dev_info AND VFIO_DEVICE_FLAGS_PCI = 0
            \<or> di_num_regions dev_info < VFIO_PCI_CONFIG_REGION_INDEX + 1
            \<or> di_num_irqs dev_info < VFIO_PCI_MSIX_IRQ_INDEX + 1
         then bind (close_file E f) (\<lambda>_. throw VfioDeviceGetInfo)
         else ret (VfioDeviceInfo_new f dev_info))) k
     (\<lambda>a k'. vdi_device a = f \<and> opens k' = opens k) (\<lambda>_ k'. opens k' = opens k - {f})" for f di k
  proof (rule triple_bind [OF keeps_attempt_triple], rule sys_keeps, rule triple_sum)
    fix r k1 e
    assume "opens k1 = opens k"
    then show "triple (bind (close_file E f) (\<lambda>_. throw e)) k1 (\<lambda>a k'. vdi_device a = f \<and> opens k' = opens k)
        (\<lambda>_ k'. opens k' = opens k - {f})"
      using close_throw_triple [of f e k1] by simp
  next
    fix r k1 dev_info
    assume "opens k1 = opens k"
    then show "triple (if di_flags dev_info AND VFIO_DEVICE_FLAGS_PCI = 0
            \<or> di_num_regions dev_info < VFIO_PCI_CONFIG_REGION_INDEX + 1
            \<or> di_num_irqs dev_info < VFIO_PCI_MSIX_IRQ_INDEX + 1
         then bind (close_file E f) (\<lambda>_. throw VfioDeviceGetInfo)
         else ret (VfioDeviceInfo_new f dev_info)) k1 (\<lambda>a k'. vdi_device a = f \<and> opens k' = opens k)
        (\<lambda>_ k'. opens k' = opens k - {f})"
      using close_throw_triple [of f VfioDeviceGetInfo k1]
      by (intro triple_if triple_ret) (simp_all add: VfioDeviceInfo_new_def)
  qed
  show ?thesis
    unfolding get_device_def by (rule acquires_lift, rule acquires_bind [OF device_fd_acquires], rule body)
qed

end

text \<open>The two versions of \<open>vfio_syscall\<close> on a kernel that keeps the law of its own descriptors.\<close>

locale real_fds =
  fixes E :: "'k env" and opens :: "'k \<Rightarrow> fd set"
  assumes kernel: "kernel_fd_law (env_kernel E) opens"
    and requests: "linux_io_nr (env_kernel E)"
    and module: "env_sys E = real_syscall (env_kernel E)"

sublocale real_fds \<subseteq> fd_calls E opens
  by (rule fd_calls.intro, rule real_fd_law [OF kernel requests module])

locale test_fds =
  fixes E :: "'k env" and opens :: "'k \<Rightarrow> fd set"
  assumes kernel: "kernel_fd_law (env_kernel E) opens"
    and module: "env_sys E = test_syscall (env_kernel E)"

sublocale test_fds \<subseteq> fd_calls E opens
  by (rule fd_calls.intro, rule test_fd_law [OF kernel module])

section \<open>The ledger\<close>

text \<open>
  The descriptor each live group owns, and the ledger: the open descriptors are those in \<open>R\<close> and those
  of the groups, nobody owns a descriptor twice, and references not handed out yet are unused.
\<close>

definition grp_fds :: "'k world \<Rightarrow> arc \<rightharpoonup> fd" where
  "grp_fds w a = map_option (\<lambda>(g, n). grp_group g) (arcs w a)"

definition ledger :: "('k \<Rightarrow> fd set) \<Rightarrow> fd set \<Rightarrow> 'k world \<Rightarrow> bool" where
  "ledger opens R w \<longleftrightarrow>
     opens (kst w) = R \<union> ran (grp_fds w) \<and> R \<inter> ran (grp_fds w) = {} \<and>
     inj_on (grp_fds w) (dom (grp_fds w)) \<and> (\<forall>a. next_arc w \<le> a \<longrightarrow> arcs w a = None)"

lemma grp_fds_cong: "arcs w' = arcs w \<Longrightarrow> grp_fds w' = grp_fds w"
  by (simp add: grp_fds_def fun_eq_iff)

lemma grp_fds_simps [simp]: "grp_fds (w\<lparr>groups := t\<rparr>) = grp_fds w" "grp_fds (w\<lparr>kst := k\<rparr>) = grp_fds w"
  by (rule grp_fds_cong, simp)+

lemma ledger_same:
  "same_heap w w' \<Longrightarrow> opens (kst w') = opens (kst w) \<Longrightarrow> ledger opens R w' = ledger opens R w"
  using grp_fds_cong [of w' w] by (simp add: ledger_def same_heap_def)

lemma ledger_groups [simp]: "ledger opens R (w\<lparr>groups := t\<rparr>) = ledger opens R w"
  by (simp add: ledger_def)

lemma grp_fds_upd:
  assumes "arcs w' = (arcs w)(a \<mapsto> (g, m))"
  shows "grp_fds w' = (grp_fds w)(a \<mapsto> grp_group g)"
  using assms by (simp add: grp_fds_def fun_eq_iff)

text \<open>Changing a count changes nothing.\<close>

lemma ledger_recount:
  fixes w :: "'k world"
  assumes "ledger opens R w" "arcs w a = Some (g, n)"
  shows "ledger opens R (w\<lparr>arcs := (arcs w)(a \<mapsto> (g, m))\<rparr>)"
proof -
  have "grp_fds (w\<lparr>arcs := (arcs w)(a \<mapsto> (g, m))\<rparr>) = grp_fds w"
    using assms(2) by (simp add: grp_fds_def fun_eq_iff)
  moreover have "a < next_arc w" using assms by (auto simp: ledger_def not_le [symmetric])
  ultimately show ?thesis using assms(1) by (auto simp: ledger_def)
qed

text \<open>A new group takes over its descriptor, and freeing one closes it.\<close>

lemma inj_on_map_upd:
  assumes "inj_on m (dom m)" "b \<notin> ran m"
  shows "inj_on (m(a \<mapsto> b)) (dom (m(a \<mapsto> b)))"
proof (rule inj_onI)
  fix x y
  assume "x \<in> dom (m(a \<mapsto> b))" "y \<in> dom (m(a \<mapsto> b))" "(m(a \<mapsto> b)) x = (m(a \<mapsto> b)) y"
  moreover have "m z \<noteq> Some b" for z using assms(2) by (auto simp: ran_def)
  ultimately show "x = y"
    using inj_onD [OF assms(1), of x y] by (auto split: if_splits)
qed

lemma ledger_new:
  fixes w :: "'k world"
  assumes "ledger opens (insert (grp_group g) R) w" "grp_group g \<notin> R"
  shows "ledger opens R (w\<lparr>arcs := (arcs w)(next_arc w \<mapsto> (g, n)), next_arc := Suc (next_arc w)\<rparr>)"
proof -
  let ?w = "w\<lparr>arcs := (arcs w)(next_arc w \<mapsto> (g, n)), next_arc := Suc (next_arc w)\<rparr>"
  have new: "grp_fds w (next_arc w) = None" "grp_group g \<notin> ran (grp_fds w)"
    using assms(1) by (auto simp: ledger_def grp_fds_def)
  have fds: "grp_fds ?w = (grp_fds w)(next_arc w \<mapsto> grp_group g)" by (rule grp_fds_upd) simp
  have "inj_on (grp_fds ?w) (dom (grp_fds ?w))"
    unfolding fds using assms(1) new(2) by (intro inj_on_map_upd) (simp_all add: ledger_def)
  moreover have "ran (grp_fds ?w) = insert (grp_group g) (ran (grp_fds w))" unfolding fds using new(1) by simp
  ultimately show ?thesis using assms new(2) by (auto simp: ledger_def)
qed

lemma ran_remove: "inj_on m (dom m) \<Longrightarrow> m a = Some b \<Longrightarrow> ran (m(a := None)) = ran m - {b}"
proof -
  assume inj: "inj_on m (dom m)" and a: "m a = Some b"
  have "m c \<noteq> Some b" if "c \<noteq> a" for c using inj_onD [OF inj, of c a] that a by auto
  then have "x \<noteq> b \<Longrightarrow> m c = Some x \<Longrightarrow> c \<noteq> a" "c \<noteq> a \<Longrightarrow> m c = Some x \<Longrightarrow> x \<noteq> b" for x c using a by auto
  then show ?thesis unfolding ran_def by (simp only: fun_upd_apply) (fastforce split: if_splits)
qed

lemma ledger_free:
  fixes w :: "'k world"
  assumes "ledger opens R w" "arcs w a = Some (g, n)" "opens k = opens (kst w) - {grp_group g}"
  shows "ledger opens R (w\<lparr>arcs := (arcs w)(a := None), kst := k\<rparr>)"
proof -
  let ?w = "w\<lparr>arcs := (arcs w)(a := None), kst := k\<rparr>"
  have fds: "grp_fds ?w = (grp_fds w)(a := None)" by (simp add: grp_fds_def fun_eq_iff)
  have ga: "grp_fds w a = Some (grp_group g)" using assms(2) by (simp add: grp_fds_def)
  have inj: "inj_on (grp_fds w) (dom (grp_fds w))" using assms(1) by (simp add: ledger_def)
  have "grp_group g \<notin> R" using assms(1) ga by (auto simp: ledger_def ran_def)
  moreover have "inj_on (grp_fds ?w) (dom (grp_fds ?w))" unfolding fds using inj by (auto simp: inj_on_def dom_def)
  moreover have "ran (grp_fds ?w) = ran (grp_fds w) - {grp_group g}" unfolding fds using ran_remove [OF inj ga] .
  ultimately show ?thesis using assms by (auto simp: ledger_def)
qed

text \<open>Closing, on the kernel's side, a descriptor that \<open>R\<close> owns.\<close>

lemma ledger_close:
  assumes "ledger opens (insert f R) w" "f \<notin> R" "opens k = opens (kst w) - {f}"
  shows "ledger opens R (w\<lparr>kst := k\<rparr>)"
  using assms by (auto simp: ledger_def)

section \<open>The operations keep the ledger\<close>

definition preserves :: "('k \<Rightarrow> fd set) \<Rightarrow> fd set \<Rightarrow> ('k world, 'a) io \<Rightarrow> bool" where
  "preserves opens R m \<longleftrightarrow> (\<forall>w. ledger opens R w \<longrightarrow> triple m w (\<lambda>_. ledger opens R) (\<lambda>_. ledger opens R))"

lemma preservesI:
  "(\<And>w. ledger opens R w \<Longrightarrow> triple m w (\<lambda>_. ledger opens R) (\<lambda>_. ledger opens R)) \<Longrightarrow> preserves opens R m"
  by (simp add: preserves_def)

lemma preservesD:
  "preserves opens R m \<Longrightarrow> ledger opens R w \<Longrightarrow> triple m w (\<lambda>_. ledger opens R) (\<lambda>_. ledger opens R)"
  by (simp add: preserves_def)

lemma preserves_basic [simp]: "preserves opens R (ret a)" "preserves opens R (throw e)"
  by (simp_all add: preserves_def triple_ret triple_throw)

lemma preserves_bind: "preserves opens R m \<Longrightarrow> (\<And>a. preserves opens R (f a)) \<Longrightarrow> preserves opens R (bind m f)"
  by (rule preservesI, rule triple_bind, erule (1) preservesD, rule preservesD)

lemma preserves_attempt: "preserves opens R m \<Longrightarrow> preserves opens R (attempt m)"
  by (rule preservesI, rule triple_attempt, rule preservesD)

lemma preserves_if: "preserves opens R m \<Longrightarrow> preserves opens R m' \<Longrightarrow> preserves opens R (if b then m else m')"
  by simp

lemma preserves_sum:
  "(\<And>e. preserves opens R (f e)) \<Longrightarrow> (\<And>a. preserves opens R (g a)) \<Longrightarrow>
   preserves opens R (case r of Inl e \<Rightarrow> f e | Inr a \<Rightarrow> g a)"
  by (simp split: sum.split)

lemma preserves_state: "(\<And>w. preserves opens R (f w)) \<Longrightarrow> preserves opens R (\<lambda>w. f w w)"
  unfolding preserves_def triple_def by blast

lemma preserves_kernel: "keeps opens m \<Longrightarrow> preserves opens R (on_kernel m)"
proof (rule preservesI)
  fix w :: "'a world"
  assume m: "keeps opens m" and w: "ledger opens R w"
  obtain r k where r: "m (kst w) = (r, k)" by fastforce
  have "ledger opens R (w\<lparr>kst := k\<rparr>)"
    using ledger_same [of w "w\<lparr>kst := k\<rparr>"] keepsD [OF m r] w by (simp add: same_heap_def)
  then show "triple (on_kernel m) w (\<lambda>_. ledger opens R) (\<lambda>_. ledger opens R)"
    using r by (simp add: triple_def on_kernel_def)
qed

lemma preserves_arc_clone: "preserves opens R (arc_clone a)"
proof (rule preservesI)
  fix w :: "'a world"
  assume w: "ledger opens R w"
  show "triple (arc_clone a) w (\<lambda>_. ledger opens R) (\<lambda>_. ledger opens R)"
    using ledger_recount [OF w, of a] by (auto simp: triple_def arc_clone_def split: option.splits)
qed

lemma preserves_arc_get: "preserves opens R (arc_get a)"
  by (auto simp: preserves_def triple_def arc_get_def split: option.splits)

lemmas preserves_intros = preserves_basic preserves_bind preserves_attempt preserves_if preserves_sum
  preserves_kernel preserves_arc_clone preserves_arc_get

lemma preserves_insert_group: "preserves opens R (insert_group gid a)"
  unfolding insert_group_def
  by (intro preserves_bind preserves_arc_clone) (simp add: preserves_def triple_def)

context fd_calls
begin

lemma preserves_arc_drop: "preserves opens R (arc_drop E a)"
proof (rule preservesI)
  fix w :: "'k world"
  assume w: "ledger opens R w"
  show "triple (arc_drop E a) w (\<lambda>_. ledger opens R) (\<lambda>_. ledger opens R)"
  proof (cases "arcs w a")
    case (Some x)
    then obtain g n where g: "arcs w a = Some (g, n)" by (cases x) auto
    show ?thesis
      using ledger_free [OF w g, of "k_close (env_kernel E) (grp_group g) (kst w)"] ledger_recount [OF w g, of "n - 1"]
        g by (simp add: triple_def arc_drop_def close_opens)
  qed (simp add: triple_def arc_drop_def)
qed

lemma preserves_fail_bound: "preserves opens R (fail_bound E C a g e)"
  unfolding fail_bound_def by (intro preserves_intros preserves_arc_drop sys_keeps)

lemma preserves_fail_unbound: "preserves opens R (fail_unbound E a e)"
  unfolding fail_unbound_def by (intro preserves_intros preserves_arc_drop)

lemma preserves_remove_group: "preserves opens R (remove_group E gid)"
proof (rule preservesI)
  fix w :: "'k world"
  assume w: "ledger opens R w"
  show "triple (remove_group E gid) w (\<lambda>_. ledger opens R) (\<lambda>_. ledger opens R)"
  proof (cases "hm_get (groups w) gid")
    case (Some a)
    have "triple (arc_drop E a) (w\<lparr>groups := hm_remove gid (groups w)\<rparr>) (\<lambda>_. ledger opens R) (\<lambda>_. ledger opens R)"
      using w by (intro preservesD [OF preserves_arc_drop]) simp
    then show ?thesis using Some by (simp add: triple_def remove_group_def)
  qed (use w in \<open>simp add: triple_def remove_group_def\<close>)
qed

lemma preserves_put_group_locked: "preserves opens R (put_group_locked E C a)"
proof -
  have m: "preserves opens R (bind (arc_get a) (\<lambda>g.
        bind (attempt (if hypervisor E then on_kernel (device_del_group E C g) else ret ())) (\<lambda>r. case r of
          Inl _ \<Rightarrow> ret ()
        | Inr _ \<Rightarrow>
        bind (attempt (on_kernel (sys_unset_group_container (env_sys E) (grp_group g) (ct_container C)))) (\<lambda>r. case r of
          Inl _ \<Rightarrow> ret ()
        | Inr _ \<Rightarrow> remove_group E (grp_id g)))))"
    by (intro preserves_intros preserves_remove_group sys_keeps device_group_keeps)
  show ?thesis
  proof (rule preservesI)
    fix w :: "'k world"
    assume w: "ledger opens R w"
    show "triple (put_group_locked E C a) w (\<lambda>_. ledger opens R) (\<lambda>_. ledger opens R)"
      using preservesD [OF m w] w
      by (cases "strong_count a w = 3") (simp_all only: triple_def put_group_locked_def simp_thms if_True if_False prod.inject, blast+)
  qed
qed

lemma preserves_put_group: "preserves opens R (put_group E C a)"
  unfolding put_group_def by (intro preserves_bind preserves_put_group_locked preserves_arc_drop)

lemma preserves_attach_rest:
  "preserves opens R (bind (attempt (if b then on_kernel (set_iommu E C v) else ret ())) (\<lambda>r. case r of
       Inl e \<Rightarrow> fail_bound E C a g e
     | Inr _ \<Rightarrow>
     bind (attempt (if hypervisor E then on_kernel (device_add_group E C g) else ret ())) (\<lambda>r. case r of
       Inl e \<Rightarrow> fail_bound E C a g e
     | Inr _ \<Rightarrow> insert_group gid a)))"
  by (intro preserves_intros preserves_fail_bound preserves_insert_group set_iommu_keeps device_group_keeps)

lemma attach_group_ledger:
  assumes "ledger opens (insert (grp_group g) R) w" "grp_group g \<notin> R"
  shows "triple (attach_group E C gid g) w (\<lambda>_. ledger opens R) (\<lambda>_. ledger opens R)"
  unfolding attach_group_def
proof (rule triple_bind [where R = "\<lambda>_. ledger opens R"])
  show "triple (arc_new g) w (\<lambda>_. ledger opens R) (\<lambda>_. ledger opens R)"
    using ledger_new [OF assms, of 1] by (simp add: triple_def arc_new_def)
  fix a w1
  assume w1: "ledger opens R w1"
  note set = preserves_attempt [OF preserves_kernel [OF sys_keeps(5)]]
  note rest = preserves_state [OF preserves_attach_rest]
  show "triple (bind (attempt (on_kernel (sys_set_group_container (env_sys E) (grp_group g) (ct_container C)))) (\<lambda>r. case r of
       Inl e \<Rightarrow> fail_unbound E a e
     | Inr _ \<Rightarrow> (\<lambda>w.
     bind (attempt (if hm_len (groups w) = 0 then on_kernel (set_iommu E C VFIO_TYPE1v2_IOMMU) else ret ())) (\<lambda>r. case r of
       Inl e \<Rightarrow> fail_bound E C a g e
     | Inr _ \<Rightarrow>
     bind (attempt (if hypervisor E then on_kernel (device_add_group E C g) else ret ())) (\<lambda>r. case r of
       Inl e \<Rightarrow> fail_bound E C a g e
     | Inr _ \<Rightarrow> insert_group gid a)) w))) w1 (\<lambda>_. ledger opens R) (\<lambda>_. ledger opens R)"
    by (rule preservesD [OF preserves_bind [OF set preserves_sum] w1], rule preserves_fail_unbound, rule rest)
qed

text \<open>A kernel call that opens a descriptor puts it on the ledger.\<close>

lemma acquires_ledger:
  assumes "acquires opens fd_of m" "ledger opens R w"
  shows "triple (on_kernel m) w (\<lambda>a w'. fd_of a \<notin> R \<and> ledger opens (insert (fd_of a) R) w') (\<lambda>_. ledger opens R)"
proof -
  obtain r k where r: "m (kst w) = (r, k)" by fastforce
  have t: "triple m (kst w) (\<lambda>a k'. fd_of a \<notin> opens (kst w) \<and> opens k' = insert (fd_of a) (opens (kst w)))
      (\<lambda>_ k'. opens k' = opens (kst w))" using assms(1) by (simp add: acquires_def)
  show ?thesis
  proof (rule tripleI)
    fix a w'
    assume "on_kernel m w = (Ok a, w')"
    then have "r = Ok a" "w' = w\<lparr>kst := k\<rparr>" using r by (simp_all add: on_kernel_def)
    then show "fd_of a \<notin> R \<and> ledger opens (insert (fd_of a) R) w'"
      using triple_OkD [OF t] r assms(2) by (auto simp: ledger_def)
  next
    fix e w'
    assume "on_kernel m w = (Err e, w')"
    then have "r = Err e" "w' = w\<lparr>kst := k\<rparr>" using r by (simp_all add: on_kernel_def)
    then show "ledger opens R w'" using triple_ErrD [OF t] r assms(2) by (simp add: ledger_def)
  qed
qed

lemma preserves_get_group: "preserves opens R (get_group E C gid)"
proof (rule preservesI)
  fix w :: "'k world"
  assume w: "ledger opens R w"
  show "triple (get_group E C gid) w (\<lambda>_. ledger opens R) (\<lambda>_. ledger opens R)"
  proof (cases "hm_get (groups w) gid")
    case None
    have "triple (bind (on_kernel (VfioGroup_new E gid)) (attach_group E C gid)) w (\<lambda>_. ledger opens R) (\<lambda>_. ledger opens R)"
      by (rule triple_bind [OF acquires_ledger [OF VfioGroup_new_acquires w]]) (auto intro: attach_group_ledger)
    then show ?thesis using None by (simp add: triple_def get_group_def)
  next
    case (Some a)
    then show ?thesis using preservesD [OF preserves_arc_clone w, of a] by (simp add: triple_def get_group_def)
  qed
qed

lemma fail_with_group_ledger:
  "ledger opens R w \<Longrightarrow> triple (fail_with_group E a e) w Q (\<lambda>_. ledger opens R)"
  unfolding fail_with_group_def
  by (rule triple_bind [OF preservesD [OF preserves_arc_drop]], assumption, rule triple_throw)

text \<open>Closing a descriptor of \<open>R\<close>.\<close>

lemma close_ledger:
  assumes "ledger opens (insert f R) w" "f \<notin> R"
  shows "triple (on_kernel (close_file E f)) w (\<lambda>_. ledger opens R) X"
  using ledger_close [OF assms, of "k_close (env_kernel E) f (kst w)"]
  by (simp add: triple_def on_kernel_def close_file_def close_opens)

lemma fail_with_device_ledger:
  assumes "ledger opens (insert (vdi_device info) R) w" "vdi_device info \<notin> R"
  shows "triple (fail_with_device E a info e) w Q (\<lambda>_. ledger opens R)"
  unfolding fail_with_device_def
  by (rule triple_bind [OF close_ledger [OF assms]], rule fail_with_group_ledger)

lemma read_device_ledger:
  assumes "ledger opens (insert (vdi_device info) R) w" "vdi_device info \<notin> R"
  shows "triple (read_device E C a info) w
    (\<lambda>dev w'. dev_device dev \<notin> R \<and> ledger opens (insert (dev_device dev) R) w') (\<lambda>_. ledger opens R)"
proof -
  note regions = preserves_attempt [OF preserves_kernel [OF get_regions_keeps]]
  note irqs = preserves_attempt [OF preserves_kernel [OF get_irqs_keeps]]
  have attempt: "triple (attempt m) w1 (\<lambda>_. ledger opens R1) X"
    if "preserves opens R1 (attempt m)" "ledger opens R1 w1" for m :: "('k world, 'b) io" and R1 w1 X
    using preservesD [OF that] by (auto simp: triple_def attempt_def split: prod.splits res.splits)
  show ?thesis
    unfolding read_device_def
  proof (rule triple_bind [OF attempt [OF regions assms(1)]], rule triple_sum, goal_cases)
    case (1 r w1 e)
    then show ?case using fail_with_device_ledger assms(2) by blast
  next
    case (2 r w1 rs)
    show ?case
    proof (rule triple_bind [OF attempt [OF irqs 2(1)]], rule triple_sum, goal_cases)
      case (1 r w1 e)
      then show ?case using fail_with_device_ledger assms(2) by blast
    next
      case 2
      then show ?case using assms(2) by (intro triple_ret) simp
    qed
  qed
qed

lemma open_in_group_ledger:
  assumes "ledger opens R w"
  shows "triple (open_in_group E C path a) w
    (\<lambda>dev w'. dev_device dev \<notin> R \<and> ledger opens (insert (dev_device dev) R) w') (\<lambda>_. ledger opens R)"
  unfolding open_in_group_def
proof (rule triple_bind [OF preservesD [OF preserves_arc_get assms]])
  fix g w1
  assume w1: "ledger opens R w1"
  have dev: "triple (attempt (on_kernel (get_device E g path))) w1
      (\<lambda>r w'. case r of Inl e \<Rightarrow> ledger opens R w'
        | Inr info \<Rightarrow> vdi_device info \<notin> R \<and> ledger opens (insert (vdi_device info) R) w') X" for X
    using acquires_ledger [OF get_device_acquires w1, of g path]
    by (cases "on_kernel (get_device E g path) w1"; cases "fst (on_kernel (get_device E g path) w1)")
      (auto simp: triple_def attempt_def)
  show "triple (bind (attempt (on_kernel (get_device E g path))) (\<lambda>r. case r of
       Inl e \<Rightarrow> fail_with_group E a e
     | Inr device_info \<Rightarrow> read_device E C a device_info)) w1
    (\<lambda>dev w'. dev_device dev \<notin> R \<and> ledger opens (insert (dev_device dev) R) w') (\<lambda>_. ledger opens R)"
  proof (rule triple_bind [OF dev])
    fix r :: "VfioError + VfioDeviceInfo" and w2
    assume r: "case r of Inl e \<Rightarrow> ledger opens R w2
        | Inr info \<Rightarrow> vdi_device info \<notin> R \<and> ledger opens (insert (vdi_device info) R) w2"
    show "triple (case r of Inl e \<Rightarrow> fail_with_group E a e | Inr info \<Rightarrow> read_device E C a info) w2
      (\<lambda>dev w'. dev_device dev \<notin> R \<and> ledger opens (insert (dev_device dev) R) w') (\<lambda>_. ledger opens R)"
    proof (cases r)
      case (Inl e)
      then show ?thesis using r fail_with_group_ledger by simp
    qed (use r read_device_ledger in simp)
  qed
qed

lemma VfioDevice_new_ledger:
  assumes "ledger opens R w"
  shows "triple (VfioDevice_new E path C) w
    (\<lambda>dev w'. dev_device dev \<notin> R \<and> ledger opens (insert (dev_device dev) R) w') (\<lambda>_. ledger opens R)"
  unfolding VfioDevice_new_split
  by (rule triple_bind [OF preservesD [OF preserves_kernel [OF get_group_id_keeps] assms]],
      rule triple_bind [OF preservesD [OF preserves_get_group]], assumption, rule open_in_group_ledger)

lemma drop_device_ledger:
  assumes "ledger opens (insert (dev_device dev) R) w" "dev_device dev \<notin> R"
  shows "triple (drop_device E dev) w (\<lambda>_. ledger opens R) (\<lambda>_. ledger opens R)"
  unfolding drop_device_def device_drop_def
  by (rule triple_bind, rule triple_bind [OF close_ledger [OF assms]],
      rule triple_bind [OF preservesD [OF preserves_arc_clone]], assumption,
      erule preservesD [OF preserves_put_group], erule preservesD [OF preserves_arc_drop])

end

section \<open>Devices in every interleaving\<close>

text \<open>The descriptor a process owns: that of the device it reads, abandons, or has.\<close>

fun phase_fd :: "phase \<Rightarrow> fd option" where
  "phase_fd (Reading _ info) = Some (vdi_device info)"
| "phase_fd (Probing _ info _) = Some (vdi_device info)"
| "phase_fd (Abandoning _ info) = Some (vdi_device info)"
| "phase_fd (Live dev) = Some (dev_device dev)"
| "phase_fd _ = None"

definition dev_fds :: "phase list \<Rightarrow> nat \<rightharpoonup> fd" where
  "dev_fds ps i = (if i < length ps then phase_fd (ps ! i) else None)"

definition fd_inv :: "('k \<Rightarrow> fd set) \<Rightarrow> fd set \<Rightarrow> phase list \<times> 'k world \<Rightarrow> bool" where
  "fd_inv opens R s \<longleftrightarrow> (case s of (ps, w) \<Rightarrow>
     inj_on (dev_fds ps) (dom (dev_fds ps)) \<and> R \<inter> ran (dev_fds ps) = {} \<and> ledger opens (R \<union> ran (dev_fds ps)) w)"

lemma dev_fds_update: "i < length ps \<Longrightarrow> dev_fds (ps[i := p]) = (dev_fds ps)(i := phase_fd p)"
  by (auto simp: dev_fds_def fun_eq_iff nth_list_update)

lemma fd_inv_same:
  assumes "fd_inv opens R (ps, w)" "i < length ps" "phase_fd p = phase_fd (ps ! i)"
    "ledger opens (R \<union> ran (dev_fds ps)) w \<Longrightarrow> ledger opens (R \<union> ran (dev_fds ps)) w'"
  shows "fd_inv opens R (ps[i := p], w')"
proof -
  have "dev_fds (ps[i := p]) = dev_fds ps"
    using assms(2,3) by (simp add: dev_fds_update fun_eq_iff) (simp add: dev_fds_def)
  then show ?thesis using assms(1,4) by (simp add: fd_inv_def)
qed

lemma fd_inv_open:
  assumes "fd_inv opens R (ps, w)" "i < length ps" "phase_fd (ps ! i) = None" "phase_fd p = Some f"
    "f \<notin> R \<union> ran (dev_fds ps)" "ledger opens (insert f (R \<union> ran (dev_fds ps))) w'"
  shows "fd_inv opens R (ps[i := p], w')"
proof -
  have fds: "dev_fds (ps[i := p]) = (dev_fds ps)(i \<mapsto> f)" and none: "dev_fds ps i = None"
    using assms(2-4) dev_fds_update [OF assms(2), of p] by (simp_all add: dev_fds_def)
  have "ran (dev_fds (ps[i := p])) = insert f (ran (dev_fds ps))" using none by (simp add: fds)
  moreover have "inj_on (dev_fds (ps[i := p])) (dom (dev_fds (ps[i := p])))"
    unfolding fds by (rule inj_on_map_upd) (use assms(1,5) in \<open>simp_all add: fd_inv_def\<close>)
  ultimately show ?thesis using assms(1,5,6) by (simp add: fd_inv_def)
qed

lemma fd_inv_close:
  assumes "fd_inv opens R (ps, w)" "i < length ps" "phase_fd (ps ! i) = Some f" "phase_fd p = None"
    "\<And>R'. ledger opens (insert f R') w \<Longrightarrow> f \<notin> R' \<Longrightarrow> ledger opens R' w'"
  shows "fd_inv opens R (ps[i := p], w')"
proof -
  have fds: "dev_fds (ps[i := p]) = (dev_fds ps)(i := None)" and own: "dev_fds ps i = Some f"
    using assms(2-4) dev_fds_update [OF assms(2), of p] by (simp_all add: dev_fds_def)
  have inj: "inj_on (dev_fds ps) (dom (dev_fds ps))" and R: "R \<inter> ran (dev_fds ps) = {}"
    and l: "ledger opens (R \<union> ran (dev_fds ps)) w" using assms(1) by (simp_all add: fd_inv_def)
  have ran: "ran (dev_fds (ps[i := p])) = ran (dev_fds ps) - {f}" unfolding fds by (rule ran_remove [OF inj own])
  have f: "f \<in> ran (dev_fds ps)" using own by (auto simp: ran_def)
  then have "R \<union> ran (dev_fds ps) = insert f (R \<union> (ran (dev_fds ps) - {f}))" by blast
  then have "ledger opens (R \<union> (ran (dev_fds ps) - {f})) w'" using l f R by (intro assms(5)) auto
  moreover have "inj_on (dev_fds (ps[i := p])) (dom (dev_fds (ps[i := p])))"
    unfolding fds using inj by (auto simp: inj_on_def dom_def)
  ultimately show ?thesis using R ran by (auto simp: fd_inv_def)
qed

context fd_calls
begin

lemma preserves_Ok: "preserves opens R m \<Longrightarrow> m w = (Ok a, w') \<Longrightarrow> ledger opens R w \<Longrightarrow> ledger opens R w'"
  and preserves_Err: "preserves opens R m \<Longrightarrow> m w = (Err e, w') \<Longrightarrow> ledger opens R w \<Longrightarrow> ledger opens R w'"
  unfolding preserves_def triple_def by blast+

lemma step_fd_inv: "step E C s s' \<Longrightarrow> fd_inv opens R s \<Longrightarrow> fd_inv opens R s'"
proof (induction rule: step.induct)
  case (step i ps w p' w')
  note same = fd_inv_same [OF step(3,1), of p' w']
  have l: "ledger opens (R \<union> ran (dev_fds ps)) w" using step(3) by (simp add: fd_inv_def)
  from step(2) show ?case
  proof (cases rule: proc_step.cases)
    case (device a g path info)
    then show ?thesis
      using triple_OkD [OF acquires_ledger [OF get_device_acquires l] device(4)]
      by (intro fd_inv_open [OF step(3,1), of _ "vdi_device info"]) simp_all
  next
    case (device_fails a g path e)
    then show ?thesis
      using triple_ErrD [OF acquires_ledger [OF get_device_acquires] device_fails(4)] by (intro same) simp_all
  next
    case (regions info rs a)
    then show ?thesis
      using preserves_Ok [OF preserves_kernel [OF get_regions_keeps] regions(3)] by (intro same) simp_all
  next
    case (regions_fail info e a)
    then show ?thesis
      using preserves_Err [OF preserves_kernel [OF get_regions_keeps] regions_fail(3)] by (intro same) simp_all
  next
    case (irqs info irqs a rs)
    then show ?thesis
      using preserves_Ok [OF preserves_kernel [OF get_irqs_keeps] irqs(3)] by (intro same) simp_all
  next
    case (irqs_fail info e a rs)
    then show ?thesis
      using preserves_Err [OF preserves_kernel [OF get_irqs_keeps] irqs_fail(3)] by (intro same) simp_all
  next
    case (abandon info a)
    then show ?thesis using triple_OkD [OF close_ledger abandon(3)]
      by (intro fd_inv_close [OF step(3,1), of "vdi_device info"]) simp_all
  next
    case (release a)
    then show ?thesis using preserves_Ok [OF preserves_arc_drop release(3)] by (intro same) simp_all
  next
    case (close dev)
    then show ?thesis using triple_OkD [OF close_ledger close(3)]
      by (intro fd_inv_close [OF step(3,1), of "dev_device dev"]) simp_all
  next
    case (clone dev a)
    then show ?thesis using preserves_Ok [OF preserves_arc_clone clone(3)] by (intro same) simp_all
  next
    case (acquire gid a)
    then show ?thesis using preserves_Ok [OF preserves_get_group acquire(3)] by (intro same) simp_all
  next
    case (acquire_fails gid e)
    then show ?thesis using preserves_Err [OF preserves_get_group acquire_fails(3)] by (intro same) simp_all
  next
    case (put dev)
    then show ?thesis using preserves_Ok [OF preserves_put_group_locked put(3)] by (intro same) simp_all
  next
    case (drop_argument dev)
    then show ?thesis using preserves_Ok [OF preserves_arc_drop drop_argument(3)] by (intro same) simp_all
  next
    case (drop_field dev)
    then show ?thesis using preserves_Ok [OF preserves_arc_drop drop_field(3)] by (intro same) simp_all
  qed
qed

lemma steps_fd_inv: "(step E C)\<^sup>*\<^sup>* s s' \<Longrightarrow> fd_inv opens R s \<Longrightarrow> fd_inv opens R s'"
  by (induction rule: rtranclp_induct) (auto intro: step_fd_inv)

end

definition new_world :: "'k \<Rightarrow> 'k world" where
  "new_world k = \<lparr>kst = k, arcs = (\<lambda>_. None), next_arc = 0, groups = hm_new\<rparr>"

lemma fd_inv_new: "fd_inv opens (opens k) (replicate n Idle, new_world k)"
proof -
  have "dev_fds (replicate n Idle) = (\<lambda>_. None)" by (simp add: dev_fds_def fun_eq_iff)
  moreover have "grp_fds (new_world k) = (\<lambda>_. None)" by (simp add: grp_fds_def new_world_def fun_eq_iff)
  ultimately show ?thesis by (simp add: fd_inv_def ledger_def new_world_def)
qed

section \<open>Dropping the container\<close>

text \<open>
  \<open>VfioContainer\<close> has no \<open>Drop\<close> of its own: its fields are dropped in the order of their declaration.
  Closing \<open>container\<close> comes first, then the reference to the hypervisor's device, which closes it if it
  was the last one, then the references in the table, in the order in which the map yields them.
\<close>

fun drop_arcs :: "'k env \<Rightarrow> arc list \<Rightarrow> ('k world, unit) io" where
  "drop_arcs E [] = ret ()"
| "drop_arcs E (a # as) = bind (arc_drop E a) (\<lambda>_. drop_arcs E as)"

fun handle_fd :: "VfioDeviceFd \<Rightarrow> fd" where
  "handle_fd (Kvm f) = f"
| "handle_fd (Mshv f) = f"

definition drop_handle :: "'k env \<Rightarrow> bool \<Rightarrow> VfioDeviceFd option \<Rightarrow> ('k, unit) io" where
  "drop_handle E lst h =
     (case h of Some d \<Rightarrow> if lst then close_file E (handle_fd d) else ret () | None \<Rightarrow> ret ())"

definition drop_container :: "'k env \<Rightarrow> bool \<Rightarrow> arc list \<Rightarrow> VfioContainer \<Rightarrow> ('k world, unit) io" where
  "drop_container E lst order C =
     bind (on_kernel (close_file E (ct_container C))) (\<lambda>_.
     bind (on_kernel (drop_handle E lst (ct_device_fd C))) (\<lambda>_.
     bind (drop_arcs E order) (\<lambda>_. \<lambda>w. (Ok (), w\<lparr>groups := hm_new\<rparr>))))"

text \<open>With no reference held outside, the table's references are all there are, one to each group.\<close>

lemma table_refs:
  assumes "refs_ok (\<lambda>_. 0) w"
  shows "distinct (map snd (groups w))" "a \<in> set (map snd (groups w)) \<longleftrightarrow> (\<exists>g. arcs w a = Some (g, 1))"
    "arcs w a = None \<or> (\<exists>g. arcs w a = Some (g, 1))"
proof -
  have inv: "distinct (map fst (groups w))" using refs_okD(1) [OF assms] by (simp add: hm_inv_def)
  have get: "hm_get (groups w) gid = Some a \<longleftrightarrow> (gid, a) \<in> set (groups w)" for gid a
    unfolding hm_get_def using inv by (rule map_of_eq_Some_iff)
  have cell: "(\<forall>gid. (gid, b) \<notin> set (groups w)) \<and> arcs w b = None \<or>
      (\<exists>g. (\<forall>gid. (gid, b) \<in> set (groups w) \<longleftrightarrow> gid = grp_id g) \<and> arcs w b = Some (g, 1))" for b
  proof (cases "arcs w b")
    case None
    then show ?thesis using refs_okD(3) [OF assms, of b] by (simp add: get)
  next
    case (Some x)
    then obtain g n where g: "arcs w b = Some (g, n)" by (cases x) auto
    then have "0 < n \<and> n = (if (grp_id g, b) \<in> set (groups w) then 1 else 0) \<and>
        (\<forall>gid. (gid, b) \<in> set (groups w) \<longrightarrow> gid = grp_id g)"
      using refs_okD(3) [OF assms, of b] by (simp add: get)
    then have "n = 1" "\<forall>gid. (gid, b) \<in> set (groups w) \<longleftrightarrow> gid = grp_id g"
      by (metis less_irrefl)+
    then show ?thesis using g by blast
  qed
  have "x = y" if "x \<in> set (groups w)" "y \<in> set (groups w)" "snd x = snd y" for x y
    using cell [of "snd x"] that by (metis prod.collapse)
  then have "inj_on snd (set (groups w))" by (intro inj_onI)
  then show "distinct (map snd (groups w))" using inv by (simp add: distinct_map)
  show "a \<in> set (map snd (groups w)) \<longleftrightarrow> (\<exists>g. arcs w a = Some (g, 1))" using cell [of a] by force
  show "arcs w a = None \<or> (\<exists>g. arcs w a = Some (g, 1))" using cell [of a] by blast
qed

lemma drop_arcs_frees:
  "distinct as \<Longrightarrow> \<forall>a\<in>set as. \<exists>g. arcs w a = Some (g, 1) \<Longrightarrow>
   \<exists>w'. drop_arcs E as w = (Ok (), w') \<and> arcs w' = (\<lambda>a. if a \<in> set as then None else arcs w a) \<and>
     next_arc w' = next_arc w"
proof (induction "as" arbitrary: w)
  case (Cons a "as")
  obtain g where g: "arcs w a = Some (g, 1)" using Cons.prems(2) by auto
  define w1 where "w1 = w\<lparr>arcs := (arcs w)(a := None), kst := k_close (env_kernel E) (grp_group g) (kst w)\<rparr>"
  have d: "arc_drop E a w = (Ok (), w1)" using g by (simp add: arc_drop_def w1_def)
  have w1: "arcs w1 = (arcs w)(a := None)" "next_arc w1 = next_arc w" by (simp_all add: w1_def)
  have "\<forall>b\<in>set as. \<exists>g. arcs w1 b = Some (g, 1)" using Cons.prems w1(1) by (metis distinct.simps(2) fun_upd_other list.set_intros(2))
  then obtain w' where "drop_arcs E as w1 = (Ok (), w')" "arcs w' = (\<lambda>a. if a \<in> set as then None else arcs w1 a)"
    "next_arc w' = next_arc w1"
    using Cons.IH [of w1] Cons.prems w1 by auto
  then show ?case using d w1 Cons.prems(1) by (auto simp: bind_def fun_eq_iff)
qed (simp add: ret_def)

lemma drop_container_frees:
  fixes w :: "'k world"
  assumes "refs_ok (\<lambda>_. 0) w" "mset order = mset (map snd (groups w))"
  shows "\<exists>w'. drop_container E lst order C w = (Ok (), w') \<and> arcs w' = (\<lambda>_. None) \<and> groups w' = hm_new"
proof -
  have c: "on_kernel (close_file E (ct_container C)) w =
      (Ok (), w\<lparr>kst := k_close (env_kernel E) (ct_container C) (kst w)\<rparr>)"
    by (simp add: on_kernel_def close_file_def)
  obtain k where k: "on_kernel (drop_handle E lst (ct_device_fd C))
      (w\<lparr>kst := k_close (env_kernel E) (ct_container C) (kst w)\<rparr>) = (Ok (), w\<lparr>kst := k\<rparr>)"
    by (cases "ct_device_fd C"; cases lst) (auto simp: on_kernel_def close_file_def drop_handle_def ret_def)
  have set: "set order = set (map snd (groups w))" "distinct order"
    using assms(2) table_refs(1) [OF assms(1)] mset_eq_setD mset_eq_imp_distinct_iff by blast+
  have "\<forall>a\<in>set order. \<exists>g. arcs (w\<lparr>kst := k\<rparr>) a = Some (g, 1)"
    using table_refs(2) [OF assms(1)] set(1) by simp
  from drop_arcs_frees [OF set(2) this, of E]
  obtain w' where w': "drop_arcs E order (w\<lparr>kst := k\<rparr>) = (Ok (), w')"
      "arcs w' = (\<lambda>a. if a \<in> set order then None else arcs w a)"
    by (auto cong: if_cong)
  have "arcs w' = (\<lambda>_. None)"
    using w'(2) table_refs(2,3) [OF assms(1)] set(1) by (metis (no_types, lifting))
  moreover have "drop_container E lst order C w = (Ok (), w'\<lparr>groups := hm_new\<rparr>)"
    using c k w'(1) by (simp add: drop_container_def bind_def)
  ultimately show ?thesis by auto
qed

context fd_calls
begin

lemma preserves_drop_arcs: "preserves opens R (drop_arcs E as)"
  by (induction "as") (simp_all add: preserves_bind preserves_arc_drop)

lemma drop_handle_ledger:
  assumes "ledger opens R w" "\<And>d. h = Some d \<Longrightarrow> handle_fd d \<in> R"
  shows "triple (on_kernel (drop_handle E lst h)) w
    (\<lambda>_. ledger opens (R - (if lst then handle_fd ` set_option h else {}))) X"
proof (cases "lst \<and> h \<noteq> None")
  case True
  then obtain d where d: "h = Some d" "lst" by blast
  have "insert (handle_fd d) (R - {handle_fd d}) = R" using assms(2) d(1) by blast
  then have "ledger opens (insert (handle_fd d) (R - {handle_fd d})) w" using assms(1) by simp
  from close_ledger [OF this] show ?thesis using d by (simp add: drop_handle_def)
next
  case False
  then show ?thesis using assms(1)
    by (cases h) (auto simp: drop_handle_def triple_def on_kernel_def ret_def)
qed

lemma drop_container_ledger:
  assumes "ledger opens (insert (ct_container C) R) w" "ct_container C \<notin> R"
    "\<And>d. ct_device_fd C = Some d \<Longrightarrow> handle_fd d \<in> R"
  shows "triple (drop_container E lst order C) w
    (\<lambda>_. ledger opens (R - (if lst then handle_fd ` set_option (ct_device_fd C) else {}))) (\<lambda>_ _. True)"
  unfolding drop_container_def
proof (rule triple_bind [OF close_ledger [OF assms(1,2)]], rule triple_bind [OF drop_handle_ledger], assumption,
    erule assms(3), rule triple_bind)
  fix w1
  let ?R = "R - (if lst then handle_fd ` set_option (ct_device_fd C) else {})"
  assume "ledger opens ?R w1"
  then show "triple (drop_arcs E order) w1 (\<lambda>_. ledger opens ?R) (\<lambda>_ _. True)"
    by (rule triple_conseq [OF preservesD [OF preserves_drop_arcs]]) auto
qed (simp add: triple_def)

end

lemma ledger_empty: "ledger opens R w \<Longrightarrow> arcs w = (\<lambda>_. None) \<Longrightarrow> opens (kst w) = R"
  by (simp add: ledger_def grp_fds_def [abs_def])

lemma steps_reachable: "(step E C)\<^sup>*\<^sup>* (replicate n Idle, new_world k) s \<Longrightarrow> reachable E C n s"
  by (induction rule: rtranclp_induct) (auto intro: reachable.intros simp: new_world_def)

section \<open>Properties\<close>

text \<open>
  C4: the open descriptors are exactly the owned ones. Threads that open and drop devices on a fresh
  container are interleaved in any way, with calls failing at any point; then the open descriptors of
  the process are those it had at the start, one for each device that is live, being read or abandoned
  after an error, and one for each allocated group, and no descriptor has two owners.
\<close>

theorem descriptors_exact:
  assumes "fd_law E opens" "(step E C)\<^sup>*\<^sup>* (replicate n Idle, new_world k) (ps, w)"
  shows "opens (kst w) = opens k \<union> ran (dev_fds ps) \<union> ran (grp_fds w) \<and>
    opens k \<inter> ran (dev_fds ps) = {} \<and> (opens k \<union> ran (dev_fds ps)) \<inter> ran (grp_fds w) = {} \<and>
    inj_on (dev_fds ps) (dom (dev_fds ps)) \<and> inj_on (grp_fds w) (dom (grp_fds w))"
proof -
  have "fd_inv opens (opens k) (ps, w)"
    using fd_calls.steps_fd_inv [OF fd_calls.intro [OF assms(1)] assms(2) fd_inv_new] .
  then show ?thesis by (auto simp: fd_inv_def ledger_def)
qed

text \<open>
  C16: opening a device opens one descriptor besides its group's, and a failing \<open>VfioDevice::new\<close>
  none: when the open descriptors are the caller's \<open>R\<close> and those of the groups, they are afterwards
  those of \<open>R\<close>, the new device's and the groups', whatever went wrong in between, and dropping the
  device closes the new descriptor again.
\<close>

theorem device_descriptors_balanced:
  assumes "fd_law E opens" "ledger opens R w" "VfioDevice_new E path C w = (r, w1)"
  shows "case r of
      Ok dev \<Rightarrow> dev_device dev \<notin> R \<and> ledger opens (insert (dev_device dev) R) w1 \<and>
        (\<forall>w2. drop_device E dev w1 = (Ok (), w2) \<longrightarrow> ledger opens R w2)
    | Err e \<Rightarrow> ledger opens R w1
    | _ \<Rightarrow> True"
proof -
  note t = fd_calls.VfioDevice_new_ledger [OF fd_calls.intro [OF assms(1)] assms(2), of path C]
  show ?thesis
  proof (cases r)
    case (Ok dev)
    then have new: "dev_device dev \<notin> R" "ledger opens (insert (dev_device dev) R) w1"
      using triple_OkD [OF t] assms(3) by blast+
    moreover have "ledger opens R w2" if "drop_device E dev w1 = (Ok (), w2)" for w2
      using triple_OkD [OF fd_calls.drop_device_ledger [OF fd_calls.intro [OF assms(1)] new(2,1)] that] .
    ultimately show ?thesis using Ok by simp
  qed (use triple_ErrD [OF t] assms(3) in auto)
qed

text \<open>
  C3: nothing is leaked over the life of a container. It is opened, used by any number of threads in
  any interleaving, with calls failing at any point, until every device is gone, and dropped, in
  whatever order the table yields its groups. Dropping it returns, every group is freed, also one that
  two racing drops or a failed open left in the table, and the open descriptors are those from before
  the container was opened, less the hypervisor's if the container had the last reference to it.
\<close>

theorem container_life_leaks_nothing:
  assumes "fd_law E opens" "VfioContainer_new E device_fd k0 = (Ok C, k1)"
    "\<forall>d. device_fd = Some d \<longrightarrow> handle_fd d \<in> opens k0"
    "(step E C)\<^sup>*\<^sup>* (replicate n Idle, new_world k1) (ps, w)" "\<forall>p\<in>set ps. p = Idle \<or> p = Gone"
    "mset order = mset (map snd (groups w))"
  shows "\<exists>w'. drop_container E lst order C w = (Ok (), w') \<and> arcs w' = (\<lambda>_. None) \<and>
    opens (kst w') = opens k0 - (if lst then handle_fd ` set_option device_fd else {})"
proof -
  note L = fd_calls.intro [OF assms(1)]
  have new: "ct_container C \<notin> opens k0" "opens k1 = insert (ct_container C) (opens k0)"
    using fd_calls.VfioContainer_new_acquires [OF L, of device_fd] assms(2) by (auto simp: acquires_def triple_def)
  have dfd: "ct_device_fd C = device_fd"
    using assms(2) by (auto simp: VfioContainer_new_def Let_def bind_Ok_iff throw_def ret_def split: sum.splits)
      (metis old.unit.exhaust sum.exhaust)
  have "refs_ok (held ps) w" using lc_inv_refs [OF reachable_inv [OF steps_reachable [OF assms(4)]]] .
  moreover have "held ps = (\<lambda>_. 0)" using assms(5) by (auto simp: held_def fun_eq_iff)
  ultimately obtain w' where w': "drop_container E lst order C w = (Ok (), w')" "arcs w' = (\<lambda>_. None)"
    using drop_container_frees [of w order E lst C] assms(6) by auto
  have "phase_fd p = None" if "p \<in> set ps" for p using assms(5) that by auto
  then have "dev_fds ps = (\<lambda>_. None)" by (simp add: dev_fds_def fun_eq_iff)
  then have "ledger opens (insert (ct_container C) (opens k0)) w"
    using fd_calls.steps_fd_inv [OF L assms(4) fd_inv_new] new(2) by (simp add: fd_inv_def)
  from triple_OkD [OF fd_calls.drop_container_ledger [OF L this new(1)] w'(1), unfolded dfd] assms(3)
  have "ledger opens (opens k0 - (if lst then handle_fd ` set_option device_fd else {})) w'" by blast
  then show ?thesis using w' ledger_empty by blast
qed

end
