(* ===== verification/Descriptor_Table.thy ===== *)
theory Descriptor_Table
  imports Descriptors Unit_Tests
begin

text \<open>
  A kernel with a table of descriptors that hands out the lowest free one, as POSIX requires. It keeps
  the law of \<open>Descriptors\<close>, so the ledger is interpreted on it with both versions of \<open>vfio_syscall\<close>, and the
  properties of \<open>Descriptors\<close> are applied to runs on it.
\<close>

section \<open>The table\<close>

definition lowest_free :: "fd list \<Rightarrow> fd option" where
  "lowest_free t = find (\<lambda>f. f \<notin> set t) [0, 1, 2, 3, 4, 5, 6, 7]"

definition fdt_open :: "fd list \<Rightarrow> (io_error + fd) \<times> fd list" where
  "fdt_open t = (case lowest_free t of None \<Rightarrow> (Inl 24, t) | Some f \<Rightarrow> (Inr f, f # t))"

definition fdt_kernel :: "fd list kernel" where
  "fdt_kernel = \<lparr>
     k_ioctl = (\<lambda>f nr arg t. if nr = 15210
       then (case fdt_open t of
           (Inl e, t') \<Rightarrow> (\<lparr>io_ret = - 1, io_errno = 24, io_buf = []\<rparr>, t')
         | (Inr g, t') \<Rightarrow> (\<lparr>io_ret = g, io_errno = 0, io_buf = []\<rparr>, t'))
       else (\<lparr>io_ret = 0, io_errno = 0, io_buf = []\<rparr>, t)),
     k_io_nr = (\<lambda>ty nr. push_bit 8 (ucast ty) OR ucast nr),
     k_open = (\<lambda>path. fdt_open),
     k_close = (\<lambda>f t. removeAll f t),
     k_read_link = (\<lambda>path t. (Inr ''/sys/kernel/iommu_groups/3'', t)),
     k_pread = (\<lambda>f n off t. (Inr (replicate n 0), t)),
     k_pwrite = (\<lambda>f bs off t. (Inr (length bs), t)),
     k_dup = (\<lambda>f t. (- 1, t)),
     k_last_errno = (\<lambda>t. 22),
     k_tempfile = (\<lambda>t. (Some ''/tmp/file'', t)),
     k_set_device_attr = (\<lambda>f attr t. (Inr (), t)),
     k_kvm_group = 1, k_kvm_group_add = 1, k_kvm_group_del = 2,
     k_mshv_group = 1, k_mshv_group_add = 1, k_mshv_group_del = 2\<rparr>"

lemma fdt_kernel_simps [simp]:
  "k_open fdt_kernel path = fdt_open" "k_close fdt_kernel f t = removeAll f t"
  "k_tempfile fdt_kernel t = (Some ''/tmp/file'', t)"
  "k_read_link fdt_kernel path t = (Inr ''/sys/kernel/iommu_groups/3'', t)"
  "k_set_device_attr fdt_kernel f attr t = (Inr (), t)"
  by (simp_all add: fdt_kernel_def)

lemma lowest_free_Some:
  assumes "lowest_free t = Some f"
  shows "f \<notin> set t" "0 \<le> sint f"
proof -
  have "f \<in> set [0, 1, 2, 3, 4, 5, 6, 7] \<and> f \<notin> set t"
    using assms unfolding lowest_free_def find_Some_iff by (metis nth_mem)
  then show "f \<notin> set t" "0 \<le> sint f" by auto
qed

lemma fdt_request: "VFIO_GROUP_GET_DEVICE_FD fdt_kernel = 15210"
  by (simp add: VFIO_GROUP_GET_DEVICE_FD_def const_defs fdt_kernel_def)

lemma fdt_law: "kernel_fd_law fdt_kernel set" "linux_io_nr fdt_kernel"
proof -
  show "kernel_fd_law fdt_kernel set"
    unfolding kernel_fd_law_def fdt_request
    by (auto simp: fdt_kernel_def fdt_open_def lowest_free_Some split: option.splits)
      (auto dest: lowest_free_Some)
  show "linux_io_nr fdt_kernel" by (simp add: linux_io_nr_def fdt_kernel_def)
qed

section \<open>Interpretations\<close>

definition fdt_env :: "bool \<Rightarrow> fd list env" where
  "fdt_env t = \<lparr>env_kernel = fdt_kernel,
     env_sys = if t then test_syscall fdt_kernel else real_syscall fdt_kernel,
     env_feat = \<lparr>feat_kvm = True, feat_mshv = False, feat_test = t, overflow_checks = True\<rparr>\<rparr>"

lemma fdt_env_simps [simp]:
  "env_kernel (fdt_env t) = fdt_kernel" "env_sys (fdt_env True) = test_syscall fdt_kernel"
  "env_sys (fdt_env False) = real_syscall fdt_kernel" "feat_test (env_feat (fdt_env t)) = t"
  "overflow_checks (env_feat (fdt_env t))" "hypervisor (fdt_env t)"
  by (simp_all add: fdt_env_def hypervisor_def)

interpretation fdt_real: real_fds "fdt_env False" set
  by unfold_locales (simp_all add: fdt_law)

interpretation fdt_test: test_fds "fdt_env True" set
  by unfold_locales (simp_all add: fdt_law)

section \<open>Runs\<close>

text \<open>A container opened with descriptors 0 to 2 in use, a group attached to it, and a device of the group.\<close>

definition fdt_container :: "VfioDeviceFd option \<Rightarrow> VfioContainer" where
  "fdt_container h = \<lparr>ct_container = 3, ct_device_fd = h\<rparr>"

definition fdt_world :: "nat \<Rightarrow> fd list \<Rightarrow> fd list world" where
  "fdt_world n t = \<lparr>kst = t, arcs = [0 \<mapsto> (test_group, n)], next_arc = 1, groups = [(3, 0)]\<rparr>"

lemma fdt_opens:
  "fdt_open [0, 1, 2] = (Inr 3, [3, 0, 1, 2])" "fdt_open [3, 0, 1, 2] = (Inr 4, [4, 3, 0, 1, 2])"
  "fdt_open [4, 3, 0, 1, 2] = (Inr 5, [5, 4, 3, 0, 1, 2])"
  by (simp_all add: fdt_open_def lowest_free_def)

lemmas fdt_eval = fdt_opens test_defs io_defs const_defs hm_defs Let_def

lemma fdt_container_new:
  "VfioContainer_new (fdt_env True) h [0, 1, 2] = (Ok (fdt_container h), [3, 0, 1, 2])"
  by (simp add: VfioContainer_new_def check_api_version_def check_extension_def open_file_def fdt_container_def fdt_eval)

lemma fdt_get_group:
  "get_group (fdt_env True) (fdt_container h) 3 (new_world [3, 0, 1, 2]) = (Ok 0, fdt_world 2 [4, 3, 0, 1, 2])"
  by (simp add: get_group_def new_world_def fdt_world_def test_group_def fdt_container_def on_kernel_def
      VfioGroup_new_def open_group_file_def open_file_def attach_group_def arc_new_def insert_group_def
      arc_clone_def set_iommu_def device_add_group_def fdt_eval numeral_2_eq_2)

lemma fdt_open_fails:
  "open_in_group (fdt_env True) (fdt_container h) ''/'' 0 (fdt_world 2 [4, 3, 0, 1, 2]) =
     (Err InvalidPath, fdt_world 1 [4, 3, 0, 1, 2])"
  by (simp add: open_in_group_def arc_get_def fdt_world_def on_kernel_def get_device_def device_name_def
      file_name_def fail_with_group_def arc_drop_def fdt_eval)

lemma fdt_open_in_group:
  "open_in_group (fdt_env True) (fdt_container None) ''/tmp/file'' 0 (fdt_world 2 [4, 3, 0, 1, 2]) =
     (Ok test_device, fdt_world 2 [5, 4, 3, 0, 1, 2])"
proof -
  let ?info = "\<lparr>vdi_device = 5, vdi_flags = VFIO_DEVICE_FLAGS_PCI, vdi_num_regions = 8, vdi_num_irqs = 3\<rparr>"
  have "get_device (fdt_env True) test_group ''/tmp/file'' [4, 3, 0, 1, 2] = (Ok ?info, [5, 4, 3, 0, 1, 2])"
    by (simp add: get_device_def test_device_name VfioDeviceInfo_new_def fdt_eval)
  then have "attempt (on_kernel (get_device (fdt_env True) test_group ''/tmp/file'')) (fdt_world 2 [4, 3, 0, 1, 2]) =
      (Ok (Inr ?info), fdt_world 2 [5, 4, 3, 0, 1, 2])"
    by (simp add: attempt_def on_kernel_def fdt_world_def)
  moreover have "read_device (fdt_env True) (fdt_container None) 0 ?info (fdt_world 2 [5, 4, 3, 0, 1, 2]) =
      (Ok test_device, fdt_world 2 [5, 4, 3, 0, 1, 2])"
    by (simp add: read_device_def on_kernel_def io_defs test_get_regions test_get_irqs test_device_def fdt_world_def
        fdt_container_def test_container_def)
  moreover have "arc_get 0 (fdt_world 2 [4, 3, 0, 1, 2]) = (Ok test_group, fdt_world 2 [4, 3, 0, 1, 2])"
    by (simp add: arc_get_def fdt_world_def)
  ultimately show ?thesis by (simp add: open_in_group_def bind_def)
qed

lemma fdt_device_new:
  "VfioDevice_new (fdt_env True) ''/tmp/file'' (fdt_container None) (new_world [3, 0, 1, 2]) =
     (Ok test_device, fdt_world 2 [5, 4, 3, 0, 1, 2])"
  by (simp add: VfioDevice_new_split bind_def fdt_get_group fdt_open_in_group on_kernel_def
      get_group_id_from_path_def new_world_def [symmetric])

lemma fdt_opened_steps:
  assumes "open_in_group (fdt_env True) C path 0 (fdt_world 2 [4, 3, 0, 1, 2]) = (r, w')" "graceful r"
    "C = fdt_container h"
  shows "\<exists>p. outcome r p \<and> (step (fdt_env True) C)\<^sup>*\<^sup>* (replicate 1 Idle, new_world [3, 0, 1, 2]) ([p], w')"
proof -
  obtain p where p: "outcome r p" "(proc_step (fdt_env True) C)\<^sup>*\<^sup>* (Opening 0, fdt_world 2 [4, 3, 0, 1, 2]) (p, w')"
    using open_in_group_steps [OF assms(1,2)] by (auto simp: fdt_world_def)
  have "(proc_step (fdt_env True) C)\<^sup>*\<^sup>* (Idle, new_world [3, 0, 1, 2]) (p, w')"
    using p(2) proc_step.acquire [OF fdt_get_group] assms(3) by (auto intro: converse_rtranclp_into_rtranclp)
  from process_steps [OF this, of 0 "[Idle]"] p(1) show ?thesis by auto
qed

theorem descriptors_exact_witness:
  "set (kst (fdt_world 2 [5, 4, 3, 0, 1, 2])) =
     set [3, 0, 1, 2] \<union> ran (dev_fds [Live test_device]) \<union> ran (grp_fds (fdt_world 2 [5, 4, 3, 0, 1, 2])) \<and>
   ran (dev_fds [Live test_device]) = {5} \<and> ran (grp_fds (fdt_world 2 [5, 4, 3, 0, 1, 2])) = {4}"
proof -
  let ?E = "fdt_env True" and ?C = "fdt_container None"
  have steps: "(step ?E ?C)\<^sup>*\<^sup>* (replicate 1 Idle, new_world [3, 0, 1, 2])
      ([Live test_device], fdt_world 2 [5, 4, 3, 0, 1, 2])" using fdt_opened_steps [OF fdt_open_in_group] by simp
  have "ran (dev_fds [Live test_device]) = {5}"
    by (auto simp: dev_fds_def ran_def test_device_def split: if_splits)
  moreover have "ran (grp_fds (fdt_world 2 [5, 4, 3, 0, 1, 2])) = {4}"
    by (auto simp: grp_fds_def ran_def fdt_world_def test_group_def split: if_splits)
  ultimately show ?thesis using conjunct1 [OF descriptors_exact [OF fdt_test.law steps]] by (intro conjI)
qed

lemma fdt_drop_device: "\<exists>w2. drop_device (fdt_env True) test_device (fdt_world 2 [5, 4, 3, 0, 1, 2]) = (Ok (), w2)"
  by (simp add: drop_device_def device_drop_def test_device_def fdt_world_def test_group_def test_container_def
      put_group_def put_group_locked_def strong_count_def remove_group_def arc_get_def arc_drop_def arc_clone_def
      on_kernel_def close_file_def device_del_group_def io_defs test_defs hm_defs)

theorem device_descriptors_balanced_witness:
  "ledger set {5, 3, 0, 1, 2} (fdt_world 2 [5, 4, 3, 0, 1, 2]) \<and>
   (\<exists>w2. drop_device (fdt_env True) test_device (fdt_world 2 [5, 4, 3, 0, 1, 2]) = (Ok (), w2) \<and>
     ledger set {3, 0, 1, 2} w2)"
proof -
  have "ledger set {3, 0, 1, 2} (new_world [3, 0, 1, 2])"
    by (simp add: ledger_def grp_fds_def [abs_def] new_world_def)
  from device_descriptors_balanced [OF fdt_test.law this fdt_device_new] fdt_drop_device
  show ?thesis by (auto simp: test_device_def)
qed

theorem container_life_leaks_nothing_witness:
  "\<exists>w'. drop_container (fdt_env True) True [0] (fdt_container (Some (Kvm 2))) (fdt_world 1 [4, 3, 0, 1, 2]) = (Ok (), w') \<and>
     arcs w' = (\<lambda>_. None) \<and> set (kst w') = {0, 1}"
proof -
  let ?E = "fdt_env True" and ?C = "fdt_container (Some (Kvm 2))"
  have "(step ?E ?C)\<^sup>*\<^sup>* (replicate 1 Idle, new_world [3, 0, 1, 2])
      ([Idle], fdt_world 1 [4, 3, 0, 1, 2])" using fdt_opened_steps [OF fdt_open_fails] by simp
  from container_life_leaks_nothing [OF fdt_test.law fdt_container_new _ this, of "[0]" True]
  have "\<exists>w'. drop_container ?E True [0] ?C (fdt_world 1 [4, 3, 0, 1, 2]) = (Ok (), w') \<and>
      arcs w' = (\<lambda>_. None) \<and> set (kst w') = set [0, 1, 2] - {2}" by (simp add: fdt_world_def)
  moreover have "set [0, 1, 2 :: fd] - {2} = {0, 1}" by auto
  ultimately show ?thesis by simp
qed

end
