(* ===== verification/Spec2Isabelle.thy ===== *)
theory Spec2Isabelle
  imports Bindings_Constants Witnesses Crate_Tests Descriptor_Table
begin

text \<open>
  \<^bold>\<open>The \<open>vfio\<close> crates.\<close> The repository holds two Rust crates: \<open>vfio-bindings\<close>, the C structures and
  constants of the Linux VFIO interface as \<open>bindgen\<close> generates them, and \<open>vfio-ioctls\<close>, a safe wrapper
  with which a virtual machine monitor opens a VFIO container, attaches IOMMU groups to it, maps guest
  memory for DMA, and opens, configures and drops devices. This development models both crates and
  proves what makes them correct. Paths below are relative to \<open>src/crates\<close>.

  \<^bold>\<open>How the parts interact.\<close> A \<open>VfioContainer\<close> owns the container file and a table of groups behind a
  mutex. \<open>VfioDevice::new\<close> reads the group number from sysfs, asks the container for the group
  (\<open>get_group\<close> attaches it on first use), asks the group for the device file, and reads the device's
  regions (following a chain of capability headers in raw memory) and interrupts. Dropping a device
  closes its file and gives the group back (\<open>put_group\<close>), which detaches it when no other device uses
  it. Every kernel call goes through the module \<open>vfio_syscall\<close>, which exists in a real and a test
  version.

  \<^bold>\<open>The model.\<close> A function that returns \<open>Result\<close> is a state transformer with the outcomes \<open>Ok\<close>, \<open>Err\<close>,
  \<open>Panic\<close>, \<open>UB\<close> (an access outside the memory object) and \<open>Diverges\<close>; \<open>bind\<close> is the \<open>?\<close> operator. The kernel, the
  KVM and MSHV crates and \<open>vm-memory\<close> are not in the repository: they are the record \<open>'k kernel\<close> over an
  arbitrary state \<open>'k\<close>, and theorems that need more of them state it as a hypothesis on its calls: \<open>fd_law\<close>
  (which descriptors are open after a call), \<open>dma_law\<close> (how the two DMA requests change the IOMMU table when they
  succeed, and that they change nothing when they fail), \<open>pread_law\<close> and \<open>pwrite_law\<close> (a range of a device file
  behaves as memory). \<open>FamStructWrapper::new\<close> of \<open>vmm-sys-util\<close> is a parameter too (\<open>fam_new_law\<close>). Integers are
  machine words; additions that the source does not check take the build profile as an argument, because
  they panic in a debug build and wrap in a release build.

  \<^item> \<open>Vfio_Prelude\<close>: word and list facts, little-endian bytes, \<open>slice::get\<close>.
  \<^item> \<open>Vfio_Error\<close>: \<open>VfioError\<close> of \<open>vfio-ioctls/src/lib.rs\<close>, outcomes, sequencing, pre- and postconditions.
  \<^item> \<open>C_Layout\<close>, \<open>Bindings_Layout\<close>: the layout algorithm of \<open>repr(C)\<close>, every structure of
    \<open>vfio-bindings/src/bindings_v5_0_0/vfio.rs\<close>, and its layout tests.
  \<^item> \<open>Vfio_Bindings\<close>, \<open>Bindings_Constants\<close>: the constants (those the crates use, and all others), the structures
    as records, their encoding to bytes (locale \<open>codec\<close>, interpreted for each of them) and its agreement with
    the declared layouts, and the \<open>Default\<close> implementations.
  \<^item> \<open>Hash_Map\<close>, \<open>Rust_Std\<close>: what the crate uses of \<open>HashMap\<close> (locale \<open>hash_map\<close>, interpreted on association
    lists), of paths, UTF-8 and decimal numbers.
  \<^item> \<open>Fam\<close>: \<open>vfio-ioctls/src/fam.rs\<close>, vectors with room for a flexible array member. \<open>Fam_Wrappers\<close>:
    \<open>vfio-bindings/src/fam_wrappers.rs\<close>, the wrapper \<open>IrqSet\<close> and its test.
  \<^item> \<open>Vfio_Ioctls\<close>, \<open>Test_Syscall\<close>: \<open>vfio-ioctls/src/vfio_ioctls.rs\<close>, the request codes and the two versions
    of \<open>vfio_syscall\<close>; the locale \<open>vfio_syscalls\<close> is the contract of the module, interpreted for both.
  \<^item> \<open>Device_Info\<close>, \<open>Container\<close>, \<open>Device\<close>, \<open>Device_Irq\<close>, \<open>Region_Io\<close>: \<open>vfio-ioctls/src/vfio_device.rs\<close> in the order of its
    types: \<open>VfioDeviceInfo\<close>, \<open>VfioDeviceFd\<close> with \<open>VfioGroup\<close> and \<open>VfioContainer\<close>, and \<open>VfioDevice\<close> with its interrupts and
    its regions.
  \<^item> \<open>Group_Refs\<close>, \<open>Dma_Mappings\<close>, \<open>Lifecycle\<close>: proofs about the container: reference counts of groups, guest
    memory against an abstract IOMMU table, and threads that open and drop devices concurrently. The
    latter is a step relation (\<open>proc_step\<close>) with one step for each call in the bodies of \<open>VfioDevice::new\<close> and
    \<open>Drop::drop\<close> (\<open>get_group\<close>, \<open>get_device\<close>, \<open>get_regions\<close>, \<open>get_irqs\<close>; closing the file, cloning the \<open>Arc\<close>, the locked part
    of \<open>put_group\<close>) and for each drop that ends a scope, those of the early returns included; that the steps
    compose to the functions is \<open>open_in_group_steps\<close> and \<open>drop_device_steps\<close>. The queries inside one of these
    calls are not interleaved with other threads; they touch neither the table nor a count.
  \<^item> \<open>Descriptors\<close>, \<open>Descriptor_Table\<close>: who owns which file descriptor. The locale \<open>fd_calls\<close> is the law of the
    system calls about open descriptors; both versions of \<open>vfio_syscall\<close> satisfy it on a kernel that keeps
    its own law (sublocales \<open>real_fds\<close> and \<open>test_fds\<close>), and both are interpreted on a kernel with a table of
    descriptors. Here is also what dropping a \<open>VfioContainer\<close> does.
  \<^item> \<open>Kernel_Trace\<close>: a kernel that records the calls made to it, and the calls by which a group is attached
    and given back and a region is accessed.
  \<^item> \<open>Unit_Tests\<close>, \<open>Crate_Tests\<close>, \<open>Witnesses\<close>: the environment of the unit tests, every unit test of the two
    crates as a program that is run on the model, and instances of the theorems with hypotheses.

  \<^bold>\<open>What is shown.\<close>
  \<^item> Layout and encoding: structures are read back from their encoding, which puts each member where the
    bindings declare it; flexible-array vectors have room for their contents; the three places that build
    an interrupt request build the same bytes.
  \<^item> Device information: the interrupt and region tables are what the queries returned, for any kernel; the
    capability loop returns any well-formed chain in order, and runs forever exactly on a chain that comes
    back to one of its headers.
  \<^item> Groups: the count of every group is the number of references that exist, on every path of
    \<open>get_group\<close> and \<open>put_group\<close> and in every interleaving; a failing attach leaves nothing behind; a group
    in use is never detached; dropping always completes.
  \<^item> Descriptors: in every interleaving, and after every error, the open descriptors are exactly those
    that somebody owns; over the life of a container nothing is leaked, because dropping the container
    also releases the groups that stayed in its table.
  \<^item> The kernel's view: the exact sequence of calls for attaching a group, for giving it back up to the first
    call the kernel refuses, and for enabling interrupts; every transfer of a region access stays inside
    its region, whatever the device answers.
  \<^item> Interrupts and regions: the exact bytes of every request, every refused argument, reads and writes
    through short transfers and interruptions, and what becomes of every access outside its region.
  \<^item> DMA: mapping and unmapping guest memory is inverse on the kernel's IOMMU table and stops at the first
    error, whichever requests the kernel refuses.
  \<^item> As checks of the model itself: the unit tests of both crates and the layout tests of the bindings pass
    on it, and the constants of the bindings are consistent.
  \<^item> Where the code does less than it means to, a theorem says so: two concurrent drops can leave a
    group attached, a failed \<open>VfioDevice::new\<close> keeps its group, a region that cannot be read shifts the
    later ones, the bounds check of region accesses can wrap around in a release build, and the wrapper
    \<open>IrqSet\<close> holds a quarter of the descriptors its bound names.

  \<^bold>\<open>Bounds and fuel.\<close> The capability loop has fuel, one unit per byte of the vector and one more; lemma
  \<open>cap_loop_iff\<close> shows that this decides whether the loop ends. The transfer loops of the standard library are partial functions whose termination is proved from the
  file laws. Requests for interrupts are bounded by \<open>2^30 - 5\<close> descriptors, beyond which their 32-bit
  size field overflows.

  \<^bold>\<open>What is not modelled.\<close> Logging; the failing allocator; poisoning of the mutex and the state after a
  panic; the counts of the \<open>Arc\<close>s of the container and of the hypervisor's device (the container is dropped
  after its last device, and whether it had the last reference to the hypervisor's device is an argument
  of \<open>drop_container\<close>); the \<open>Debug\<close>, \<open>Clone\<close> and \<open>PartialEq\<close> implementations derived for data types and the type
  aliases of the bindings, which have no behaviour; the crate roots, which only declare modules; and
  big-endian machines.
\<close>

section \<open>From a device operation to the kernel\<close>

text \<open>
  C6: \<open>enable_irq\<close> on the real system calls, seen from the kernel: one \<open>VFIO_DEVICE_SET_IRQS\<close> call on the
  device's descriptor, with a buffer from which the kernel reads the header with the right size, flags,
  index and count, and behind it exactly the descriptors of the events, all within the buffer. The
  result is the kernel's.
\<close>

theorem enable_irq_on_the_wire:
  assumes "env_sys E = real_syscall K" "hm_get (dev_irqs dev) idx = Some irq" "irq_count irq \<noteq> 0"
    "length fds \<le> unat (irq_count irq)" "length fds < 2 ^ 30 - 5"
  shows "\<exists>buf. dec_vfio_irq_set buf = Some
        \<lparr>is_argsz = word_of_nat (20 + 4 * length fds),
         is_flags = VFIO_IRQ_SET_DATA_EVENTFD OR VFIO_IRQ_SET_ACTION_TRIGGER,
         is_index = idx, is_start = 0, is_count = word_of_nat (length fds)\<rparr> \<and>
      as_slice (read_u32 0) 4 (length fds) (drop 20 buf) = Some fds \<and> 20 + 4 * length fds \<le> length buf \<and>
      enable_irq E dev idx fds k =
        (case k_ioctl K (dev_device dev) (VFIO_DEVICE_SET_IRQS K) (BufArg buf) k of (r, k') \<Rightarrow>
           (if failed r then Err VfioDeviceEnableIrq else Ok (), k'))"
proof -
  obtain pad where pad: "\<not> fam_too_short size_irq_set (enable_request idx fds pad)"
    "enable_irq E dev idx fds k = map_err (\<lambda>_. VfioDeviceEnableIrq)
       (sys_set_device_irqs (env_sys E) (dev_device dev) (enable_request idx fds pad)) k"
    using enable_irq_image [OF assms(2-5), of E k] by blast
  have "length (enable_request idx fds pad) = 20 + 4 * length fds + pad"
    by (simp add: enable_request_def is_codec.length_enc)
  moreover have "enable_irq E dev idx fds k =
      (case k_ioctl K (dev_device dev) (VFIO_DEVICE_SET_IRQS K) (BufArg (enable_request idx fds pad)) k of (r, k') \<Rightarrow>
         (if failed r then Err VfioDeviceEnableIrq else Ok (), k'))"
    using pad assms(1)
    by (auto simp: real_syscall_def real_set_device_irqs_def map_err_def split: prod.splits)
  ultimately show ?thesis
    using enable_request_decodes by (intro exI [of _ "enable_request idx fds pad"]) simp
qed

theorem enable_irq_on_the_wire_witness:
  "\<exists>buf. as_slice (read_u32 0) 4 (length [7, 8 :: fd]) (drop 20 buf) = Some [7, 8] \<and>
     enable_irq real_env test_device 1 [7, 8] 0 =
       (case k_ioctl test_kernel 5 (VFIO_DEVICE_SET_IRQS test_kernel) (BufArg buf) 0 of (r, k') \<Rightarrow>
          (if failed r then Err VfioDeviceEnableIrq else Ok (), k'))"
proof -
  have "env_sys real_env = real_syscall test_kernel" "dev_device test_device = 5"
    by (simp_all add: real_env_def test_device_def)
  then show ?thesis
    using enable_irq_on_the_wire [of real_env test_kernel test_device 1
        "\<lparr>irq_flags = 1, irq_index = 1, irq_count = 32\<rparr>" "[7, 8]" 0]
    by (auto simp: test_irq_lookup)
qed

end
